(* ===== verification/Zatat_Prelude.thy ===== *)
theory Zatat_Prelude
  imports
    Main
    "HOL-Library.AList"
    "HOL-Library.Char_ord"
    "HOL-Library.List_Lexorder"
    "HOL-Library.Sublist"
    "HOL-Library.Word"
begin

text \<open>
  Shared vocabulary of the development.

  Rust strings are UTF-8 byte sequences, so a \<open>String\<close> is a HOL \<^typ>\<open>string\<close> whose characters are
  bytes: \<open>len()\<close> is \<^const>\<open>length\<close> and the derived \<open>Ord\<close> is the byte-wise lexicographic order of
  the library theory List_Lexorder. The hash maps of the program (\<open>DashMap\<close>, \<open>HashMap\<close>) are
  association lists with distinct keys; the list order stands for the unspecified iteration
  order, and the lemmas quantify over every list. A hash set is a list without repetitions.
  Instants and durations are natural numbers of nanoseconds, so \<open>duration_since\<close>, which saturates
  at zero, is truncating subtraction.
\<close>

type_synonym ('k, 'v) dmap = "('k \<times> 'v) list"
type_synonym instant = nat
type_synonym duration = nat

named_theorems zdefs \<open>definitions unfolded by the component proofs\<close>
named_theorems zwf \<open>preservation of well-formed maps\<close>

section \<open>Durations\<close>

definition from_secs :: "nat \<Rightarrow> duration" where
  "from_secs s = s * 1000000000"

definition as_secs :: "duration \<Rightarrow> nat" where
  "as_secs d = d div 1000000000"

lemma as_secs_from_secs [simp]: "as_secs (from_secs s) = s"
  by (simp add: as_secs_def from_secs_def)

lemma as_secs_mono: "a \<le> b \<Longrightarrow> as_secs a \<le> as_secs b"
  by (simp add: as_secs_def div_le_mono)

section \<open>Hash maps\<close>

abbreviation dget :: "('k, 'v) dmap \<Rightarrow> 'k \<Rightarrow> 'v option" where
  "dget m k \<equiv> map_of m k"

abbreviation dput :: "'k \<Rightarrow> 'v \<Rightarrow> ('k, 'v) dmap \<Rightarrow> ('k, 'v) dmap" where
  "dput \<equiv> AList.update"

abbreviation ddel :: "'k \<Rightarrow> ('k, 'v) dmap \<Rightarrow> ('k, 'v) dmap" where
  "ddel \<equiv> AList.delete"

abbreviation dkeys :: "('k, 'v) dmap \<Rightarrow> 'k list" where
  "dkeys m \<equiv> map fst m"

definition dwf :: "('k, 'v) dmap \<Rightarrow> bool" where
  "dwf m \<longleftrightarrow> distinct (dkeys m)"

definition dhas :: "('k, 'v) dmap \<Rightarrow> 'k \<Rightarrow> bool" where
  "dhas m k \<longleftrightarrow> dget m k \<noteq> None"

text \<open>\<open>remove_if\<close>: drops the entry when the predicate holds of its value.\<close>

definition dremove_if :: "'k \<Rightarrow> ('v \<Rightarrow> bool) \<Rightarrow> ('k, 'v) dmap \<Rightarrow> ('k, 'v) dmap" where
  "dremove_if k P m = (case dget m k of Some v \<Rightarrow> if P v then ddel k m else m | None \<Rightarrow> m)"

text \<open>\<open>entry(k).or_insert(v)\<close>: the map after the entry exists.\<close>

definition dentry :: "'k \<Rightarrow> 'v \<Rightarrow> ('k, 'v) dmap \<Rightarrow> ('k, 'v) dmap" where
  "dentry k v m = (case dget m k of Some _ \<Rightarrow> m | None \<Rightarrow> dput k v m)"

lemma dwf_Nil [simp, intro]: "dwf []"
  by (simp add: dwf_def)

lemma dwf_dput [zwf, intro]: "dwf m \<Longrightarrow> dwf (dput k v m)"
  by (simp add: dwf_def distinct_update)

lemma dwf_ddel [zwf, intro]: "dwf m \<Longrightarrow> dwf (ddel k m)"
  by (simp add: dwf_def distinct_delete)

lemma dwf_dentry [zwf, intro]: "dwf m \<Longrightarrow> dwf (dentry k v m)"
  by (auto simp: dentry_def dwf_dput split: option.split)

lemma dwf_dremove_if [zwf, intro]: "dwf m \<Longrightarrow> dwf (dremove_if k P m)"
  by (auto simp: dremove_if_def dwf_ddel split: option.split)

lemma dwf_filter [zwf, intro]: "dwf m \<Longrightarrow> dwf (filter P m)"
  by (simp add: dwf_def distinct_map_filter)

lemma dget_dput [simp]: "dget (dput k v m) k' = (if k' = k then Some v else dget m k')"
  by (simp add: update_conv')

lemma dget_ddel [simp]: "dget (ddel k m) k' = (if k' = k then None else dget m k')"
  by (simp add: delete_conv')

lemma dget_dentry [simp]:
  "dget (dentry k v m) k' = (if k' = k \<and> dget m k = None then Some v else dget m k')"
  by (auto simp: dentry_def split: option.split)

lemma dget_dremove_if [simp]:
  "dget (dremove_if k P m) k' =
     (if k' = k then (case dget m k of Some v \<Rightarrow> if P v then None else Some v | None \<Rightarrow> None)
      else dget m k')"
  by (auto simp: dremove_if_def split: option.split)

lemma dhas_iff: "dhas m k \<longleftrightarrow> k \<in> set (dkeys m)"
  by (auto simp: dhas_def map_of_eq_None_iff)

lemma dget_in: "dget m k = Some v \<Longrightarrow> (k, v) \<in> set m"
  by (rule map_of_SomeD)

lemma dget_of_in: "dwf m \<Longrightarrow> (k, v) \<in> set m \<Longrightarrow> dget m k = Some v"
  by (simp add: dwf_def)

lemma dwf_in_iff: "dwf m \<Longrightarrow> (k, v) \<in> set m \<longleftrightarrow> dget m k = Some v"
  by (blast intro: dget_in dget_of_in)

lemma dput_new: "dget m k = None \<Longrightarrow> dput k v m = m @ [(k, v)]"
  by (induction m) (auto split: if_splits)

lemma dput_same: "dget m k = Some v \<Longrightarrow> dput k v m = m"
  by (induction m) (auto split: if_splits)

lemma ddel_absent: "dget m k = None \<Longrightarrow> ddel k m = m"
  by (simp add: map_of_eq_None_iff)

lemma dput_dput [simp]: "dput k v (dput k w m) = dput k v m"
  by (induction m) auto

lemma ddel_dput [simp]: "ddel k (dput k v m) = ddel k m"
  by (induction m) auto

lemma ddel_dput_new: "dget m k = None \<Longrightarrow> ddel k (dput k v m) = m"
  by (simp add: ddel_absent)

lemma length_dput: "length (dput k v m) = (if dhas m k then length m else Suc (length m))"
  by (induction m) (auto simp: dhas_def split: if_splits)

lemma length_ddel: "dwf m \<Longrightarrow> dhas m k \<Longrightarrow> length m = Suc (length (ddel k m))"
proof (induction m)
  case Nil
  then show ?case by (simp add: dhas_def)
next
  case (Cons p m)
  show ?case
  proof (cases "fst p = k")
    case True
    with Cons.prems have "k \<notin> fst ` set m" by (auto simp: dwf_def)
    with True show ?thesis by simp
  next
    case False
    with Cons.prems have "dwf m" "dhas m k"
      by (cases p, auto simp: dwf_def dhas_def)+
    with False Cons.IH show ?thesis by simp
  qed
qed

lemma ddel_subset: "set (ddel k m) \<subseteq> set m"
  by (induction m) auto

lemma set_ddel: "set (ddel k m) = {p \<in> set m. fst p \<noteq> k}"
  by (induction m) auto

lemma set_dput: "dwf m \<Longrightarrow> set (dput k v m) = insert (k, v) {p \<in> set m. fst p \<noteq> k}"
  by (auto simp: dwf_in_iff dwf_dput split: if_splits)

lemma dremove_if_subset: "set (dremove_if k P m) \<subseteq> set m"
  using ddel_subset [of k m] by (auto simp: dremove_if_def split: option.splits if_splits)

lemma dkeys_dput: "set (dkeys (dput k v m)) = insert k (set (dkeys m))"
  by (simp add: dom_update)

lemma dkeys_ddel: "set (dkeys (ddel k m)) = set (dkeys m) - {k}"
  by (auto simp: set_ddel)

text \<open>A property of every entry of a map.\<close>

definition dall :: "('k \<Rightarrow> 'v \<Rightarrow> bool) \<Rightarrow> ('k, 'v) dmap \<Rightarrow> bool" where
  "dall P m = list_all (\<lambda>(k, v). P k v) m"

lemma dall_Nil [simp, intro]: "dall P []"
  by (simp add: dall_def)

lemma dall_dput [zwf, intro]: "dall P m \<Longrightarrow> P k v \<Longrightarrow> dall P (dput k v m)"
  by (induction m) (auto simp: dall_def)

lemma dall_filter [zwf, intro]: "dall P m \<Longrightarrow> dall P (filter Q m)"
  by (auto simp: dall_def list_all_iff)

lemma dall_ddel [zwf, intro]: "dall P m \<Longrightarrow> dall P (ddel k m)"
  by (auto simp: dall_def list_all_iff set_ddel)

lemma dall_dremove_if [zwf, intro]: "dall P m \<Longrightarrow> dall P (dremove_if k Q m)"
  by (auto simp: dremove_if_def dall_ddel split: option.split)

lemma dall_get: "dall P m \<Longrightarrow> dget m k = Some v \<Longrightarrow> P k v"
  by (auto simp: dall_def list_all_iff dest: dget_in)

lemma dall_iff: "dwf m \<Longrightarrow> dall P m \<longleftrightarrow> (\<forall>k v. dget m k = Some v \<longrightarrow> P k v)"
  by (auto simp: dall_def list_all_iff dwf_in_iff)

lemma dall_in: "dall P m \<Longrightarrow> (k, v) \<in> set m \<Longrightarrow> P k v"
  by (auto simp: dall_def list_all_iff)

text \<open>Replacing the entry of a key by a weaker one and dropping it unless it is good.\<close>

lemma dall_put_remove_if:
  assumes "dwf m" "dall P m" "\<And>v. v = w \<Longrightarrow> \<not> Q v \<Longrightarrow> P k v"
  shows "dall P (dremove_if k Q (dput k w m))"
  using assms by (subst dall_iff) (auto simp: zwf dall_iff split: if_splits)

text \<open>A map as a client sees it: lookup after insertion and removal.\<close>

locale kv_store =
  fixes get :: "'m \<Rightarrow> 'k \<Rightarrow> 'v option"
    and put :: "'k \<Rightarrow> 'v \<Rightarrow> 'm \<Rightarrow> 'm"
    and del :: "'k \<Rightarrow> 'm \<Rightarrow> 'm"
  assumes get_put: "get (put k v m) k' = (if k' = k then Some v else get m k')"
    and get_del: "get (del k m) k' = (if k' = k then None else get m k')"
begin

lemma put_del_restores: "get m k = None \<Longrightarrow> get (del k (put k v m)) = get m"
  by (rule ext) (simp add: get_del get_put)

lemma del_put_overwrites: "get (put k v (del k m)) = get (put k v m)"
  by (rule ext) (simp add: get_del get_put)

lemma fold_put:
  "get (fold (\<lambda>k. put k (f k)) ks m) k' = (if k' \<in> set ks then Some (f k') else get m k')"
  by (induction ks arbitrary: m) (auto simp: get_put)

lemma fold_del: "get (fold del ks m) k' = (if k' \<in> set ks then None else get m k')"
  by (induction ks arbitrary: m) (auto simp: get_del)

end

interpretation dm: kv_store dget dput ddel
  by unfold_locales simp_all

section \<open>Hash sets\<close>

definition hs_insert :: "'a \<Rightarrow> 'a list \<Rightarrow> 'a list" where
  "hs_insert x xs = (if x \<in> set xs then xs else xs @ [x])"

definition hs_remove :: "'a \<Rightarrow> 'a list \<Rightarrow> 'a list" where
  "hs_remove x xs = filter (\<lambda>y. y \<noteq> x) xs"

lemma set_hs_insert [simp]: "set (hs_insert x xs) = insert x (set xs)"
  by (auto simp: hs_insert_def)

lemma set_hs_remove [simp]: "set (hs_remove x xs) = set xs - {x}"
  by (auto simp: hs_remove_def)

lemma distinct_hs_insert [simp, intro]: "distinct xs \<Longrightarrow> distinct (hs_insert x xs)"
  by (simp add: hs_insert_def)

lemma distinct_hs_remove [simp, intro]: "distinct xs \<Longrightarrow> distinct (hs_remove x xs)"
  by (simp add: hs_remove_def)

text \<open>
  The contract shared by everything a socket, a user or a channel name joins and leaves.
\<close>

locale membership =
  fixes join :: "'a \<Rightarrow> 's \<Rightarrow> 's"
    and leave :: "'a \<Rightarrow> 's \<Rightarrow> 's"
    and members_of :: "'s \<Rightarrow> 'a set"
    and ok :: "'s \<Rightarrow> bool"
  assumes members_join: "ok s \<Longrightarrow> members_of (join x s) = insert x (members_of s)"
    and members_leave: "ok s \<Longrightarrow> members_of (leave x s) = members_of s - {x}"
    and ok_join: "ok s \<Longrightarrow> ok (join x s)"
    and ok_leave: "ok s \<Longrightarrow> ok (leave x s)"
begin

lemma ok_fold_join: "ok s \<Longrightarrow> ok (fold join xs s)"
  by (induction xs arbitrary: s) (auto intro: ok_join)

lemma ok_fold_leave: "ok s \<Longrightarrow> ok (fold leave xs s)"
  by (induction xs arbitrary: s) (auto intro: ok_leave)

lemma members_fold_join: "ok s \<Longrightarrow> members_of (fold join xs s) = members_of s \<union> set xs"
  by (induction xs arbitrary: s) (simp_all add: members_join ok_join)

lemma members_fold_leave: "ok s \<Longrightarrow> members_of (fold leave xs s) = members_of s - set xs"
  by (induction xs arbitrary: s) (auto simp add: members_leave ok_leave)

lemma leave_all: "ok s \<Longrightarrow> members_of s \<subseteq> set xs \<Longrightarrow> members_of (fold leave xs s) = {}"
  by (simp add: members_fold_leave)

lemma join_leave: "ok s \<Longrightarrow> x \<notin> members_of s \<Longrightarrow> members_of (leave x (join x s)) = members_of s"
  by (simp add: members_leave members_join ok_join)

end

interpretation hs: membership hs_insert hs_remove set distinct
  by unfold_locales simp_all

section \<open>Strings\<close>

definition starts_with :: "string \<Rightarrow> string \<Rightarrow> bool" where
  "starts_with s p = (take (length p) s = p)"

definition strip_prefix :: "string \<Rightarrow> string \<Rightarrow> string option" where
  "strip_prefix s p = (if starts_with s p then Some (drop (length p) s) else None)"

lemma starts_with_append [simp]: "starts_with (p @ s) p"
  by (simp add: starts_with_def)

lemma starts_withD: "starts_with s p \<Longrightarrow> s = p @ drop (length p) s"
  unfolding starts_with_def by (metis append_take_drop_id)

lemma starts_with_trans: "starts_with s (p @ q) \<Longrightarrow> starts_with s p"
  by (metis starts_withD append_assoc starts_with_append)

text \<open>Two prefixes of one string agree wherever both are defined.\<close>

fun compatible :: "string \<Rightarrow> string \<Rightarrow> bool" where
  "compatible (a # as) (b # bs) = (a = b \<and> compatible as bs)"
| "compatible _ _ = True"

lemma starts_with_compatible: "starts_with s p \<Longrightarrow> starts_with s q \<Longrightarrow> compatible p q"
proof (induction p q arbitrary: s rule: compatible.induct)
  case (1 a as b bs)
  then show ?case by (cases s) (auto simp: starts_with_def)
qed auto

lemma starts_with_excl: "\<not> compatible p q \<Longrightarrow> starts_with s p \<Longrightarrow> \<not> starts_with s q"
  using starts_with_compatible by blast

lemma strip_prefix_eq_Some: "strip_prefix s p = Some r \<longleftrightarrow> s = p @ r"
  by (auto simp: strip_prefix_def dest: starts_withD split: if_splits)

text \<open>\<open>str::split_once\<close>: the text before and after the first occurrence of the pattern.\<close>

fun split_once :: "string \<Rightarrow> string \<Rightarrow> (string \<times> string) option" where
  "split_once p [] = (if p = [] then Some ([], []) else None)"
| "split_once p (c # cs) =
     (if starts_with (c # cs) p then Some ([], drop (length p) (c # cs))
      else map_option (\<lambda>(a, b). (c # a, b)) (split_once p cs))"

text \<open>\<open>str::split\<close> on one character; always at least one piece.\<close>

fun split_on :: "char \<Rightarrow> string \<Rightarrow> string list" where
  "split_on c [] = [[]]"
| "split_on c (x # xs) =
     (if x = c then [] # split_on c xs
      else (case split_on c xs of [] \<Rightarrow> [[x]] | p # ps \<Rightarrow> (x # p) # ps))"

lemma split_on_nonempty [simp]: "split_on c s \<noteq> []"
  by (induction s) (auto split: list.split)

lemma split_on_no_sep: "c \<notin> set s \<Longrightarrow> split_on c s = [s]"
  by (induction s) auto

lemma split_on_append_sep: "c \<notin> set a \<Longrightarrow> split_on c (a @ c # b) = a # split_on c b"
  by (induction a) auto

lemma split_on_pieces: "p \<in> set (split_on c s) \<Longrightarrow> c \<notin> set p"
  by (induction s arbitrary: p) (auto split: list.splits if_splits)

lemma split_once_Some: "split_once p s = Some (a, b) \<Longrightarrow> s = a @ p @ b"
  by (induction s arbitrary: a b) (auto dest: starts_withD split: if_splits)

lemma split_once_char: "c \<notin> set a \<Longrightarrow> split_once [c] (a @ c # b) = Some (a, b)"
  by (induction a) (auto simp: starts_with_def)

lemma split_once_char_None: "split_once [c] s = None \<longleftrightarrow> c \<notin> set s"
  by (induction s) (auto simp: starts_with_def)

lemma split_once_char_first: "split_once [c] s = Some (a, b) \<Longrightarrow> c \<notin> set a"
  by (induction s arbitrary: a b) (auto simp: starts_with_def split: if_splits)

text \<open>\<open>to_ascii_lowercase\<close>: only the bytes \<open>A\<close> to \<open>Z\<close> change.\<close>

definition ascii_lower_char :: "char \<Rightarrow> char" where
  "ascii_lower_char c =
     (let n = (of_char c :: nat) in if 65 \<le> n \<and> n \<le> 90 then char_of (n + 32) else c)"

definition to_ascii_lowercase :: "string \<Rightarrow> string" where
  "to_ascii_lowercase = map ascii_lower_char"

definition eq_ignore_ascii_case :: "string \<Rightarrow> string \<Rightarrow> bool" where
  "eq_ignore_ascii_case a b \<longleftrightarrow> to_ascii_lowercase a = to_ascii_lowercase b"

lemma of_char_char_of_nat: "(n::nat) < 256 \<Longrightarrow> of_char (char_of n) = n"
  by (simp add: of_char_of)

lemma ascii_lower_char_idem [simp]: "ascii_lower_char (ascii_lower_char c) = ascii_lower_char c"
  by (auto simp: ascii_lower_char_def Let_def of_char_char_of_nat)

lemma to_ascii_lowercase_idem [simp]:
  "to_ascii_lowercase (to_ascii_lowercase s) = to_ascii_lowercase s"
  by (simp add: to_ascii_lowercase_def)

section \<open>Decimal numerals\<close>

definition digit_char :: "nat \<Rightarrow> char" where
  "digit_char d = char_of (48 + d)"

fun show_nat :: "nat \<Rightarrow> string" where
  "show_nat n = (if n < 10 then [digit_char n] else show_nat (n div 10) @ [digit_char (n mod 10)])"

declare show_nat.simps [simp del]

definition digit_value :: "char \<Rightarrow> nat option" where
  "digit_value c = (let n = of_char c in if 48 \<le> n \<and> n \<le> 57 then Some (n - 48) else None)"

fun parse_digits :: "nat \<Rightarrow> string \<Rightarrow> nat option" where
  "parse_digits acc [] = Some acc"
| "parse_digits acc (c # cs) =
     (case digit_value c of None \<Rightarrow> None | Some d \<Rightarrow> parse_digits (10 * acc + d) cs)"

definition parse_nat :: "string \<Rightarrow> nat option" where
  "parse_nat s = (if s = [] then None else parse_digits 0 s)"

lemma digit_value_digit_char [simp]: "d < 10 \<Longrightarrow> digit_value (digit_char d) = Some d"
  by (simp add: digit_value_def digit_char_def of_char_char_of_nat Let_def)

lemma parse_digits_append:
  "parse_digits a (xs @ ys) = Option.bind (parse_digits a xs) (\<lambda>b. parse_digits b ys)"
  by (induction xs arbitrary: a) (auto split: option.split)

lemma show_nat_nonempty [simp]: "show_nat n \<noteq> []"
  by (subst show_nat.simps) simp

lemma parse_digits_show_nat: "parse_digits 0 (show_nat n) = Some n"
proof (induction n rule: show_nat.induct)
  case (1 n)
  show ?case
  proof (cases "n < 10")
    case True
    then show ?thesis by (subst show_nat.simps) simp
  next
    case False
    with "1.IH" show ?thesis by (subst show_nat.simps) (simp add: parse_digits_append)
  qed
qed

lemma parse_nat_show_nat [simp]: "parse_nat (show_nat n) = Some n"
  by (simp add: parse_nat_def parse_digits_show_nat)

lemma show_nat_inj: "show_nat a = show_nat b \<longleftrightarrow> a = b"
  by (metis parse_nat_show_nat option.inject)

lemma show_nat_digits: "c \<in> set (show_nat n) \<Longrightarrow> digit_value c \<noteq> None"
proof (induction n rule: show_nat.induct)
  case (1 n)
  show ?case
  proof (cases "n < 10")
    case True
    with "1.prems" show ?thesis by (simp add: show_nat.simps [of n])
  next
    case False
    with "1" show ?thesis by (auto simp: show_nat.simps [of n])
  qed
qed

section \<open>Ordered maps and sets\<close>

text \<open>\<open>BTreeMap\<close> and \<open>BTreeSet\<close>: lists sorted by key without repetitions.\<close>

fun bt_put :: "'k::linorder \<Rightarrow> 'v \<Rightarrow> ('k \<times> 'v) list \<Rightarrow> ('k \<times> 'v) list" where
  "bt_put k v [] = [(k, v)]"
| "bt_put k v ((k', v') # m) =
     (if k < k' then (k, v) # (k', v') # m
      else if k = k' then (k, v) # m
      else (k', v') # bt_put k v m)"

definition bt_wf :: "('k::linorder \<times> 'v) list \<Rightarrow> bool" where
  "bt_wf m \<longleftrightarrow> sorted_wrt (<) (map fst m)"

definition bs_insert :: "'k::linorder \<Rightarrow> 'k list \<Rightarrow> 'k list" where
  "bs_insert x xs = (if x \<in> set xs then xs else insort x xs)"

definition bs_wf :: "'k::linorder list \<Rightarrow> bool" where
  "bs_wf xs \<longleftrightarrow> sorted xs \<and> distinct xs"

definition bs_of :: "'k::linorder list \<Rightarrow> 'k list" where
  "bs_of xs = fold bs_insert xs []"

lemma bt_wf_Nil [simp]: "bt_wf []"
  by (simp add: bt_wf_def)

lemma bt_put_keys: "fst ` set (bt_put k v m) = insert k (fst ` set m)"
  by (induction k v m rule: bt_put.induct) (simp_all add: insert_commute)

lemma bt_wf_put [simp, intro]: "bt_wf m \<Longrightarrow> bt_wf (bt_put k v m)"
proof (induction m)
  case (Cons p m)
  obtain k' v' where p: "p = (k', v')" by (cases p)
  have tail: "\<forall>x \<in> fst ` set (bt_put k v m). k' < x" if "k' < k"
    using Cons.prems that by (auto simp: p bt_wf_def bt_put_keys)
  show ?case
    using Cons tail by (auto simp: p bt_wf_def)
qed (simp add: bt_wf_def)

lemma bt_get_put:
  "bt_wf m \<Longrightarrow> map_of (bt_put k v m) x = (if x = k then Some v else map_of m x)"
  by (induction m) (auto simp: bt_wf_def)

lemma bt_wf_distinct: "bt_wf m \<Longrightarrow> distinct (map fst m) \<and> sorted (map fst m)"
  by (simp add: bt_wf_def strict_sorted_iff)

lemma set_bs_insert [simp]: "set (bs_insert x xs) = insert x (set xs)"
  by (auto simp: bs_insert_def set_insort_key)

lemma bs_wf_insert [simp, intro]: "bs_wf xs \<Longrightarrow> bs_wf (bs_insert x xs)"
  by (auto simp: bs_insert_def bs_wf_def distinct_insort sorted_insort)

lemma bs_wf_fold [simp, intro]: "bs_wf acc \<Longrightarrow> bs_wf (fold bs_insert xs acc)"
  by (induction xs arbitrary: acc) auto

lemma set_bs_fold [simp]: "set (fold bs_insert xs acc) = set xs \<union> set acc"
  by (induction xs arbitrary: acc) auto

lemma bs_wf_of [simp, intro]: "bs_wf (bs_of xs)"
  unfolding bs_of_def by (rule bs_wf_fold) (simp add: bs_wf_def)

lemma set_bs_of [simp]: "set (bs_of xs) = set xs"
  by (simp add: bs_of_def)

text \<open>Two ordered sets with the same elements are the same list.\<close>

lemma bs_eqI: "bs_wf xs \<Longrightarrow> bs_wf ys \<Longrightarrow> set xs = set ys \<Longrightarrow> xs = ys"
  by (simp add: bs_wf_def sorted_distinct_set_unique)

lemma length_bs_of: "length (bs_of xs) = card (set xs)"
  by (metis bs_wf_def bs_wf_of distinct_card set_bs_of)


section \<open>Step relations kept by loops\<close>

text \<open>
  A relation between the state before and after an operation that every operation of a component
  satisfies, and therefore every loop over operations.
\<close>

locale step_preorder =
  fixes R :: "'s \<Rightarrow> 's \<Rightarrow> bool"
  assumes refl: "R s s"
    and trans [trans]: "R s t \<Longrightarrow> R t u \<Longrightarrow> R s u"
begin

lemma fold_step: "(\<And>x s. R s (f x s)) \<Longrightarrow> R s (fold f xs s)"
proof (induction xs arbitrary: s)
  case Nil
  show ?case by (simp add: refl)
next
  case (Cons x xs)
  have "R s (f x s)" by (rule Cons.prems)
  also have "R (f x s) (fold f xs (f x s))" by (rule Cons.IH [OF Cons.prems])
  finally show ?case by simp
qed

lemma after: "(\<And>s. R s (f s)) \<Longrightarrow> R s t \<Longrightarrow> R s (f t)"
  by (blast intro: trans)

lemma if_step: "R s t \<Longrightarrow> R s u \<Longrightarrow> R s (if b then t else u)"
  by simp

lemma option_step: "R s t \<Longrightarrow> (\<And>x. R s (f x)) \<Longrightarrow> R s (case_option t f opt)"
  by (cases opt) simp_all

end

end
