(* ===== verification/Wire_Types.thy ===== *)
theory Wire_Types
  imports Zatat_Prelude
begin

text \<open>
  The data that crosses the program's boundaries: \<open>serde_json::Value\<close>, the frames a client
  sends (\<open>zatat-protocol/src/envelope.rs\<close>), the envelopes of the scaling bus
  (\<open>zatat-scaling/src/message.rs\<close>) and the bodies of the HTTP API (\<open>zatat-http/src/routes.rs\<close>).
  Sequence numbers are \<open>u64\<close> and the protocol version is \<open>u8\<close>, kept at their width.
\<close>

section \<open>JSON values\<close>

text \<open>
  A number is kept as the text its \<open>Display\<close> prints, which is all the program reads of it.
  Objects keep their insertion order (the \<open>preserve_order\<close> feature).
\<close>

datatype json =
    JNull
  | JBool bool
  | JNumber string
  | JString string
  | JArray "json list"
  | JObject "(string \<times> json) list"

fun json_get :: "json \<Rightarrow> string \<Rightarrow> json option" where
  "json_get (JObject fs) k = map_of fs k"
| "json_get _ k = None"

fun json_as_str :: "json \<Rightarrow> string option" where
  "json_as_str (JString s) = Some s"
| "json_as_str _ = None"

section \<open>Inbound frames\<close>

record inbound_frame =
  if_event :: string
  if_data :: json
  if_channel :: "string option"

section \<open>Presence members\<close>

record presence_member =
  pm_user_id :: string
  pm_user_info :: "json option"

section \<open>The scaling bus\<close>

definition SCALING_VERSION :: "8 word" where
  "SCALING_VERSION = 2"

definition SNAPSHOT_TTL :: duration where
  "SNAPSHOT_TTL = from_secs 15"

record app_ref =
  ar_id :: string
  ar_key :: string

record channel_count =
  cc_channel :: string
  cc_count :: nat

record metrics_query =
  mq_filter_by_prefix :: "string option"
  mq_info :: "string option"
  mq_connections_only :: bool

record channel_metric =
  cm_name :: string
  cm_occupied :: bool
  cm_subscription_count :: nat
  cm_user_count :: "nat option"
  cm_has_cached_payload :: bool
  cm_presence_user_ids :: "string list"

record presence_snapshot_member =
  psm_user_id :: string
  psm_user_info :: "json option"

text \<open>
  The constructors carry the fields in the order \<open>message.rs\<close> declares them; the node id comes
  first wherever a payload has one.
\<close>

datatype scaling_payload =
    Message string string string string "string option"
  | Terminate string
  | TerminateUser string string
  | ClientEvent string string string string string "string option"
  | PresenceSnapshot string string "presence_snapshot_member list"
  | UserEvent string string string string
  | MetricsRequest string string metrics_query
  | MetricsResponse string string "channel_metric list" nat
  | MemberAdded string string string "json option"
  | MemberRemoved string string string bool bool
  | SubscriptionCount string string nat bool
  | UserOnline string string
  | UserOffline string string
  | ChannelCountSnapshot string "channel_count list"
  | UserSessionSnapshot string "string list"

record scaling_envelope =
  env_version :: "8 word"
  env_seq :: "64 word"
  env_app :: app_ref
  env_payload :: scaling_payload

section \<open>HTTP bodies\<close>

record event_payload =
  ep_name :: string
  ep_data :: json
  ep_channels :: "string list option"
  ep_channel :: "string option"
  ep_socket_id :: "string option"
  ep_info :: "string option"

record user_event_payload =
  ue_name :: string
  ue_data :: json

section \<open>Webhook configuration\<close>

record webhook_config =
  wc_url :: string
  wc_event_types :: "string list"
  wc_filter_by_prefix :: "string option"

section \<open>Code outside the repository\<close>

text \<open>
  The third-party code the program calls, gathered in one record that every definition using it
  takes as an argument. Nothing is assumed of it here; a theorem that relies on documented
  behaviour states it as a hypothesis.

  \<^item> \<open>serde_json\<close> on untyped values (\<open>x_from_str\<close>, \<open>x_to_string\<close>) and the deserialisers its derive
    macros generate (\<open>x_inbound\<close>, \<open>x_event\<close>, \<open>x_batch\<close>, \<open>x_user_event\<close>, \<open>x_webhook\<close>,
    \<open>x_envelope\<close>, \<open>x_env_parse\<close>, \<open>x_env_print\<close>), with the text of the error they give for a
    type and a document (\<open>x_parse_error\<close>);
  \<^item> the hash and cipher crates (\<open>x_hmac\<close> keyed on its first argument, \<open>x_hex\<close>, \<open>x_md5\<close> in lower
    case hexadecimal, \<open>x_sha256\<close>, \<open>x_b64_encode\<close>, \<open>x_b64_decode\<close>, and XSalsa20Poly1305 as
    \<open>x_seal\<close> and \<open>x_open\<close> on key, nonce and text);
  \<^item> \<open>globset\<close>: whether a pattern compiles (\<open>x_glob_new\<close>), whether a set of compiled patterns builds
    (\<open>x_glob_build\<close>) and whether a pattern matches (\<open>x_glob_match\<close>).
\<close>

record ext =
  x_from_str :: "string \<Rightarrow> json option"
  x_to_string :: "json \<Rightarrow> string"
  x_inbound :: "string \<Rightarrow> inbound_frame option"
  x_event :: "string \<Rightarrow> event_payload option"
  x_batch :: "string \<Rightarrow> event_payload list option"
  x_user_event :: "string \<Rightarrow> user_event_payload option"
  x_webhook :: "json \<Rightarrow> webhook_config option"
  x_envelope :: "string \<Rightarrow> (string \<times> string) option"
  x_env_parse :: "string \<Rightarrow> scaling_envelope option"
  x_env_print :: "scaling_envelope \<Rightarrow> string"
  x_hmac :: "string \<Rightarrow> string \<Rightarrow> string"
  x_hex :: "string \<Rightarrow> string"
  x_md5 :: "string \<Rightarrow> string"
  x_sha256 :: "string \<Rightarrow> string"
  x_b64_encode :: "string \<Rightarrow> string"
  x_b64_decode :: "string \<Rightarrow> string option"
  x_seal :: "string \<Rightarrow> string \<Rightarrow> string \<Rightarrow> string option"
  x_open :: "string \<Rightarrow> string \<Rightarrow> string \<Rightarrow> string option"
  x_glob_new :: "string \<Rightarrow> bool"
  x_glob_build :: "string list \<Rightarrow> bool"
  x_glob_match :: "string \<Rightarrow> string \<Rightarrow> bool"
  x_parse_error :: "string \<Rightarrow> string \<Rightarrow> string"

end
