(* ===== verification/Core_Types.thy ===== *)
theory Core_Types
  imports Wire_Types
begin

text \<open>
  The crate \<open>zatat-core\<close>: channel kinds and names (\<open>channel_name.rs\<close>), protocol errors
  (\<open>error.rs\<close>), identifiers (\<open>id.rs\<close>) and the settings of an application (\<open>application.rs\<close>).
\<close>

section \<open>Channel kinds\<close>

datatype channel_kind =
    Public | Private | Presence | Cache | PrivateCache | PresenceCache
  | PrivateEncrypted | PrivateEncryptedCache

definition MAX_CHANNEL_NAME_LEN :: nat where
  "MAX_CHANNEL_NAME_LEN = 164"

definition MAX_EVENT_NAME_LEN :: nat where
  "MAX_EVENT_NAME_LEN = 200"

definition from_name :: "string \<Rightarrow> channel_kind" where
  "from_name name =
     (if starts_with name ''private-encrypted-cache-'' then PrivateEncryptedCache
      else if starts_with name ''private-encrypted-'' then PrivateEncrypted
      else if starts_with name ''presence-cache-'' then PresenceCache
      else if starts_with name ''private-cache-'' then PrivateCache
      else if starts_with name ''cache-'' then Cache
      else if starts_with name ''presence-'' then Presence
      else if starts_with name ''private-'' then Private
      else Public)"

fun is_private :: "channel_kind \<Rightarrow> bool" where
  "is_private Private = True"
| "is_private Presence = True"
| "is_private PrivateCache = True"
| "is_private PresenceCache = True"
| "is_private PrivateEncrypted = True"
| "is_private PrivateEncryptedCache = True"
| "is_private _ = False"

fun is_presence :: "channel_kind \<Rightarrow> bool" where
  "is_presence Presence = True"
| "is_presence PresenceCache = True"
| "is_presence _ = False"

fun is_cache :: "channel_kind \<Rightarrow> bool" where
  "is_cache Cache = True"
| "is_cache PrivateCache = True"
| "is_cache PresenceCache = True"
| "is_cache PrivateEncryptedCache = True"
| "is_cache _ = False"

fun is_encrypted :: "channel_kind \<Rightarrow> bool" where
  "is_encrypted PrivateEncrypted = True"
| "is_encrypted PrivateEncryptedCache = True"
| "is_encrypted _ = False"

definition valid_name_byte :: "char \<Rightarrow> bool" where
  "valid_name_byte b =
     (let n = (of_char b :: nat) in
      (65 \<le> n \<and> n \<le> 90) \<or> (97 \<le> n \<and> n \<le> 122) \<or> (48 \<le> n \<and> n \<le> 57) \<or>
      b \<in> set ''_-=@,.;'')"

definition is_valid_channel_name :: "string \<Rightarrow> bool" where
  "is_valid_channel_name name =
     (if name = [] \<or> length name > MAX_CHANNEL_NAME_LEN then False
      else list_all valid_name_byte name)"

section \<open>Protocol errors\<close>

datatype pusher_error =
    AppDoesNotExist | OverConnectionQuota | Unauthorized | InvalidOrigin | InvalidMessageFormat
  | PongNotReceived | RateLimitExceeded | ClientEventsDisabled | NotChannelMember
  | InvalidAuthSignature

fun code :: "pusher_error \<Rightarrow> nat" where
  "code AppDoesNotExist = 4001"
| "code OverConnectionQuota = 4004"
| "code Unauthorized = 4009"
| "code InvalidOrigin = 4009"
| "code InvalidMessageFormat = 4200"
| "code PongNotReceived = 4201"
| "code RateLimitExceeded = 4301"
| "code ClientEventsDisabled = 4301"
| "code NotChannelMember = 4301"
| "code InvalidAuthSignature = 4301"

fun message :: "pusher_error \<Rightarrow> string" where
  "message AppDoesNotExist = ''Application does not exist''"
| "message OverConnectionQuota = ''Application is over connection quota''"
| "message Unauthorized = ''Connection is unauthorized''"
| "message InvalidOrigin = ''Origin not allowed''"
| "message InvalidMessageFormat = ''Invalid message format''"
| "message PongNotReceived = ''Pong reply not received in time''"
| "message RateLimitExceeded = ''Rate limit exceeded''"
| "message ClientEventsDisabled = ''The app does not have client messaging enabled''"
| "message NotChannelMember = ''The client is not a member of the specified channel''"
| "message InvalidAuthSignature = ''Auth signature invalid''"

section \<open>Identifiers\<close>

text \<open>
  \<open>AppId\<close>, \<open>AppKey\<close>, \<open>SocketId\<close> and \<open>ChannelName\<close> are newtypes over \<open>String\<close>. The two random
  numbers a socket id is drawn from are arguments.
\<close>

type_synonym app_id = string
type_synonym app_key = string
type_synonym socket_id = string
type_synonym channel_name = string

definition socket_id_generate :: "nat \<Rightarrow> nat \<Rightarrow> socket_id" where
  "socket_id_generate a b = show_nat a @ ''.'' @ show_nat b"

section \<open>Applications\<close>

datatype accept_client_events_from = AcceptAll | AcceptMembers | AcceptNone

record rate_limit_config =
  rl_enabled :: bool
  rl_max_attempts :: nat
  rl_decay_seconds :: nat
  rl_terminate_on_limit :: bool

record application =
  app_id :: app_id
  app_key :: app_key
  app_secret :: string
  ping_interval :: nat
  activity_timeout :: nat
  max_message_size :: nat
  max_connections :: "nat option"
  accept_client_events_from :: accept_client_events_from
  rate_limiting :: "rate_limit_config option"
  allowed_origins_raw :: "string list"
  allowed_origins :: "string list"
  app_webhooks :: "json list"
  emit_subscription_count :: bool
  encryption_master_key :: "string option"
  cache_ttl_seconds :: "nat option"
  max_presence_members_per_channel :: nat
  max_presence_member_size_bytes :: nat
  max_channels_per_connection :: nat

datatype application_error = InvalidOriginPattern string

definition default_max_presence_members :: nat where
  "default_max_presence_members = 100"

definition default_max_presence_member_size_bytes :: nat where
  "default_max_presence_member_size_bytes = 2048"

definition default_max_channels_per_connection :: nat where
  "default_max_channels_per_connection = 100"

text \<open>The compiled glob set is the list of the patterns it was built from.\<close>

fun collect_globs :: "ext \<Rightarrow> string list \<Rightarrow> application_error + string list" where
  "collect_globs E [] = Inr []"
| "collect_globs E (p # ps) =
     (if p = ''*'' then collect_globs E ps
      else if \<not> x_glob_new E p then Inl (InvalidOriginPattern p)
      else (case collect_globs E ps of Inl e \<Rightarrow> Inl e | Inr gs \<Rightarrow> Inr (p # gs)))"

definition build_origin_globset :: "ext \<Rightarrow> string list \<Rightarrow> application_error + string list" where
  "build_origin_globset E patterns =
     (case collect_globs E patterns of
        Inl e \<Rightarrow> Inl e
      | Inr gs \<Rightarrow> if x_glob_build E gs then Inr gs else Inl (InvalidOriginPattern ''<combined>''))"

definition application_new ::
  "ext \<Rightarrow> app_id \<Rightarrow> app_key \<Rightarrow> string \<Rightarrow> nat \<Rightarrow> nat \<Rightarrow> nat \<Rightarrow> nat option \<Rightarrow>
   accept_client_events_from \<Rightarrow> rate_limit_config option \<Rightarrow> string list \<Rightarrow>
   application_error + application" where
  "application_new E aid key secret ping activity max_msg max_conn accept rate origins =
     (case build_origin_globset E origins of
        Inl e \<Rightarrow> Inl e
      | Inr globs \<Rightarrow> Inr
          \<lparr>app_id = aid, app_key = key, app_secret = secret, ping_interval = ping,
           activity_timeout = activity, max_message_size = max_msg, max_connections = max_conn,
           accept_client_events_from = accept, rate_limiting = rate,
           allowed_origins_raw = origins, allowed_origins = globs, app_webhooks = [],
           emit_subscription_count = False, encryption_master_key = None,
           cache_ttl_seconds = None,
           max_presence_members_per_channel = default_max_presence_members,
           max_presence_member_size_bytes = default_max_presence_member_size_bytes,
           max_channels_per_connection = default_max_channels_per_connection\<rparr>)"

definition with_cache_ttl_seconds :: "nat option \<Rightarrow> application \<Rightarrow> application" where
  "with_cache_ttl_seconds ttl a = a\<lparr>cache_ttl_seconds := ttl\<rparr>"

definition with_presence_limits :: "nat \<Rightarrow> nat \<Rightarrow> application \<Rightarrow> application" where
  "with_presence_limits max_members max_size a =
     a\<lparr>max_presence_members_per_channel := max_members,
       max_presence_member_size_bytes := max_size\<rparr>"

definition with_max_channels_per_connection :: "nat \<Rightarrow> application \<Rightarrow> application" where
  "with_max_channels_per_connection n a = a\<lparr>max_channels_per_connection := n\<rparr>"

definition with_webhooks :: "json list \<Rightarrow> application \<Rightarrow> application" where
  "with_webhooks ws a = a\<lparr>app_webhooks := ws\<rparr>"

definition with_subscription_count :: "bool \<Rightarrow> application \<Rightarrow> application" where
  "with_subscription_count b a = a\<lparr>emit_subscription_count := b\<rparr>"

definition with_encryption_master_key :: "string option \<Rightarrow> application \<Rightarrow> application" where
  "with_encryption_master_key k a = a\<lparr>encryption_master_key := k\<rparr>"

definition origin_is_allowed :: "ext \<Rightarrow> application \<Rightarrow> string \<Rightarrow> bool" where
  "origin_is_allowed E a host =
     (if list_ex (\<lambda>p. p = ''*'') (allowed_origins_raw a) then True
      else list_ex (\<lambda>p. x_glob_match E p host) (allowed_origins a))"

section \<open>Facts about kinds and names\<close>

lemma kind_facts [simp]:
  "is_presence k \<Longrightarrow> is_private k"
  "is_encrypted k \<Longrightarrow> is_private k"
  "is_encrypted k \<Longrightarrow> \<not> is_presence k"
  by (cases k; simp)+

lemma name_prefix_excl:
  "starts_with n ''private-'' \<Longrightarrow> \<not> starts_with n ''presence-''"
  "starts_with n ''private-'' \<Longrightarrow> \<not> starts_with n ''cache-''"
  "starts_with n ''presence-'' \<Longrightarrow> \<not> starts_with n ''cache-''"
  "starts_with n ''private-encrypted-'' \<Longrightarrow> \<not> starts_with n ''private-cache-''"
  by (rule starts_with_excl [rotated], assumption, simp)+

lemma name_prefix_up:
  "starts_with n ''private-encrypted-cache-'' \<Longrightarrow> starts_with n ''private-encrypted-''"
  "starts_with n ''private-encrypted-'' \<Longrightarrow> starts_with n ''private-''"
  "starts_with n ''private-cache-'' \<Longrightarrow> starts_with n ''private-''"
  "starts_with n ''presence-cache-'' \<Longrightarrow> starts_with n ''presence-''"
  using starts_with_trans [of n "''private-encrypted-''" "''cache-''"]
    starts_with_trans [of n "''private-''" "''encrypted-''"]
    starts_with_trans [of n "''private-''" "''cache-''"]
    starts_with_trans [of n "''presence-''" "''cache-''"]
  by simp_all

text \<open>The kind predicates, read off the name rather than off the decision list.\<close>

lemma is_presence_from_name: "is_presence (from_name n) \<longleftrightarrow> starts_with n ''presence-''"
  using name_prefix_excl [of n] name_prefix_up [of n] unfolding from_name_def by auto

lemma is_private_from_name:
  "is_private (from_name n) \<longleftrightarrow> starts_with n ''private-'' \<or> starts_with n ''presence-''"
  using name_prefix_excl [of n] name_prefix_up [of n] unfolding from_name_def by auto

lemma is_encrypted_from_name:
  "is_encrypted (from_name n) \<longleftrightarrow> starts_with n ''private-encrypted-''"
  using name_prefix_excl [of n] name_prefix_up [of n] unfolding from_name_def by auto

lemma is_cache_from_name:
  "is_cache (from_name n) \<longleftrightarrow>
     starts_with n ''cache-'' \<or> starts_with n ''private-cache-'' \<or>
     starts_with n ''presence-cache-'' \<or> starts_with n ''private-encrypted-cache-''"
  using name_prefix_excl [of n] name_prefix_up [of n] unfolding from_name_def by auto

lemmas kind_from_name =
  is_presence_from_name is_private_from_name is_encrypted_from_name is_cache_from_name

lemma socket_id_parts:
  "map parse_nat (split_on (CHR ''.'') (socket_id_generate a b)) = [Some a, Some b]"
proof -
  have no_dot: "CHR ''.'' \<notin> set (show_nat n)" for n
    using show_nat_digits [of "CHR ''.''" n] by (auto simp: digit_value_def)
  show ?thesis
    using no_dot by (simp add: socket_id_generate_def split_on_append_sep split_on_no_sep)
qed

lemma collect_globs_Inr:
  "collect_globs E ps = Inr gs \<Longrightarrow>
     gs = filter (\<lambda>p. p \<noteq> ''*'') ps \<and> list_all (x_glob_new E) gs"
  by (induction ps arbitrary: gs) (auto split: if_splits sum.splits)

lemma collect_globs_Inl:
  "collect_globs E ps = Inl (InvalidOriginPattern p) \<Longrightarrow>
     p \<in> set ps \<and> p \<noteq> ''*'' \<and> \<not> x_glob_new E p"
  by (induction ps) (auto split: if_splits sum.splits)

lemma build_origin_globset_Inr:
  "build_origin_globset E ps = Inr gs \<Longrightarrow>
     gs = filter (\<lambda>p. p \<noteq> ''*'') ps \<and> list_all (x_glob_new E) gs"
  by (auto simp: build_origin_globset_def dest: collect_globs_Inr split: sum.splits if_splits)

text \<open>
  C33: Origins. A host is allowed exactly when the configured list contains the catch-all pattern or
  one of its patterns matches the host; an application whose list holds a pattern that does not
  compile is not created.
\<close>

theorem origin_policy:
  assumes "application_new E aid key secret ping act mx conns acc rate origins = Inr app"
  shows "list_all (x_glob_new E) (filter (\<lambda>p. p \<noteq> ''*'') origins) \<and>
         (origin_is_allowed E app host \<longleftrightarrow>
            ''*'' \<in> set origins \<or> (\<exists>p\<in>set origins. p \<noteq> ''*'' \<and> x_glob_match E p host))"
proof -
  from assms obtain gs where gs: "build_origin_globset E origins = Inr gs"
    and app: "allowed_origins app = gs" "allowed_origins_raw app = origins"
    by (auto simp: application_new_def split: sum.splits)
  from build_origin_globset_Inr [OF gs] app show ?thesis
    by (auto simp: origin_is_allowed_def list_ex_iff)
qed

end
