(* ===== verification/Protocol_Frames.thy ===== *)
theory Protocol_Frames
  imports Core_Types
begin

text \<open>
  The crate \<open>zatat-protocol\<close>, its frames: the envelope encoder (\<open>envelope.rs\<close>), the presence
  roster (\<open>presence.rs\<close>), the server's frames (\<open>outbound.rs\<close>) and the reading of a client's data
  (\<open>inbound.rs\<close>). A reader of flat JSON objects of strings is the reference against which the
  hand-written encoder is shown to lose nothing.
\<close>

section \<open>Envelopes\<close>

definition DQ :: char where "DQ = CHR 0x22"
definition BS :: char where "BS = CHR 0x5C"

definition hex_digit :: "nat \<Rightarrow> char" where
  "hex_digit d = (if d < 10 then char_of (48 + d) else char_of (87 + d))"

text \<open>\<open>format!\<close> with four hexadecimal digits, for a code below \<open>0x20\<close>.\<close>

definition hex4 :: "nat \<Rightarrow> string" where
  "hex4 n = [hex_digit (n div 4096), hex_digit (n div 256 mod 16),
             hex_digit (n div 16 mod 16), hex_digit (n mod 16)]"

definition escape_char :: "char \<Rightarrow> string" where
  "escape_char c =
     (if c = DQ then [BS, DQ]
      else if c = BS then [BS, BS]
      else if c = CHR 0x0A then [BS, CHR ''n'']
      else if c = CHR 0x0D then [BS, CHR ''r'']
      else if c = CHR 0x09 then [BS, CHR ''t'']
      else if c = CHR 0x08 then [BS, CHR ''b'']
      else if c = CHR 0x0C then [BS, CHR ''f'']
      else if (of_char c :: nat) < 0x20 then BS # CHR ''u'' # hex4 (of_char c)
      else [c])"

definition write_json_string :: "string \<Rightarrow> string \<Rightarrow> string" where
  "write_json_string buf s = buf @ DQ # concat (map escape_char s) @ [DQ]"

definition envelope_key :: "string \<Rightarrow> string" where
  "envelope_key k = DQ # k @ [DQ, CHR '':'']"

definition encode_envelope_raw_data ::
  "string \<Rightarrow> string option \<Rightarrow> string option \<Rightarrow> string" where
  "encode_envelope_raw_data event data_raw channel =
     (let buf = write_json_string (''{'' @ envelope_key ''event'') event;
          buf = (case data_raw of
                   Some raw \<Rightarrow> write_json_string (buf @ '','' @ envelope_key ''data'') raw
                 | None \<Rightarrow> buf);
          buf = (case channel of
                   Some ch \<Rightarrow> write_json_string (buf @ '','' @ envelope_key ''channel'') ch
                 | None \<Rightarrow> buf)
      in buf @ ''}'')"

definition encode_envelope ::
  "ext \<Rightarrow> string \<Rightarrow> json option \<Rightarrow> string option \<Rightarrow> string" where
  "encode_envelope E event data channel =
     (let buf = write_json_string (''{'' @ envelope_key ''event'') event;
          buf = (case data of
                   Some value \<Rightarrow>
                     (let inner = x_to_string E value
                      in write_json_string (buf @ '','' @ envelope_key ''data'') inner)
                 | None \<Rightarrow> buf);
          buf = (case channel of
                   Some ch \<Rightarrow> write_json_string (buf @ '','' @ envelope_key ''channel'') ch
                 | None \<Rightarrow> buf)
      in buf @ ''}'')"

text \<open>\<open>buf.pop()\<close> drops the closing brace before the user id is appended.\<close>

definition encode_client_event ::
  "string \<Rightarrow> string \<Rightarrow> string \<Rightarrow> string option \<Rightarrow> string" where
  "encode_client_event event data_raw channel user_id =
     (let buf = encode_envelope_raw_data event (Some data_raw) (Some channel)
      in case user_id of
           Some uid \<Rightarrow>
             (let buf = butlast buf;
                  buf = write_json_string (buf @ '','' @ envelope_key ''user_id'') uid
              in buf @ ''}'')
         | None \<Rightarrow> buf)"

definition parse_inbound :: "ext \<Rightarrow> string \<Rightarrow> inbound_frame option" where
  "parse_inbound E text = x_inbound E text"

section \<open>The presence roster\<close>

record presence_data =
  pd_count :: nat
  pd_ids :: "string list"
  pd_hash :: "(string \<times> json) list"

definition presence_empty :: presence_data where
  "presence_empty = \<lparr>pd_count = 0, pd_ids = [], pd_hash = []\<rparr>"

text \<open>The loop over the members; \<^const>\<open>None\<close> when a member has no presence data.\<close>

fun collect_members ::
  "(string \<times> json) list \<Rightarrow> presence_member option list \<Rightarrow> (string \<times> json) list option" where
  "collect_members seen [] = Some seen"
| "collect_members seen (None # ms) = None"
| "collect_members seen (Some m # ms) =
     (let info = (case pm_user_info m of Some v \<Rightarrow> v | None \<Rightarrow> JNull)
      in collect_members
           (if map_of seen (pm_user_id m) = None then bt_put (pm_user_id m) info seen else seen)
           ms)"

definition from_members :: "presence_member option list \<Rightarrow> presence_data" where
  "from_members ms =
     (case collect_members [] ms of
        None \<Rightarrow> presence_empty
      | Some seen \<Rightarrow>
          (let ids = map fst seen in \<lparr>pd_count = length ids, pd_ids = ids, pd_hash = seen\<rparr>))"

definition to_subscription_data :: "presence_data \<Rightarrow> json" where
  "to_subscription_data p =
     JObject [(''presence'', JObject
       [(''count'', JNumber (show_nat (pd_count p))),
        (''ids'', JArray (map JString (pd_ids p))),
        (''hash'', JObject (pd_hash p))])]"

section \<open>Frames the server sends\<close>

definition connection_established :: "ext \<Rightarrow> string \<Rightarrow> nat \<Rightarrow> string" where
  "connection_established E sid timeout =
     encode_envelope E ''pusher:connection_established''
       (Some (JObject [(''socket_id'', JString sid),
                       (''activity_timeout'', JNumber (show_nat timeout))])) None"

definition error_with_message :: "ext \<Rightarrow> nat \<Rightarrow> string \<Rightarrow> string" where
  "error_with_message E c msg =
     encode_envelope E ''pusher:error''
       (Some (JObject [(''code'', JNumber (show_nat c)), (''message'', JString msg)])) None"

definition error_frame :: "ext \<Rightarrow> pusher_error \<Rightarrow> string" where
  "error_frame E err =
     (let data = JObject [(''code'', JNumber (show_nat (code err))),
                          (''message'', JString (message err))]
      in encode_envelope E ''pusher:error'' (Some data) None)"

definition ping_frame :: "ext \<Rightarrow> string" where
  "ping_frame E = encode_envelope E ''pusher:ping'' None None"

definition pong_frame :: "ext \<Rightarrow> string" where
  "pong_frame E = encode_envelope E ''pusher:pong'' None None"

definition subscription_succeeded :: "ext \<Rightarrow> string \<Rightarrow> json option \<Rightarrow> string" where
  "subscription_succeeded E channel data =
     (case data of
        Some v \<Rightarrow> encode_envelope E ''pusher_internal:subscription_succeeded''
                    (Some v) (Some channel)
      | None \<Rightarrow> encode_envelope_raw_data ''pusher_internal:subscription_succeeded''
                  (Some ''{}'') (Some channel))"

definition subscription_succeeded_with_presence :: "ext \<Rightarrow> string \<Rightarrow> presence_data \<Rightarrow> string" where
  "subscription_succeeded_with_presence E channel p =
     encode_envelope E ''pusher_internal:subscription_succeeded''
       (Some (to_subscription_data p)) (Some channel)"

definition member_added :: "ext \<Rightarrow> string \<Rightarrow> string \<Rightarrow> json option \<Rightarrow> string" where
  "member_added E channel uid info =
     (let data = (case info of
                    Some i \<Rightarrow> JObject [(''user_id'', JString uid), (''user_info'', i)]
                  | None \<Rightarrow> JObject [(''user_id'', JString uid)])
      in encode_envelope E ''pusher_internal:member_added'' (Some data) (Some channel))"

definition member_removed :: "ext \<Rightarrow> string \<Rightarrow> string \<Rightarrow> string" where
  "member_removed E channel uid =
     encode_envelope E ''pusher_internal:member_removed''
       (Some (JObject [(''user_id'', JString uid)])) (Some channel)"

definition cache_miss :: "ext \<Rightarrow> string \<Rightarrow> string" where
  "cache_miss E channel = encode_envelope E ''pusher:cache_miss'' None (Some channel)"

definition subscription_count :: "ext \<Rightarrow> string \<Rightarrow> nat \<Rightarrow> string" where
  "subscription_count E channel n =
     encode_envelope E ''pusher_internal:subscription_count''
       (Some (JObject [(''subscription_count'', JNumber (show_nat n))])) (Some channel)"

definition signin_success :: "ext \<Rightarrow> string \<Rightarrow> string" where
  "signin_success E user_data =
     encode_envelope E ''pusher:signin_success''
       (Some (JObject [(''user_data'', JString user_data)])) None"

section \<open>Reading a client's data\<close>

definition data_as_value :: "ext \<Rightarrow> json \<Rightarrow> json" where
  "data_as_value E data =
     (case data of
        JString s \<Rightarrow> (case x_from_str E s of Some v \<Rightarrow> v | None \<Rightarrow> JString s)
      | _ \<Rightarrow> data)"

section \<open>A reference reader\<close>

text \<open>
  \<open>read_string\<close> reads the rest of a JSON string after its opening quote (RFC 8259, with \<open>\u\<close>
  escapes below \<open>0x80\<close>) and returns the text and what follows the closing quote.
\<close>

definition hex_value :: "char \<Rightarrow> nat option" where
  "hex_value c =
     (let n = of_char c in
      if 48 \<le> n \<and> n \<le> 57 then Some (n - 48)
      else if 97 \<le> n \<and> n \<le> 102 then Some (n - 87)
      else if 65 \<le> n \<and> n \<le> 70 then Some (n - 55) else None)"

definition hex_quad :: "char \<Rightarrow> char \<Rightarrow> char \<Rightarrow> char \<Rightarrow> char option" where
  "hex_quad a b c d =
     (case (hex_value a, hex_value b, hex_value c, hex_value d) of
        (Some i, Some j, Some k, Some l) \<Rightarrow>
          (let n = 4096 * i + 256 * j + 16 * k + l in if n < 128 then Some (char_of n) else None)
      | _ \<Rightarrow> None)"

definition short_escape :: "char \<Rightarrow> char option" where
  "short_escape e =
     map_of [(DQ, DQ), (BS, BS), (CHR ''/'', CHR ''/''), (CHR ''n'', CHR 0x0A),
             (CHR ''r'', CHR 0x0D), (CHR ''t'', CHR 0x09), (CHR ''b'', CHR 0x08),
             (CHR ''f'', CHR 0x0C)] e"

definition cons_read :: "char \<Rightarrow> (string \<times> string) option \<Rightarrow> (string \<times> string) option" where
  "cons_read c r = map_option (\<lambda>(s, rest). (c # s, rest)) r"

fun read_string :: "string \<Rightarrow> (string \<times> string) option" where
  "read_string [] = None"
| "read_string (c # cs) =
     (if c = DQ then Some ([], cs)
      else if c = BS then
        (case cs of
           [] \<Rightarrow> None
         | e # es \<Rightarrow>
             (case short_escape e of
                Some x \<Rightarrow> cons_read x (read_string es)
              | None \<Rightarrow>
                  (case es of
                     h1 # h2 # h3 # h4 # rest \<Rightarrow>
                       (case (if e = CHR ''u'' then hex_quad h1 h2 h3 h4 else None) of
                          Some x \<Rightarrow> cons_read x (read_string rest)
                        | None \<Rightarrow> None)
                   | _ \<Rightarrow> None)))
      else if (of_char c :: nat) < 0x20 then None
      else cons_read c (read_string cs))"

text \<open>A quoted string at the head of the input.\<close>

definition read_quoted :: "string \<Rightarrow> (string \<times> string) option" where
  "read_quoted s = (case s of c # cs \<Rightarrow> if c = DQ then read_string cs else None | [] \<Rightarrow> None)"

text \<open>The members of a flat object of strings, after its opening brace; fuel bounds their number.\<close>

fun read_members :: "nat \<Rightarrow> string \<Rightarrow> (string \<times> string) list option" where
  "read_members 0 s = None"
| "read_members (Suc n) s =
     (case read_quoted s of
        Some (k, c # r) \<Rightarrow>
          (if c \<noteq> CHR '':'' then None
           else (case read_quoted r of
                   Some (v, d # r') \<Rightarrow>
                     (if d = CHR ''}'' then (if r' = [] then Some [(k, v)] else None)
                      else if d = CHR '','' then
                        map_option (\<lambda>fs. (k, v) # fs) (read_members n r')
                      else None)
                 | _ \<Rightarrow> None))
      | _ \<Rightarrow> None)"

definition read_flat_object :: "string \<Rightarrow> (string \<times> string) list option" where
  "read_flat_object s =
     (case s of c # cs \<Rightarrow> if c = CHR ''{'' then read_members (length cs) cs else None | [] \<Rightarrow> None)"

lemma hex_digit_value: "d < 16 \<Longrightarrow> hex_value (hex_digit d) = Some d"
  by (auto simp: hex_value_def hex_digit_def of_char_char_of_nat Let_def)

lemma hex_quad_hex4:
  assumes "(of_char c :: nat) < 0x20"
  shows "\<exists>a b d e. hex4 (of_char c) = [a, b, d, e] \<and> hex_quad a b d e = Some c"
proof -
  define n :: nat where "n = of_char c"
  have n: "n < 32" using assms by (simp add: n_def)
  have c: "char_of n = c" by (simp add: n_def)
  have q: "4096 * (n div 4096) + 256 * (n div 256 mod 16) + 16 * (n div 16 mod 16) + n mod 16 = n"
    using n by simp
  show ?thesis
    unfolding n_def [symmetric]
    using n q by (auto simp: hex4_def hex_quad_def hex_digit_value c Let_def)
qed

lemma short_escape_u: "short_escape (CHR ''u'') = None"
  by (simp add: short_escape_def DQ_def BS_def)

lemma read_string_escape: "read_string (escape_char c @ rest) = cons_read c (read_string rest)"
proof (cases "c = DQ \<or> c = BS \<or> c \<in> {CHR 0x0A, CHR 0x0D, CHR 0x09, CHR 0x08, CHR 0x0C}")
  case True
  then show ?thesis
    by (auto simp: escape_char_def short_escape_def DQ_def BS_def)
next
  case False
  note special = this
  show ?thesis
  proof (cases "(of_char c :: nat) < 0x20")
    case True
    from hex_quad_hex4 [OF True] obtain a b d e
      where "hex4 (of_char c) = [a, b, d, e]" "hex_quad a b d e = Some c" by blast
    with special True have "escape_char c = BS # CHR ''u'' # [a, b, d, e]"
      by (simp add: escape_char_def)
    with \<open>hex_quad a b d e = Some c\<close> show ?thesis
      by (simp add: short_escape_u) (simp add: BS_def DQ_def)
  next
    case False
    with special show ?thesis by (simp add: escape_char_def)
  qed
qed

lemma read_string_escaped: "read_string (concat (map escape_char s) @ DQ # rest) = Some (s, rest)"
proof (induction s)
  case (Cons c s)
  have "read_string (concat (map escape_char (c # s)) @ DQ # rest) =
      cons_read c (read_string (concat (map escape_char s) @ DQ # rest))"
    using read_string_escape [of c "concat (map escape_char s) @ DQ # rest"] by simp
  with Cons.IH show ?case by (simp add: cons_read_def)
qed simp

lemma read_quoted_write: "read_quoted (write_json_string [] s @ rest) = Some (s, rest)"
  by (simp add: read_quoted_def write_json_string_def read_string_escaped)

lemma write_json_string_app: "write_json_string buf s = buf @ write_json_string [] s"
  by (simp add: write_json_string_def)

text \<open>A member as the encoder lays it out, and the layout of a whole object.\<close>

definition member_text :: "string \<times> string \<Rightarrow> string" where
  "member_text kv = envelope_key (fst kv) @ write_json_string [] (snd kv)"

fun members_text :: "(string \<times> string) list \<Rightarrow> string" where
  "members_text [] = ''}''"
| "members_text [kv] = member_text kv @ ''}''"
| "members_text (kv # kvs) = member_text kv @ '','' @ members_text kvs"

definition plain_key :: "string \<Rightarrow> bool" where
  "plain_key k \<longleftrightarrow> concat (map escape_char k) = k"

lemma read_member:
  "plain_key k \<Longrightarrow> read_quoted (member_text (k, v) @ rest) =
     Some (k, CHR '':'' # write_json_string [] v @ rest)"
  using read_string_escaped [of k "CHR '':'' # write_json_string [] v @ rest"]
  by (simp add: member_text_def envelope_key_def read_quoted_def plain_key_def)

lemma read_members_text:
  "kvs \<noteq> [] \<Longrightarrow> list_all (plain_key \<circ> fst) kvs \<Longrightarrow> length kvs \<le> n \<Longrightarrow>
     read_members n (members_text kvs) = Some kvs"
proof (induction kvs arbitrary: n rule: members_text.induct)
  case 1
  then show ?case by simp
next
  case (2 kv)
  then obtain m where n: "n = Suc m" by (cases n) auto
  obtain k v where kv: "kv = (k, v)" by (cases kv)
  with "2.prems" show ?case
    by (simp add: n read_member read_quoted_write)
next
  case (3 kv kv' kvs)
  then obtain m where n: "n = Suc m" by (cases n) auto
  obtain k v where kv: "kv = (k, v)" by (cases kv)
  with "3" show ?case
    by (simp add: n read_member read_quoted_write)
qed

lemma members_text_length: "length kvs \<le> length (members_text kvs)"
proof (induction kvs rule: members_text.induct)
  case (3 kv kv' kvs)
  then show ?case by simp
qed simp_all

lemma read_flat_members:
  assumes "kvs \<noteq> []" "list_all (plain_key \<circ> fst) kvs"
  shows "read_flat_object (''{'' @ members_text kvs) = Some kvs"
  using read_members_text [OF assms members_text_length] by (simp add: read_flat_object_def)

lemma plain_keys:
  "plain_key ''event''" "plain_key ''data''" "plain_key ''channel''" "plain_key ''user_id''"
  by (simp_all add: plain_key_def escape_char_def DQ_def BS_def)

definition envelope_fields ::
  "string \<Rightarrow> string option \<Rightarrow> string option \<Rightarrow> (string \<times> string) list" where
  "envelope_fields event data channel =
     (''event'', event) #
     (case data of Some d \<Rightarrow> [(''data'', d)] | None \<Rightarrow> []) @
     (case channel of Some c \<Rightarrow> [(''channel'', c)] | None \<Rightarrow> [])"

lemma envelope_layout:
  "encode_envelope_raw_data event data channel =
     ''{'' @ members_text (envelope_fields event data channel)"
  by (cases data; cases channel)
     (simp_all add: encode_envelope_raw_data_def envelope_fields_def member_text_def
        write_json_string_app [of "_ @ _"] write_json_string_app [of "_ # _"])

lemma encode_envelope_raw:
  "encode_envelope E event data channel =
     encode_envelope_raw_data event (map_option (x_to_string E) data) channel"
  by (cases data) (simp_all add: encode_envelope_def encode_envelope_raw_data_def)

lemma client_event_layout:
  "encode_client_event event data channel uid =
     ''{'' @ members_text
       (envelope_fields event (Some data) (Some channel) @
        (case uid of Some u \<Rightarrow> [(''user_id'', u)] | None \<Rightarrow> []))"
  by (cases uid)
     (simp_all add: encode_client_event_def envelope_layout envelope_fields_def member_text_def
        write_json_string_app [of "_ @ _"] write_json_string_app [of "_ # _"] butlast_append)

lemma envelope_fields_plain: "list_all (plain_key \<circ> fst) (envelope_fields event data channel)"
  by (cases data; cases channel) (simp_all add: envelope_fields_def plain_keys)

text \<open>
  C32: Reading back a frame. The hand-written encoder escapes every string so that a JSON reader
  recovers exactly the event name, the printed data and the channel, in that order and with no
  other member, whatever bytes they hold.
\<close>

theorem encode_envelope_round_trip:
  "read_flat_object (encode_envelope E event data channel) =
     Some (envelope_fields event (map_option (x_to_string E) data) channel)"
  unfolding encode_envelope_raw envelope_layout
  by (rule read_flat_members [OF _ envelope_fields_plain]) (simp add: envelope_fields_def)

text \<open>
  A forwarded client event carries the sender's data text unchanged, and a \<open>user_id\<close> member
  exactly when the sender has one: the brace that is popped and pushed again never corrupts the
  object.
\<close>

theorem encode_client_event_round_trip:
  "read_flat_object (encode_client_event event data channel uid) =
     Some ([(''event'', event), (''data'', data), (''channel'', channel)] @
           (case uid of Some u \<Rightarrow> [(''user_id'', u)] | None \<Rightarrow> []))"
  unfolding client_event_layout
  by (subst read_flat_members)
     (auto simp: envelope_fields_def plain_keys split: option.split)

section \<open>The roster\<close>

lemma collect_members_wf:
  "bt_wf seen \<Longrightarrow> collect_members seen ms = Some r \<Longrightarrow> bt_wf r"
  by (induction seen ms rule: collect_members.induct) (auto simp: Let_def split: if_splits)

lemma collect_members_None: "collect_members seen ms = None \<longleftrightarrow> None \<in> set ms"
  by (induction seen ms rule: collect_members.induct) (auto simp: Let_def)

text \<open>The first member listed under a user id decides the information shown for that user.\<close>

lemma collect_members_lookup:
  "bt_wf seen \<Longrightarrow> collect_members seen (map Some ms) = Some r \<Longrightarrow>
     map_of r u =
       (case map_of seen u of Some v \<Rightarrow> Some v
        | None \<Rightarrow> map_option (\<lambda>m. case pm_user_info m of Some v \<Rightarrow> v | None \<Rightarrow> JNull)
                   (find (\<lambda>m. pm_user_id m = u) ms))"
proof (induction ms arbitrary: seen)
  case (Cons m ms)
  show ?case
  proof (cases "map_of seen (pm_user_id m)")
    case None
    with Cons.prems Cons.IH [of "bt_put (pm_user_id m)
          (case pm_user_info m of Some v \<Rightarrow> v | None \<Rightarrow> JNull) seen"]
    show ?thesis by (auto simp: Let_def bt_get_put split: option.split)
  next
    case (Some v)
    with Cons.prems Cons.IH [of seen] show ?thesis by (auto simp: Let_def split: option.split)
  qed
qed (auto split: option.split)

text \<open>
  The roster of a presence channel. Ids are sorted and free of repetitions, the count is their
  number, the hash has one entry per id in the same order, and every member appears under the
  information of the first connection that carries its id.
\<close>

theorem from_members_roster:
  "let p = from_members (map Some ms) in
     sorted (pd_ids p) \<and> distinct (pd_ids p) \<and> set (pd_ids p) = pm_user_id ` set ms \<and>
     pd_count p = card (pm_user_id ` set ms) \<and> map fst (pd_hash p) = pd_ids p \<and>
     map_of (pd_hash p) u =
       map_option (\<lambda>m. case pm_user_info m of Some v \<Rightarrow> v | None \<Rightarrow> JNull)
         (find (\<lambda>m. pm_user_id m = u) ms)"
proof -
  have "collect_members [] (map Some ms) \<noteq> None" by (simp add: collect_members_None)
  then obtain r where r: "collect_members [] (map Some ms) = Some r" by blast
  note wf = bt_wf_distinct [OF collect_members_wf [OF bt_wf_Nil r]]
  note look = collect_members_lookup [OF bt_wf_Nil r, simplified]
  have keys: "fst ` set r = pm_user_id ` set ms"
  proof (rule set_eqI)
    fix x
    have "x \<in> fst ` set r \<longleftrightarrow> map_of r x \<noteq> None" by (simp add: map_of_eq_None_iff)
    also have "\<dots> \<longleftrightarrow> x \<in> pm_user_id ` set ms" by (auto simp: look find_None_iff)
    finally show "x \<in> fst ` set r \<longleftrightarrow> x \<in> pm_user_id ` set ms" .
  qed
  with wf have "length r = card (pm_user_id ` set ms)"
    by (metis distinct_card length_map list.set_map)
  with wf keys look show ?thesis by (simp add: from_members_def r Let_def)
qed

end
