(* ===== verification/Sample_Ext.thy ===== *)
theory Sample_Ext
  imports Protocol_Frames
begin

text \<open>
  A concrete instance of the external code of \<^typ>\<open>ext\<close>, on which the theorems that rely on
  documented behaviour of that code are instantiated: a toy keyed digest and cipher with the laws
  of the real ones, an identity for base64, and a JSON codec for flat objects of strings. It is
  never part of a definition that models the program.
\<close>

definition hex_encode :: "string \<Rightarrow> string" where
  "hex_encode s = concat (map (\<lambda>c. [hex_digit (of_char c div 16), hex_digit (of_char c mod 16)]) s)"

definition json_text :: "json \<Rightarrow> string" where
  "json_text j = (case json_as_str j of Some s \<Rightarrow> s | None \<Rightarrow> [])"

fun sample_to_string :: "json \<Rightarrow> string" where
  "sample_to_string (JObject fs) = ''{'' @ members_text (map (\<lambda>(k, v). (k, json_text v)) fs)"
| "sample_to_string (JString s) = write_json_string [] s"
| "sample_to_string _ = ''null''"

definition sample_from_str :: "string \<Rightarrow> json option" where
  "sample_from_str s =
     map_option (\<lambda>fs. JObject (map (\<lambda>(k, v). (k, JString v)) fs)) (read_flat_object s)"

definition sample_inbound :: "string \<Rightarrow> inbound_frame option" where
  "sample_inbound s =
     Option.bind (read_flat_object s) (\<lambda>fs.
       map_option (\<lambda>ev. \<lparr>if_event = ev,
           if_data = (case map_of fs ''data'' of Some d \<Rightarrow> JString d | None \<Rightarrow> JNull),
           if_channel = map_of fs ''channel''\<rparr>)
         (map_of fs ''event''))"

definition sample_event :: "string \<Rightarrow> event_payload option" where
  "sample_event s =
     Option.bind (read_flat_object s) (\<lambda>fs.
       map_option (\<lambda>nm. \<lparr>ep_name = nm,
           ep_data = (case map_of fs ''data'' of Some d \<Rightarrow> JString d | None \<Rightarrow> JNull),
           ep_channels = None, ep_channel = map_of fs ''channel'',
           ep_socket_id = map_of fs ''socket_id'', ep_info = map_of fs ''info''\<rparr>)
         (map_of fs ''name''))"

definition sample_envelope :: "string \<Rightarrow> (string \<times> string) option" where
  "sample_envelope s =
     Option.bind (read_flat_object s) (\<lambda>fs.
       Option.bind (map_of fs ''nonce'') (\<lambda>n. map_option (Pair n) (map_of fs ''ciphertext'')))"

definition sample_ext :: ext where
  "sample_ext =
     \<lparr>x_from_str = sample_from_str, x_to_string = sample_to_string, x_inbound = sample_inbound,
      x_event = sample_event, x_batch = (\<lambda>s. map_option (\<lambda>e. [e]) (sample_event s)),
      x_user_event = (\<lambda>s. map_option (\<lambda>e. \<lparr>ue_name = ep_name e, ue_data = ep_data e\<rparr>) (sample_event s)),
      x_webhook = (\<lambda>j. map_option (\<lambda>u. \<lparr>wc_url = u, wc_event_types = [], wc_filter_by_prefix = None\<rparr>)
                     (json_as_str j)),
      x_envelope = sample_envelope, x_env_parse = (\<lambda>s. None),
      x_env_print = (\<lambda>e. show_nat (unat (env_seq e))),
      x_hmac = (\<lambda>k m. k @ m), x_hex = hex_encode, x_md5 = hex_encode,
      x_sha256 = (\<lambda>m. take 32 (m @ replicate 32 (CHR ''0''))),
      x_b64_encode = (\<lambda>s. s), x_b64_decode = Some,
      x_seal = (\<lambda>k n p. Some (k @ n @ p)),
      x_open = (\<lambda>k n c. strip_prefix c (k @ n)),
      x_glob_new = (\<lambda>p. p \<noteq> []), x_glob_build = (\<lambda>_. True),
      x_glob_match = (\<lambda>p h. p = h), x_parse_error = (\<lambda>_ _. ''error'')\<rparr>"

text \<open>An application with small limits.\<close>

definition sample_app :: application where
  "sample_app = \<lparr>app_id = ''1'', app_key = ''key'', app_secret = ''s'', ping_interval = 30,
     activity_timeout = 30, max_message_size = 10000, max_connections = Some 2,
     accept_client_events_from = AcceptMembers, rate_limiting = None,
     allowed_origins_raw = [''*''], allowed_origins = [], app_webhooks = [],
     emit_subscription_count = False, encryption_master_key = None, cache_ttl_seconds = None,
     max_presence_members_per_channel = 100, max_presence_member_size_bytes = 2048,
     max_channels_per_connection = 2\<rparr>"

lemma sample_seal: "x_seal sample_ext k n p = Some (k @ n @ p)"
  by (simp add: sample_ext_def)

lemma sample_decode: "x_b64_decode sample_ext s = Some s"
  by (simp add: sample_ext_def)

lemma sample_open_seal: "x_seal sample_ext k n p = Some c \<Longrightarrow> x_open sample_ext k n c = Some p"
  by (auto simp: sample_ext_def strip_prefix_eq_Some)

lemma sample_envelope_print:
  "x_envelope sample_ext (x_to_string sample_ext
     (JObject [(''nonce'', JString n), (''ciphertext'', JString c)])) = Some (n, c)"
proof -
  have "plain_key ''nonce''" "plain_key ''ciphertext''"
    by (simp_all add: plain_key_def escape_char_def DQ_def BS_def)
  then have "read_flat_object (''{'' @ members_text [(''nonce'', n), (''ciphertext'', c)]) =
      Some [(''nonce'', n), (''ciphertext'', c)]"
    by (intro read_flat_members) simp_all
  then show ?thesis
    by (simp add: sample_ext_def sample_envelope_def json_text_def del: members_text.simps)
qed

lemma sample_b64: "x_b64_decode sample_ext (x_b64_encode sample_ext s) = Some s"
  by (simp add: sample_ext_def)

theorem origin_policy_witness:
  "\<exists>app. application_new sample_ext ''1'' ''key'' ''s'' 30 30 1000 None AcceptMembers None [''a.b''] = Inr app \<and>
         origin_is_allowed sample_ext app ''a.b'' \<and> \<not> origin_is_allowed sample_ext app ''c''"
proof -
  obtain app where app:
    "application_new sample_ext ''1'' ''key'' ''s'' 30 30 1000 None AcceptMembers None [''a.b''] = Inr app"
    by (simp add: application_new_def build_origin_globset_def sample_ext_def)
  from origin_policy [OF app] app show ?thesis by (auto simp: sample_ext_def)
qed

end
