(* ===== verification/Publish_Pipeline.thy ===== *)
theory Publish_Pipeline
  imports Sample_Ext
begin

text \<open>
  The outbound half of the scaling bus in \<open>zatat-scaling/src/dispatcher.rs\<close>: numbering an envelope,
  handing its bytes to the bounded queue (or, in \<open>Block\<close> mode, to the staging buffer with its byte
  budget), the forwarder task between the two, and the publisher worker that takes batches off the
  queue. The tasks run concurrently; each of their steps between two suspension points is one
  operation of the machine \<open>pub_do\<close>, so every interleaving is a list of operations.
\<close>

section \<open>State\<close>

definition PUBLISH_QUEUE_CAPACITY :: nat where
  "PUBLISH_QUEUE_CAPACITY = 32768"

definition PUBLISH_DROP_WARN_INTERVAL :: duration where
  "PUBLISH_DROP_WARN_INTERVAL = from_secs 5"

definition BLOCK_STAGING_MAX_BYTES :: nat where
  "BLOCK_STAGING_MAX_BYTES = 256 * 1024 * 1024"

definition PUBLISH_BATCH :: nat where
  "PUBLISH_BATCH = 64"

datatype publish_overflow = BestEffort | Block

text \<open>
  The staging buffer: the items in its unbounded channel, the item its forwarder task has received
  and not yet handed on, whether the forwarder still runs, the bytes reserved and the budget.
\<close>

record block_staging =
  bs_items :: "string list"
  bs_in_hand :: "string option"
  bs_open :: bool
  bs_bytes :: nat
  bs_limit :: nat

text \<open>
  The fields of \<open>EventDispatcher\<close> that publishing uses: \<open>publish_tx\<close> (None when scaling is off, else
  the queued bytes), whether its receiver is gone, \<open>block_tx\<close>, the drop counter and the throttle of
  its warning, the batch the worker is publishing and the sequence counter.
\<close>

record publisher =
  pb_queue :: "string list option"
  pb_closed :: bool
  pb_overflow :: publish_overflow
  pb_block :: "block_staging option"
  pb_drops_total :: "64 word"
  pb_last_drop_warn :: "instant option"
  pb_batch :: "string list"
  pb_publishing :: nat
  pb_seq :: "64 word"

definition publisher_new :: "bool \<Rightarrow> publish_overflow \<Rightarrow> publisher" where
  "publisher_new scaling_enabled overflow =
     \<lparr>pb_queue = (if scaling_enabled then Some [] else None), pb_closed = False,
      pb_overflow = overflow,
      pb_block = (if overflow = Block \<and> scaling_enabled
                  then Some \<lparr>bs_items = [], bs_in_hand = None, bs_open = True, bs_bytes = 0,
                             bs_limit = BLOCK_STAGING_MAX_BYTES\<rparr>
                  else None),
      pb_drops_total = 0, pb_last_drop_warn = None, pb_batch = [], pb_publishing = 0, pb_seq = 0\<rparr>"

section \<open>Publishing\<close>

definition next_seq :: "publisher \<Rightarrow> 64 word \<times> publisher" where
  "next_seq p = (pb_seq p + 1, p\<lparr>pb_seq := pb_seq p + 1\<rparr>)"

definition record_publish_drop :: "instant \<Rightarrow> publisher \<Rightarrow> publisher" where
  "record_publish_drop now p =
     (let should_warn = (case pb_last_drop_warn p of
            None \<Rightarrow> True | Some t \<Rightarrow> now - t \<ge> PUBLISH_DROP_WARN_INTERVAL);
          p1 = p\<lparr>pb_drops_total := pb_drops_total p + 1\<rparr>
      in if should_warn then p1\<lparr>pb_last_drop_warn := Some now\<rparr> else p1)"

text \<open>The number of items in the queue is its capacity minus the permits left.\<close>

definition publish_queue_depth :: "publisher \<Rightarrow> nat" where
  "publish_queue_depth p = (case pb_queue p of Some q \<Rightarrow> length q | None \<Rightarrow> 0)"

definition pending_publishes :: "publisher \<Rightarrow> nat" where
  "pending_publishes p =
     (let staged = (case pb_block p of None \<Rightarrow> 0 | Some s \<Rightarrow> if bs_bytes s > 0 then 1 else 0)
      in publish_queue_depth p + staged + pb_publishing p)"

definition stage_bytes :: "instant \<Rightarrow> string \<Rightarrow> block_staging \<Rightarrow> publisher \<Rightarrow> publisher" where
  "stage_bytes now bytes staging p =
     (let len = length bytes; used = bs_bytes staging in
      if used + len \<le> bs_limit staging
      then if bs_open staging
           then p\<lparr>pb_block := Some (staging\<lparr>bs_bytes := used + len, bs_items := bs_items staging @ [bytes]\<rparr>)\<rparr>
           else p\<lparr>pb_block := Some (staging\<lparr>bs_bytes := used + len - len\<rparr>)\<rparr>
      else record_publish_drop now p)"

definition hand_over :: "instant \<Rightarrow> string \<Rightarrow> string list \<Rightarrow> publisher \<Rightarrow> publisher" where
  "hand_over now bytes q p =
     (case pb_overflow p of
        BestEffort \<Rightarrow>
          if pb_closed p then p
          else if length q < PUBLISH_QUEUE_CAPACITY then p\<lparr>pb_queue := Some (q @ [bytes])\<rparr>
          else record_publish_drop now p
      | Block \<Rightarrow>
          (case pb_block p of None \<Rightarrow> p | Some staging \<Rightarrow> stage_bytes now bytes staging p))"

definition spawn_publish :: "ext \<Rightarrow> instant \<Rightarrow> scaling_envelope \<Rightarrow> publisher \<Rightarrow> publisher" where
  "spawn_publish E now env p =
     (case pb_queue p of
        None \<Rightarrow> p
      | Some q \<Rightarrow>
          (let (seq, p1) = (if env_seq env = 0 then next_seq p else (env_seq env, p));
               bytes = x_env_print E (env\<lparr>env_seq := seq\<rparr>)
           in hand_over now bytes q p1))"

section \<open>The forwarder and the worker\<close>

text \<open>
  The forwarder receives an item, then waits for a slot of the bounded queue. When the queue's
  receiver is gone the task ends, which drops the items still staged.
\<close>

definition forwarder_recv :: "publisher \<Rightarrow> publisher" where
  "forwarder_recv p =
     (case pb_block p of
        Some s \<Rightarrow>
          (case (bs_in_hand s, bs_items s) of
             (None, item # rest) \<Rightarrow>
               if bs_open s
               then p\<lparr>pb_block := Some (s\<lparr>bs_items := rest, bs_in_hand := Some item\<rparr>)\<rparr> else p
           | _ \<Rightarrow> p)
      | None \<Rightarrow> p)"

definition forwarder_send :: "publisher \<Rightarrow> publisher" where
  "forwarder_send p =
     (case (pb_block p, pb_queue p) of
        (Some s, Some q) \<Rightarrow>
          (case bs_in_hand s of
             None \<Rightarrow> p
           | Some item \<Rightarrow>
               if pb_closed p
               then p\<lparr>pb_block := Some (s\<lparr>bs_in_hand := None, bs_bytes := bs_bytes s - length item,
                                           bs_open := False, bs_items := []\<rparr>)\<rparr>
               else if length q < PUBLISH_QUEUE_CAPACITY
               then p\<lparr>pb_queue := Some (q @ [item]),
                      pb_block := Some (s\<lparr>bs_in_hand := None, bs_bytes := bs_bytes s - length item\<rparr>)\<rparr>
               else p)
      | _ \<Rightarrow> p)"

text \<open>
  One round of \<open>run_publisher\<close>: \<open>recv_many\<close> takes up to 64 items, which are handed to the provider in
  order. The round ends when the provider answers or, for the worker the same, when five seconds
  have passed: the worker then goes on to the next batch without knowing how much of this one
  reached the bus. What the provider does with a batch is outside the model.
\<close>

definition worker_recv :: "publisher \<Rightarrow> string list \<times> publisher" where
  "worker_recv p =
     (case (pb_queue p, pb_batch p) of
        (Some (b # bs), []) \<Rightarrow>
          (let buf = take PUBLISH_BATCH (b # bs)
           in (buf, p\<lparr>pb_queue := Some (drop PUBLISH_BATCH (b # bs)), pb_batch := buf,
                      pb_publishing := length buf\<rparr>))
      | _ \<Rightarrow> ([], p))"

definition worker_done :: "publisher \<Rightarrow> publisher" where
  "worker_done p = p\<lparr>pb_batch := [], pb_publishing := 0\<rparr>"

section \<open>Interleavings\<close>

datatype pub_op =
    Publish instant scaling_envelope | ForwarderRecv | ForwarderSend | WorkerRecv | WorkerDone

text \<open>A step of one of the tasks; the first component is what it hands to the provider.\<close>

fun pub_do :: "ext \<Rightarrow> pub_op \<Rightarrow> publisher \<Rightarrow> string list \<times> publisher" where
  "pub_do E (Publish now env) p = ([], spawn_publish E now env p)"
| "pub_do E ForwarderRecv p = ([], forwarder_recv p)"
| "pub_do E ForwarderSend p = ([], forwarder_send p)"
| "pub_do E WorkerRecv p = worker_recv p"
| "pub_do E WorkerDone p = ([], worker_done p)"

fun pub_run :: "ext \<Rightarrow> pub_op list \<Rightarrow> publisher \<Rightarrow> string list \<times> publisher" where
  "pub_run E [] p = ([], p)"
| "pub_run E (op # ops) p =
     (let (out, p1) = pub_do E op p; (outs, p2) = pub_run E ops p1 in (out @ outs, p2))"

text \<open>The bytes between the callers and the provider, oldest first.\<close>

definition staged :: "block_staging option \<Rightarrow> string list" where
  "staged b = (case b of
     None \<Rightarrow> []
   | Some s \<Rightarrow> (case bs_in_hand s of Some item \<Rightarrow> [item] | None \<Rightarrow> []) @ bs_items s)"

definition pipeline :: "publisher \<Rightarrow> string list" where
  "pipeline p = (case pb_queue p of Some q \<Rightarrow> q | None \<Rightarrow> []) @ staged (pb_block p)"

text \<open>Whether there is room for some bytes, and the bytes an envelope is published as.\<close>

definition has_room :: "string \<Rightarrow> publisher \<Rightarrow> bool" where
  "has_room bytes p =
     (case pb_block p of
        Some s \<Rightarrow> bs_bytes s + length bytes \<le> bs_limit s
      | None \<Rightarrow> publish_queue_depth p < PUBLISH_QUEUE_CAPACITY)"

definition wire_bytes :: "ext \<Rightarrow> scaling_envelope \<Rightarrow> publisher \<Rightarrow> string" where
  "wire_bytes E env p =
     x_env_print E (env\<lparr>env_seq := if env_seq env = 0 then pb_seq p + 1 else env_seq env\<rparr>)"

text \<open>
  The specification: an envelope is accepted when there is room and dropped otherwise. The result
  lists the accepted bytes and the number of dropped envelopes of a run.
\<close>

fun pub_gain :: "ext \<Rightarrow> pub_op \<Rightarrow> publisher \<Rightarrow> string list \<times> nat" where
  "pub_gain E (Publish now env) p =
     (let b = wire_bytes E env p in if has_room b p then ([b], 0) else ([], 1))"
| "pub_gain E _ p = ([], 0)"

fun pub_spec :: "ext \<Rightarrow> pub_op list \<Rightarrow> publisher \<Rightarrow> string list \<times> nat" where
  "pub_spec E [] p = ([], 0)"
| "pub_spec E (op # ops) p =
     (let (new, k) = pub_gain E op p; (acc, n) = pub_spec E ops (snd (pub_do E op p))
      in (new @ acc, k + n))"

definition staging_wf :: "block_staging \<Rightarrow> bool" where
  "staging_wf s \<longleftrightarrow>
     bs_open s \<and> bs_bytes s = sum_list (map length (staged (Some s))) \<and> bs_bytes s \<le> bs_limit s \<and>
     bs_limit s = BLOCK_STAGING_MAX_BYTES"

definition pub_wf :: "publisher \<Rightarrow> bool" where
  "pub_wf p \<longleftrightarrow>
     \<not> pb_closed p \<and> pb_queue p \<noteq> None \<and> publish_queue_depth p \<le> PUBLISH_QUEUE_CAPACITY \<and>
     (pb_overflow p = Block \<longleftrightarrow> pb_block p \<noteq> None) \<and>
     (case pb_block p of Some s \<Rightarrow> staging_wf s | None \<Rightarrow> True) \<and>
     pb_publishing p = length (pb_batch p) \<and> length (pb_batch p) \<le> PUBLISH_BATCH"

lemma pub_wf_new: "pub_wf (publisher_new True ov)"
  by (cases ov) (simp_all add: pub_wf_def publisher_new_def publish_queue_depth_def staging_wf_def staged_def)

lemma overflow_not_block: "(ov \<noteq> Block) = (ov = BestEffort)"
  by (cases ov) simp_all

lemmas pipe_defs = pipeline_def staged_def publish_queue_depth_def

lemma drop_fields [simp]:
  "pb_queue (record_publish_drop now p) = pb_queue p"
  "pb_closed (record_publish_drop now p) = pb_closed p"
  "pb_overflow (record_publish_drop now p) = pb_overflow p"
  "pb_block (record_publish_drop now p) = pb_block p"
  "pb_batch (record_publish_drop now p) = pb_batch p"
  "pb_publishing (record_publish_drop now p) = pb_publishing p"
  "pb_drops_total (record_publish_drop now p) = pb_drops_total p + 1"
  by (simp_all add: record_publish_drop_def Let_def)

text \<open>What one call of \<open>spawn_publish\<close> does, in both modes.\<close>

lemma hand_over_spec:
  assumes wf: "pub_wf p" and q: "pb_queue p = Some q"
  shows "pub_wf (hand_over now bytes q p) \<and>
         pipeline (hand_over now bytes q p) = pipeline p @ (if has_room bytes p then [bytes] else []) \<and>
         pb_drops_total (hand_over now bytes q p) =
           pb_drops_total p + (if has_room bytes p then 0 else 1)"
proof (cases "pb_block p")
  case None
  with wf have ov: "pb_overflow p = BestEffort" by (simp add: pub_wf_def overflow_not_block)
  show ?thesis
  proof (cases "length q < PUBLISH_QUEUE_CAPACITY")
    case True
    with wf q ov have "hand_over now bytes q p = p\<lparr>pb_queue := Some (q @ [bytes])\<rparr>"
      by (simp add: hand_over_def pub_wf_def)
    with True None wf q show ?thesis by (simp add: pub_wf_def has_room_def pipe_defs)
  next
    case False
    with wf q ov have "hand_over now bytes q p = record_publish_drop now p"
      by (simp add: hand_over_def pub_wf_def)
    with False None wf q show ?thesis by (simp add: pub_wf_def has_room_def pipe_defs)
  qed
next
  case (Some s)
  with wf have ov: "pb_overflow p = Block" and s: "staging_wf s"
    by (auto simp: pub_wf_def)
  show ?thesis
  proof (cases "bs_bytes s + length bytes \<le> bs_limit s")
    case True
    with ov s Some have "hand_over now bytes q p =
        p\<lparr>pb_block := Some (s\<lparr>bs_bytes := bs_bytes s + length bytes, bs_items := bs_items s @ [bytes]\<rparr>)\<rparr>"
      by (simp add: hand_over_def stage_bytes_def staging_wf_def Let_def)
    with True s q Some wf ov show ?thesis
      by (simp add: pub_wf_def has_room_def staging_wf_def pipe_defs)
  next
    case False
    with ov Some have "hand_over now bytes q p = record_publish_drop now p"
      by (simp add: hand_over_def stage_bytes_def Let_def)
    with False q Some wf show ?thesis by (simp add: pub_wf_def has_room_def pipe_defs)
  qed
qed

lemma spawn_publish_spec:
  assumes "pub_wf p"
  shows "pub_wf (spawn_publish E now env p) \<and>
         pipeline (spawn_publish E now env p) =
           pipeline p @ (if has_room (wire_bytes E env p) p then [wire_bytes E env p] else []) \<and>
         pb_drops_total (spawn_publish E now env p) =
           pb_drops_total p + (if has_room (wire_bytes E env p) p then 0 else 1)"
proof -
  obtain q where q: "pb_queue p = Some q" using assms by (auto simp: pub_wf_def)
  let ?p = "if env_seq env = 0 then p\<lparr>pb_seq := pb_seq p + 1\<rparr> else p"
  have sp: "spawn_publish E now env p = hand_over now (wire_bytes E env p) q ?p"
    using q by (simp add: spawn_publish_def next_seq_def wire_bytes_def)
  have same: "pub_wf ?p" "pb_queue ?p = Some q" "pipeline ?p = pipeline p"
    "has_room (wire_bytes E env p) ?p = has_room (wire_bytes E env p) p"
    "pb_drops_total ?p = pb_drops_total p"
    using assms q by (simp_all add: pub_wf_def pipe_defs has_room_def split: option.split)
  from hand_over_spec [OF same(1,2), of now "wire_bytes E env p"] show ?thesis
    unfolding sp same(3-5) .
qed

text \<open>The tasks only move bytes along.\<close>

lemma forwarder_recv_spec:
  "pub_wf p \<Longrightarrow> pub_wf (forwarder_recv p) \<and> pipeline (forwarder_recv p) = pipeline p \<and>
     pb_drops_total (forwarder_recv p) = pb_drops_total p"
  by (auto simp: forwarder_recv_def pub_wf_def staging_wf_def pipe_defs split: option.splits list.splits)

lemma forwarder_send_spec:
  "pub_wf p \<Longrightarrow> pub_wf (forwarder_send p) \<and> pipeline (forwarder_send p) = pipeline p \<and>
     pb_drops_total (forwarder_send p) = pb_drops_total p"
  by (auto simp: forwarder_send_def pub_wf_def staging_wf_def pipe_defs split: option.splits)

lemma worker_recv_spec:
  "pub_wf p \<Longrightarrow> pub_wf (snd (worker_recv p)) \<and>
     fst (worker_recv p) @ pipeline (snd (worker_recv p)) = pipeline p \<and>
     pb_drops_total (snd (worker_recv p)) = pb_drops_total p"
  by (auto simp: worker_recv_def pub_wf_def pipe_defs Let_def PUBLISH_BATCH_def
      split: option.splits list.splits simp del: take_Suc_Cons drop_Suc_Cons)

lemma worker_done_spec:
  "pub_wf p \<Longrightarrow> pub_wf (worker_done p) \<and> pipeline (worker_done p) = pipeline p \<and>
     pb_drops_total (worker_done p) = pb_drops_total p"
  by (auto simp: worker_done_def pub_wf_def pipe_defs)

lemma pub_do_spec:
  assumes "pub_wf p"
  shows "pub_wf (snd (pub_do E op p)) \<and>
         fst (pub_do E op p) @ pipeline (snd (pub_do E op p)) = pipeline p @ fst (pub_gain E op p) \<and>
         pb_drops_total (snd (pub_do E op p)) = pb_drops_total p + of_nat (snd (pub_gain E op p))"
proof (cases op)
  case (Publish now env)
  with spawn_publish_spec [OF assms, of E now env] show ?thesis by (simp add: Let_def)
qed (use forwarder_recv_spec [OF assms] forwarder_send_spec [OF assms] worker_recv_spec [OF assms]
       worker_done_spec [OF assms] in simp_all)

lemma pub_run_refines:
  "pub_wf p \<Longrightarrow>
     pub_wf (snd (pub_run E ops p)) \<and>
     fst (pub_run E ops p) @ pipeline (snd (pub_run E ops p)) = pipeline p @ fst (pub_spec E ops p) \<and>
     pb_drops_total (snd (pub_run E ops p)) = pb_drops_total p + of_nat (snd (pub_spec E ops p))"
proof (induction ops arbitrary: p)
  case (Cons op ops)
  let ?p1 = "snd (pub_do E op p)"
  note one = pub_do_spec [OF Cons.prems, of E op]
  then have wf: "pub_wf ?p1" by blast
  note rest = Cons.IH [OF wf]
  have "(fst (pub_do E op p) @ fst (pub_run E ops ?p1)) @ pipeline (snd (pub_run E ops ?p1)) =
      pipeline p @ (fst (pub_gain E op p) @ fst (pub_spec E ops ?p1))"
    using one rest by (metis append_assoc)
  with one rest show ?case by (simp add: case_prod_beta Let_def add.assoc)
qed simp

lemma pub_do_overflow: "pb_overflow (snd (pub_do E op p)) = pb_overflow p"
  by (cases op)
     (simp_all add: spawn_publish_def hand_over_def stage_bytes_def next_seq_def forwarder_recv_def
        forwarder_send_def worker_recv_def worker_done_def Let_def case_prod_beta
        split: option.split list.split publish_overflow.split)

lemma pub_run_overflow: "pb_overflow (snd (pub_run E ops p)) = pb_overflow p"
  by (induction ops arbitrary: p) (simp_all add: case_prod_beta Let_def pub_do_overflow)

text \<open>
  C16: Over every interleaving of publishers, forwarder and worker, what the worker has handed to the
  provider followed by what is still in the pipeline is exactly the accepted envelopes in the order
  they were published: up to the provider nothing accepted is lost, repeated or reordered. (Beyond
  it nothing is claimed: a batch whose publication fails or times out may be lost in whole or in
  part.) The queue never exceeds its capacity, the
  staged bytes never exceed the budget and are accounted exactly, a batch has at most 64 items, and
  every envelope not accepted is counted as dropped.
\<close>

theorem publish_pipeline_fifo:
  "case (pub_run E ops (publisher_new True ov), pub_spec E ops (publisher_new True ov)) of
     ((handed, p), (accepted, dropped)) \<Rightarrow>
       handed @ pipeline p = accepted \<and> pb_drops_total p = of_nat dropped \<and>
       publish_queue_depth p \<le> PUBLISH_QUEUE_CAPACITY \<and> length (pb_batch p) \<le> PUBLISH_BATCH \<and>
       (case pb_block p of
          Some s \<Rightarrow> bs_bytes s = sum_list (map length (staged (Some s))) \<and>
                    bs_bytes s \<le> BLOCK_STAGING_MAX_BYTES
        | None \<Rightarrow> ov = BestEffort)"
proof -
  have empty: "pipeline (publisher_new True ov) = []" "pb_drops_total (publisher_new True ov) = 0"
    by (simp_all add: pipe_defs publisher_new_def)
  note run = pub_run_refines [OF pub_wf_new, of E ops ov, unfolded empty]
  then have wf: "pub_wf (snd (pub_run E ops (publisher_new True ov)))" by blast
  have ov: "pb_overflow (snd (pub_run E ops (publisher_new True ov))) = ov"
    unfolding pub_run_overflow by (simp add: publisher_new_def)
  from wf ov have "case pb_block (snd (pub_run E ops (publisher_new True ov))) of
      Some s \<Rightarrow> bs_bytes s = sum_list (map length (staged (Some s))) \<and>
                bs_bytes s \<le> BLOCK_STAGING_MAX_BYTES
    | None \<Rightarrow> ov = BestEffort"
    by (auto simp: pub_wf_def staging_wf_def overflow_not_block split: option.split)
  with wf run show ?thesis
    unfolding case_prod_beta fst_conv snd_conv by (simp add: pub_wf_def)
qed


section \<open>Progress\<close>

text \<open>One turn of every task, with no new envelope.\<close>

definition task_round :: "pub_op list" where
  "task_round = [WorkerDone, ForwarderRecv, ForwarderSend, WorkerRecv, WorkerDone]"

lemma forwarder_feeds_queue:
  assumes "pub_wf p" "pipeline p \<noteq> []"
  shows "\<exists>b bs. pb_queue (forwarder_send (forwarder_recv p)) = Some (b # bs)"
proof -
  obtain q where q: "pb_queue p = Some q" using assms(1) by (auto simp: pub_wf_def)
  have cap: "0 < PUBLISH_QUEUE_CAPACITY" by (simp add: PUBLISH_QUEUE_CAPACITY_def)
  show ?thesis
  proof (cases "pb_block p")
    case None
    with assms(2) q show ?thesis
      by (cases q) (simp_all add: forwarder_recv_def forwarder_send_def pipe_defs)
  next
    case (Some s)
    with assms q cap show ?thesis
      by (cases q; cases "bs_in_hand s"; cases "bs_items s")
         (simp_all add: forwarder_recv_def forwarder_send_def pipe_defs pub_wf_def staging_wf_def)
  qed
qed

lemma forwarder_batch:
  "pb_batch (forwarder_send (forwarder_recv p)) = pb_batch p"
  by (simp add: forwarder_recv_def forwarder_send_def split: option.split list.split)

lemma task_round_hands_over:
  assumes "pub_wf p" "pipeline p \<noteq> []"
  shows "fst (pub_run E task_round p) \<noteq> []"
proof -
  have wf: "pub_wf (worker_done p)" and ne: "pipeline (worker_done p) \<noteq> []"
    using worker_done_spec [OF assms(1)] assms(2) by simp_all
  obtain b bs where q: "pb_queue (forwarder_send (forwarder_recv (worker_done p))) = Some (b # bs)"
    using forwarder_feeds_queue [OF wf ne] by blast
  have batch: "pb_batch (forwarder_send (forwarder_recv (worker_done p))) = []"
    unfolding forwarder_batch by (simp add: worker_done_def)
  have "fst (worker_recv (forwarder_send (forwarder_recv (worker_done p)))) \<noteq> []"
    using q batch by (simp add: worker_recv_def Let_def PUBLISH_BATCH_def)
  then show ?thesis by (simp add: task_round_def case_prod_beta Let_def)
qed

lemma task_round_accepts_none: "pub_spec E task_round p = ([], 0)"
  by (simp add: task_round_def case_prod_beta Let_def)

lemma task_round_done: "pb_publishing (snd (pub_run E task_round p)) = 0"
  by (simp add: task_round_def case_prod_beta Let_def worker_done_def)

lemma pub_run_append:
  "pub_run E (xs @ ys) p =
     (fst (pub_run E xs p) @ fst (pub_run E ys (snd (pub_run E xs p))),
      snd (pub_run E ys (snd (pub_run E xs p))))"
  by (induction xs arbitrary: p) (simp_all add: case_prod_beta Let_def)

lemma task_rounds_drain:
  "pub_wf p \<Longrightarrow> length (pipeline p) < n \<Longrightarrow>
     fst (pub_run E (concat (replicate n task_round)) p) = pipeline p \<and>
     pub_wf (snd (pub_run E (concat (replicate n task_round)) p)) \<and>
     pipeline (snd (pub_run E (concat (replicate n task_round)) p)) = [] \<and>
     pb_publishing (snd (pub_run E (concat (replicate n task_round)) p)) = 0"
proof (induction n arbitrary: p)
  case (Suc n)
  let ?out = "fst (pub_run E task_round p)" and ?p1 = "snd (pub_run E task_round p)"
  have r: "pub_wf ?p1" "?out @ pipeline ?p1 = pipeline p"
    using pub_run_refines [OF Suc.prems(1), of E task_round] by (simp_all add: task_round_accepts_none)
  show ?case
  proof (cases "n = 0")
    case True
    with Suc.prems r task_round_done [of E p] show ?thesis by simp
  next
    case False
    have "length (pipeline ?p1) < n"
    proof (cases "pipeline p = []")
      case True
      with r(2) False show ?thesis by simp
    next
      case ne: False
      have "0 < length ?out" using task_round_hands_over [OF Suc.prems(1) ne] by simp
      moreover have "length ?out + length (pipeline ?p1) = length (pipeline p)"
        using arg_cong [OF r(2), of length] by simp
      ultimately show ?thesis using Suc.prems(2) by linarith
    qed
    from Suc.IH [OF r(1) this] r(2) show ?thesis by (simp add: pub_run_append)
  qed
qed simp

text \<open>
  C17: Whatever has happened before, once no new envelope comes in, enough turns of the tasks hand
  everything that was accepted to the provider and leave nothing pending.
\<close>

theorem publish_pipeline_drains:
  assumes "length (pipeline (snd (pub_run E ops (publisher_new True ov)))) < n"
  shows "case pub_run E (ops @ concat (replicate n task_round)) (publisher_new True ov) of
           (handed, p) \<Rightarrow> handed = fst (pub_spec E ops (publisher_new True ov)) \<and> pending_publishes p = 0"
proof -
  let ?p = "snd (pub_run E ops (publisher_new True ov))"
  have empty: "pipeline (publisher_new True ov) = []"
    by (simp add: pipe_defs publisher_new_def)
  note run = pub_run_refines [OF pub_wf_new, of E ops ov]
  then have wf: "pub_wf ?p" by blast
  let ?p' = "snd (pub_run E (concat (replicate n task_round)) ?p)"
  note drain = task_rounds_drain [OF wf assms, of E]
  then have wf': "pub_wf ?p'" and e: "pipeline ?p' = []" "pb_publishing ?p' = 0" by blast+
  have "pending_publishes ?p' = 0"
    using wf' e by (auto simp: pending_publishes_def pub_wf_def staging_wf_def pipe_defs Let_def
        split: option.splits)
  with run drain empty show ?thesis by (simp add: pub_run_append)
qed

text \<open>Two envelopes published in \<open>Block\<close> mode, the first of them already in the forwarder's hand.\<close>

definition sample_env :: scaling_envelope where
  "sample_env = \<lparr>env_version = SCALING_VERSION, env_seq = 0, env_app = \<lparr>ar_id = ''1'', ar_key = ''key''\<rparr>,
     env_payload = UserOnline ''n'' ''u''\<rparr>"

lemma sample_pipeline:
  "length (pipeline (snd (pub_run E [Publish 0 sample_env, ForwarderRecv, Publish 0 sample_env]
     (publisher_new True ov)))) < 3"
proof -
  let ?ops = "[Publish 0 sample_env, ForwarderRecv, Publish 0 sample_env]" and ?p = "publisher_new True ov"
  have "pipeline ?p = []" by (simp add: pipe_defs publisher_new_def)
  with pub_run_refines [OF pub_wf_new, of E ?ops ov]
  have "fst (pub_run E ?ops ?p) @ pipeline (snd (pub_run E ?ops ?p)) = fst (pub_spec E ?ops ?p)" by simp
  then have "length (pipeline (snd (pub_run E ?ops ?p))) \<le> length (fst (pub_spec E ?ops ?p))"
    by (metis le_add2 length_append)
  also have "\<dots> \<le> 2" by (simp add: Let_def case_prod_beta)
  finally show ?thesis by simp
qed

theorem publish_pipeline_drains_witness:
  "pending_publishes (snd (pub_run sample_ext ([Publish 0 sample_env, ForwarderRecv, Publish 0 sample_env] @
     concat (replicate 3 task_round)) (publisher_new True Block))) = 0"
  using publish_pipeline_drains [OF sample_pipeline, of sample_ext Block] by (simp only: case_prod_beta)

end
