(* ===== verification/Peer_Caches.thy ===== *)
theory Peer_Caches
  imports Wire_Types
begin

text \<open>
  What a node knows of its peers (\<open>zatat-scaling/src/presence_cache.rs\<close> and \<open>peer_state.rs\<close>): the
  presence rosters, the subscription counts and the signed-in users each peer has reported. Every
  report carries the instant it arrived; an entry older than \<^const>\<open>SNAPSHOT_TTL\<close> counts as absent
  and is reaped by the garbage collector of its cache. The three caches share that discipline,
  which the locale \<open>ttl_cache\<close> states once and three interpretations discharge.
\<close>

section \<open>Caches keyed by peer\<close>

type_synonym ('k, 'e) peer_cache = "('k, (string, 'e) dmap) dmap"

definition peer_entry :: "('k, 'e) peer_cache \<Rightarrow> 'k \<Rightarrow> string \<Rightarrow> 'e option" where
  "peer_entry c k node = Option.bind (dget c k) (\<lambda>inner. dget inner node)"

definition peers_at :: "('k, 'e) peer_cache \<Rightarrow> 'k \<Rightarrow> (string, 'e) dmap" where
  "peers_at c k = (case dget c k of Some inner \<Rightarrow> inner | None \<Rightarrow> [])"

definition put_peer :: "'k \<Rightarrow> string \<Rightarrow> 'e \<Rightarrow> ('k, 'e) peer_cache \<Rightarrow> ('k, 'e) peer_cache" where
  "put_peer k node e c = dput k (dput node e (peers_at c k)) c"

definition is_expired :: "instant \<Rightarrow> instant \<Rightarrow> bool" where
  "is_expired now inserted_at \<longleftrightarrow> now - inserted_at > SNAPSHOT_TTL"

text \<open>
  The loop the three \<open>gc_expired\<close> share: the expired nodes of each key are removed one by one and
  reported; \<open>prune\<close> says whether a key left without peers is removed too.
\<close>

fun reap_nodes ::
  "('k \<Rightarrow> string \<Rightarrow> 'e \<Rightarrow> 'o list) \<Rightarrow> 'k \<Rightarrow> string list \<Rightarrow> (string, 'e) dmap \<Rightarrow>
   'o list \<times> (string, 'e) dmap" where
  "reap_nodes report k [] inner = ([], inner)"
| "reap_nodes report k (node # nodes) inner =
     (case dget inner node of
        None \<Rightarrow> reap_nodes report k nodes inner
      | Some e \<Rightarrow>
          (case reap_nodes report k nodes (ddel node inner) of
             (out, inner') \<Rightarrow> (report k node e @ out, inner')))"

fun reap_keys ::
  "bool \<Rightarrow> ('e \<Rightarrow> instant) \<Rightarrow> ('k \<Rightarrow> string \<Rightarrow> 'e \<Rightarrow> 'o list) \<Rightarrow> instant \<Rightarrow> 'k list \<Rightarrow>
   ('k, 'e) peer_cache \<Rightarrow> 'o list \<times> ('k, 'e) peer_cache" where
  "reap_keys prune stamp report now [] c = ([], c)"
| "reap_keys prune stamp report now (k # ks) c =
     (case dget c k of
        None \<Rightarrow> reap_keys prune stamp report now ks c
      | Some inner \<Rightarrow>
          (let drop_nodes = map fst (filter (\<lambda>(_, e). is_expired now (stamp e)) inner);
               (out, inner') = reap_nodes report k drop_nodes inner;
               c1 = dput k inner' c;
               c2 = (if prune \<and> inner' = [] then dremove_if k (\<lambda>i. i = []) c1 else c1);
               (out', c3) = reap_keys prune stamp report now ks c2
           in (out @ out', c3)))"

section \<open>Presence rosters of peers\<close>

type_synonym app_channel_key = "string \<times> string"

record expired_member =
  em_app_id :: string
  em_channel :: string
  em_user_id :: string

record peer_snapshot =
  ps_inserted_at :: instant
  ps_members :: "(string, json option) dmap"

type_synonym presence_cache = "(app_channel_key, peer_snapshot) peer_cache"

definition peer_snapshot_new :: "instant \<Rightarrow> presence_snapshot_member list \<Rightarrow> peer_snapshot" where
  "peer_snapshot_new now members =
     \<lparr>ps_inserted_at = now,
      ps_members = fold (\<lambda>m acc. dput (psm_user_id m) (psm_user_info m) acc) members []\<rparr>"

definition insert_snapshot ::
  "instant \<Rightarrow> string \<Rightarrow> string \<Rightarrow> string \<Rightarrow> presence_snapshot_member list \<Rightarrow> presence_cache \<Rightarrow>
   presence_cache" where
  "insert_snapshot now aid channel node members c =
     put_peer (aid, channel) node (peer_snapshot_new now members) c"

definition pc_touch :: "instant \<Rightarrow> string \<Rightarrow> string \<Rightarrow> string \<Rightarrow> presence_cache \<Rightarrow> presence_cache" where
  "pc_touch now aid channel node c =
     (case peer_entry c (aid, channel) node of
        Some peer \<Rightarrow> put_peer (aid, channel) node (peer\<lparr>ps_inserted_at := now\<rparr>) c
      | None \<Rightarrow> c)"

definition add_live ::
  "instant \<Rightarrow> string \<Rightarrow> string \<Rightarrow> string \<Rightarrow> string \<Rightarrow> json option \<Rightarrow> presence_cache \<Rightarrow>
   bool \<times> presence_cache" where
  "add_live now aid channel node uid info c =
     (let peer = (case peer_entry c (aid, channel) node of
                    Some p \<Rightarrow> p | None \<Rightarrow> peer_snapshot_new now []);
          peer' = peer\<lparr>ps_inserted_at := now, ps_members := dput uid info (ps_members peer)\<rparr>
      in (dget (ps_members peer) uid = None, put_peer (aid, channel) node peer' c))"

definition remove_live ::
  "instant \<Rightarrow> string \<Rightarrow> string \<Rightarrow> string \<Rightarrow> string \<Rightarrow> presence_cache \<Rightarrow> bool \<times> presence_cache" where
  "remove_live now aid channel node uid c =
     (case peer_entry c (aid, channel) node of
        None \<Rightarrow> (False, c)
      | Some peer \<Rightarrow>
          (let peer' = peer\<lparr>ps_inserted_at := now, ps_members := ddel uid (ps_members peer)\<rparr>
           in (dget (ps_members peer) uid \<noteq> None, put_peer (aid, channel) node peer' c)))"

definition pc_is_present_excluding ::
  "instant \<Rightarrow> string \<Rightarrow> string \<Rightarrow> string \<Rightarrow> string option \<Rightarrow> presence_cache \<Rightarrow> bool" where
  "pc_is_present_excluding now aid channel uid except_node c =
     list_ex (\<lambda>(node, peer). except_node \<noteq> Some node \<and> \<not> is_expired now (ps_inserted_at peer) \<and>
                dhas (ps_members peer) uid)
       (peers_at c (aid, channel))"

definition announced_user_ids :: "string \<Rightarrow> string \<Rightarrow> presence_cache \<Rightarrow> string list" where
  "announced_user_ids aid channel c =
     fold hs_insert (concat (map (\<lambda>(_, peer). dkeys (ps_members peer)) (peers_at c (aid, channel)))) []"

text \<open>The first live peer that lists a user decides the information returned for it.\<close>

fun collect_remote ::
  "string list \<Rightarrow> (string \<times> json option) list \<Rightarrow> presence_snapshot_member list" where
  "collect_remote seen [] = []"
| "collect_remote seen ((uid, info) # rest) =
     (if uid \<in> set seen then collect_remote seen rest
      else \<lparr>psm_user_id = uid, psm_user_info = info\<rparr> # collect_remote (uid # seen) rest)"

definition remote_members_for ::
  "instant \<Rightarrow> string \<Rightarrow> string \<Rightarrow> presence_cache \<Rightarrow> presence_snapshot_member list" where
  "remote_members_for now aid channel c =
     collect_remote []
       (concat (map (\<lambda>(_, peer). ps_members peer)
         (filter (\<lambda>(_, peer). \<not> is_expired now (ps_inserted_at peer)) (peers_at c (aid, channel)))))"

definition report_members :: "app_channel_key \<Rightarrow> string \<Rightarrow> peer_snapshot \<Rightarrow> expired_member list" where
  "report_members key node snap =
     map (\<lambda>uid. \<lparr>em_app_id = fst key, em_channel = snd key, em_user_id = uid\<rparr>) (dkeys (ps_members snap))"

definition pc_gc_expired :: "instant \<Rightarrow> presence_cache \<Rightarrow> expired_member list \<times> presence_cache" where
  "pc_gc_expired now c = reap_keys True ps_inserted_at report_members now (dkeys c) c"

section \<open>Subscription counts of peers\<close>

record count_entry =
  ce_count :: nat
  ce_inserted_at :: instant

type_synonym peer_channel_counts = "(app_channel_key, count_entry) peer_cache"

definition pcc_set ::
  "instant \<Rightarrow> string \<Rightarrow> string \<Rightarrow> string \<Rightarrow> nat \<Rightarrow> peer_channel_counts \<Rightarrow> nat \<times> peer_channel_counts" where
  "pcc_set now aid channel node n c =
     (case peer_entry c (aid, channel) node of Some e \<Rightarrow> ce_count e | None \<Rightarrow> 0,
      put_peer (aid, channel) node \<lparr>ce_count = n, ce_inserted_at = now\<rparr> c)"

definition pcc_sum :: "instant \<Rightarrow> string \<Rightarrow> string \<Rightarrow> peer_channel_counts \<Rightarrow> nat" where
  "pcc_sum now aid channel c =
     sum_list (map (\<lambda>(_, e). ce_count e)
       (filter (\<lambda>(_, e). \<not> is_expired now (ce_inserted_at e)) (peers_at c (aid, channel))))"

definition report_count ::
  "app_channel_key \<Rightarrow> string \<Rightarrow> count_entry \<Rightarrow> (string \<times> string \<times> string \<times> nat) list" where
  "report_count key node e = [(fst key, snd key, node, ce_count e)]"

definition pcc_gc_expired ::
  "instant \<Rightarrow> peer_channel_counts \<Rightarrow> (string \<times> string \<times> string \<times> nat) list \<times> peer_channel_counts" where
  "pcc_gc_expired now c = reap_keys True ce_inserted_at report_count now (dkeys c) c"

definition pcc_touch ::
  "instant \<Rightarrow> string \<Rightarrow> string \<Rightarrow> string \<Rightarrow> peer_channel_counts \<Rightarrow> peer_channel_counts" where
  "pcc_touch now aid channel node c =
     (case peer_entry c (aid, channel) node of
        Some e \<Rightarrow> put_peer (aid, channel) node (e\<lparr>ce_inserted_at := now\<rparr>) c
      | None \<Rightarrow> c)"

text \<open>
  \<open>may_drop\<close> is consulted, with the state it owns, only for entries that the other tests select.
\<close>

fun retain_keys ::
  "string \<Rightarrow> string \<Rightarrow> string list \<Rightarrow> (string \<Rightarrow> 's \<Rightarrow> bool \<times> 's) \<Rightarrow> peer_channel_counts \<Rightarrow> 's \<Rightarrow>
   string list \<times> peer_channel_counts \<times> 's" where
  "retain_keys aid node present may_drop [] s = ([], [], s)"
| "retain_keys aid node present may_drop (((a, channel), inner) # rest) s =
     (if a = aid \<and> channel \<notin> set present \<and> dhas inner node
      then (let (ok, s1) = may_drop channel s in
            (case retain_keys aid node present may_drop rest s1 of
               (dropped, c, s2) \<Rightarrow>
                 if ok then (channel # dropped, ((a, channel), ddel node inner) # c, s2)
                 else (dropped, ((a, channel), inner) # c, s2)))
      else (case retain_keys aid node present may_drop rest s of
              (dropped, c, s2) \<Rightarrow> (dropped, ((a, channel), inner) # c, s2)))"

definition retain_node_channels ::
  "string \<Rightarrow> string \<Rightarrow> string list \<Rightarrow> (string \<Rightarrow> 's \<Rightarrow> bool \<times> 's) \<Rightarrow> peer_channel_counts \<Rightarrow> 's \<Rightarrow>
   string list \<times> peer_channel_counts \<times> 's" where
  "retain_node_channels aid node present may_drop c s = retain_keys aid node present may_drop c s"

definition pcc_remove ::
  "string \<Rightarrow> string \<Rightarrow> string \<Rightarrow> peer_channel_counts \<Rightarrow> nat \<times> peer_channel_counts" where
  "pcc_remove aid channel node c =
     (case dget c (aid, channel) of
        None \<Rightarrow> (0, c)
      | Some inner \<Rightarrow>
          (case dget inner node of Some e \<Rightarrow> ce_count e | None \<Rightarrow> 0,
           dput (aid, channel) (ddel node inner) c))"

section \<open>Signed-in users of peers\<close>

record user_session_entry =
  us_users :: "string list"
  us_inserted_at :: instant

type_synonym peer_user_sessions = "(string, user_session_entry) peer_cache"

definition pus_add ::
  "instant \<Rightarrow> string \<Rightarrow> string \<Rightarrow> string \<Rightarrow> peer_user_sessions \<Rightarrow> bool \<times> peer_user_sessions" where
  "pus_add now aid node uid c =
     (let peer = (case peer_entry c aid node of
                    Some p \<Rightarrow> p | None \<Rightarrow> \<lparr>us_users = [], us_inserted_at = now\<rparr>)
      in (uid \<notin> set (us_users peer),
          put_peer aid node (peer\<lparr>us_inserted_at := now, us_users := hs_insert uid (us_users peer)\<rparr>) c))"

definition pus_remove ::
  "instant \<Rightarrow> string \<Rightarrow> string \<Rightarrow> string \<Rightarrow> peer_user_sessions \<Rightarrow> bool \<times> peer_user_sessions" where
  "pus_remove now aid node uid c =
     (case peer_entry c aid node of
        None \<Rightarrow> (False, c)
      | Some peer \<Rightarrow>
          (uid \<in> set (us_users peer),
           put_peer aid node (peer\<lparr>us_inserted_at := now, us_users := hs_remove uid (us_users peer)\<rparr>) c))"

definition users_of :: "string \<Rightarrow> string \<Rightarrow> peer_user_sessions \<Rightarrow> string list" where
  "users_of aid node c = (case peer_entry c aid node of Some e \<Rightarrow> us_users e | None \<Rightarrow> [])"

definition pus_touch :: "instant \<Rightarrow> string \<Rightarrow> string \<Rightarrow> peer_user_sessions \<Rightarrow> peer_user_sessions" where
  "pus_touch now aid node c =
     (let peer = (case peer_entry c aid node of
                    Some p \<Rightarrow> p | None \<Rightarrow> \<lparr>us_users = [], us_inserted_at = now\<rparr>)
      in put_peer aid node (peer\<lparr>us_inserted_at := now\<rparr>) c)"

definition replace_snapshot ::
  "instant \<Rightarrow> string \<Rightarrow> string \<Rightarrow> string list \<Rightarrow> peer_user_sessions \<Rightarrow> peer_user_sessions" where
  "replace_snapshot now aid node users c =
     put_peer aid node \<lparr>us_users = fold hs_insert users [], us_inserted_at = now\<rparr> c"

definition pus_is_present_excluding ::
  "instant \<Rightarrow> string \<Rightarrow> string \<Rightarrow> string option \<Rightarrow> peer_user_sessions \<Rightarrow> bool" where
  "pus_is_present_excluding now aid uid except_node c =
     list_ex (\<lambda>(node, peer). except_node \<noteq> Some node \<and> \<not> is_expired now (us_inserted_at peer) \<and>
                uid \<in> set (us_users peer))
       (peers_at c aid)"

definition report_users :: "string \<Rightarrow> string \<Rightarrow> user_session_entry \<Rightarrow> (string \<times> string \<times> string) list" where
  "report_users aid node e = map (\<lambda>uid. (aid, node, uid)) (us_users e)"

definition pus_gc_expired ::
  "instant \<Rightarrow> peer_user_sessions \<Rightarrow> (string \<times> string \<times> string) list \<times> peer_user_sessions" where
  "pus_gc_expired now c = reap_keys False us_inserted_at report_users now (dkeys c) c"

section \<open>Well-formed caches\<close>

definition cache_wf :: "('k, 'e) peer_cache \<Rightarrow> bool" where
  "cache_wf c \<longleftrightarrow> dwf c \<and> dall (\<lambda>_. dwf) c"

lemma cache_wf_Nil [simp, intro]: "cache_wf []"
  by (simp add: cache_wf_def)

lemma cache_wf_at [intro]: "cache_wf c \<Longrightarrow> dwf (peers_at c k)"
  by (auto simp: cache_wf_def peers_at_def split: option.split dest: dall_get)

lemma peer_entry_at: "peer_entry c k node = dget (peers_at c k) node"
  by (simp add: peer_entry_def peers_at_def split: option.split)

lemma peers_at_put: "peers_at (dput k inner c) k' = (if k' = k then inner else peers_at c k')"
  by (simp add: peers_at_def)

lemma peer_entry_put [simp]:
  "peer_entry (put_peer k node e c) k' node' =
     (if k' = k \<and> node' = node then Some e else peer_entry c k' node')"
  by (simp add: peer_entry_at put_peer_def peers_at_put)

lemma cache_wf_dput [intro]: "cache_wf c \<Longrightarrow> dwf inner \<Longrightarrow> cache_wf (dput k inner c)"
  by (simp add: cache_wf_def zwf)

lemma cache_wf_put [intro]: "cache_wf c \<Longrightarrow> cache_wf (put_peer k node e c)"
  by (simp add: put_peer_def cache_wf_dput cache_wf_at dwf_dput)

lemma peer_in_iff: "cache_wf c \<Longrightarrow> (node, e) \<in> set (peers_at c k) \<longleftrightarrow> peer_entry c k node = Some e"
  by (simp add: peer_entry_at dwf_in_iff cache_wf_at)

section \<open>Reaping\<close>

lemma reap_nodes_spec:
  "dwf inner \<Longrightarrow> distinct nodes \<Longrightarrow> reap_nodes report k nodes inner = (out, inner') \<Longrightarrow>
     dwf inner' \<and>
     (\<forall>n. dget inner' n = (if n \<in> set nodes then None else dget inner n)) \<and>
     set out = {x. \<exists>n e. n \<in> set nodes \<and> dget inner n = Some e \<and> x \<in> set (report k n e)}"
proof (induction nodes arbitrary: inner out)
  case (Cons node nodes)
  show ?case
  proof (cases "dget inner node")
    case None
    with Cons.prems have "reap_nodes report k nodes inner = (out, inner')" by simp
    from Cons.IH [OF Cons.prems(1) _ this] Cons.prems(2) None show ?thesis by fastforce
  next
    case (Some e)
    with Cons.prems obtain out' where r: "reap_nodes report k nodes (ddel node inner) = (out', inner')"
      and out: "out = report k node e @ out'"
      by (auto split: prod.splits)
    from Cons.IH [OF dwf_ddel [OF Cons.prems(1)] _ r] Cons.prems(2)
    have "dwf inner'" "\<And>n. dget inner' n = (if n \<in> set nodes then None else dget (ddel node inner) n)"
      "set out' = {x. \<exists>n e. n \<in> set nodes \<and> dget (ddel node inner) n = Some e \<and> x \<in> set (report k n e)}"
      by auto
    moreover have "set (report k node e) \<union>
        {x. \<exists>n e. n \<in> set nodes \<and> dget (ddel node inner) n = Some e \<and> x \<in> set (report k n e)} =
        {x. \<exists>n e. n \<in> set (node # nodes) \<and> dget inner n = Some e \<and> x \<in> set (report k n e)}"
      using Some Cons.prems(2) by (auto split: if_splits)
    ultimately show ?thesis using out by auto
  qed
qed auto

definition expired_nodes :: "('e \<Rightarrow> instant) \<Rightarrow> instant \<Rightarrow> (string, 'e) dmap \<Rightarrow> string list" where
  "expired_nodes stamp now inner = map fst (filter (\<lambda>(_, e). is_expired now (stamp e)) inner)"

lemma expired_nodes_iff:
  "dwf inner \<Longrightarrow> n \<in> set (expired_nodes stamp now inner) \<longleftrightarrow>
     (\<exists>e. dget inner n = Some e \<and> is_expired now (stamp e))"
proof -
  have "n \<in> set (expired_nodes stamp now inner) \<longleftrightarrow> (\<exists>e. (n, e) \<in> set inner \<and> is_expired now (stamp e))"
    by (force simp: expired_nodes_def)
  then show "dwf inner \<Longrightarrow> ?thesis" by (simp add: dwf_in_iff)
qed

lemma expired_nodes_distinct: "dwf inner \<Longrightarrow> distinct (expired_nodes stamp now inner)"
  unfolding expired_nodes_def dwf_def by (rule distinct_map_filter)

lemma peers_at_prune:
  "peers_at (if b \<and> inner = [] then dremove_if k (\<lambda>i. i = []) (dput k inner c) else dput k inner c) k' =
     (if k' = k then inner else peers_at c k')"
  by (simp add: peers_at_def)

lemma cache_wf_prune:
  "cache_wf c \<Longrightarrow> dwf inner \<Longrightarrow>
     cache_wf (if b \<and> inner = [] then dremove_if k (\<lambda>i. i = []) (dput k inner c) else dput k inner c)"
  by (simp add: cache_wf_def zwf)

text \<open>One key's share of the loop.\<close>

lemma reap_inner_spec:
  assumes "dwf inner" "reap_nodes report k (expired_nodes stamp now inner) inner = (out, inner')"
  shows "dwf inner'"
    and "dget inner' n = (case dget inner n of
           Some e \<Rightarrow> if is_expired now (stamp e) then None else Some e | None \<Rightarrow> None)"
    and "set out = {x. \<exists>n e. dget inner n = Some e \<and> is_expired now (stamp e) \<and> x \<in> set (report k n e)}"
proof -
  note spec = reap_nodes_spec [OF assms(1) expired_nodes_distinct [OF assms(1)] assms(2)]
  note mem = expired_nodes_iff [OF assms(1), of _ stamp now]
  show "dwf inner'" using spec by blast
  show "dget inner' n = (case dget inner n of
      Some e \<Rightarrow> if is_expired now (stamp e) then None else Some e | None \<Rightarrow> None)"
    using spec mem [of n] by (simp split: option.split)
  show "set out = {x. \<exists>n e. dget inner n = Some e \<and> is_expired now (stamp e) \<and> x \<in> set (report k n e)}"
  proof -
    have "set out = {x. \<exists>n e. n \<in> set (expired_nodes stamp now inner) \<and> dget inner n = Some e \<and>
        x \<in> set (report k n e)}" using spec by blast
    then show ?thesis unfolding mem by force
  qed
qed

lemma reap_keys_spec:
  "cache_wf c \<Longrightarrow> distinct ks \<Longrightarrow> reap_keys prune stamp report now ks c = (out, c') \<Longrightarrow>
     cache_wf c' \<and>
     (\<forall>k n. peer_entry c' k n = (case peer_entry c k n of
        Some e \<Rightarrow> if k \<in> set ks \<and> is_expired now (stamp e) then None else Some e | None \<Rightarrow> None)) \<and>
     set out = {x. \<exists>k n e. k \<in> set ks \<and> peer_entry c k n = Some e \<and> is_expired now (stamp e) \<and>
                  x \<in> set (report k n e)}"
proof (induction ks arbitrary: c out)
  case Nil
  then show ?case by (auto split: option.split)
next
  case (Cons k ks)
  show ?case
  proof (cases "dget c k")
    case None
    with Cons.prems have r: "reap_keys prune stamp report now ks c = (out, c')" by simp
    have none: "peer_entry c k n = None" for n using None by (simp add: peer_entry_def)
    have "distinct ks" using Cons.prems(2) by simp
    note ih = Cons.IH [OF Cons.prems(1) this r]
    have get: "peer_entry c' k' n = (case peer_entry c k' n of
        Some e \<Rightarrow> if k' \<in> set (k # ks) \<and> is_expired now (stamp e) then None else Some e
      | None \<Rightarrow> None)" for k' n
      using ih by (cases "k' = k") (simp_all add: none split: option.split)
    have "set out = {x. \<exists>k n e. k \<in> set ks \<and> peer_entry c k n = Some e \<and> is_expired now (stamp e) \<and>
        x \<in> set (report k n e)}" using ih by blast
    also have "\<dots> = {x. \<exists>k' n e. k' \<in> set (k # ks) \<and> peer_entry c k' n = Some e \<and>
        is_expired now (stamp e) \<and> x \<in> set (report k' n e)}"
      by (auto simp: none)
    finally show ?thesis using ih get by blast
  next
    case (Some inner)
    obtain out1 inner' where n: "reap_nodes report k (expired_nodes stamp now inner) inner = (out1, inner')"
      by (cases "reap_nodes report k (expired_nodes stamp now inner) inner")
    let ?c = "if prune \<and> inner' = [] then dremove_if k (\<lambda>i. i = []) (dput k inner' c) else dput k inner' c"
    obtain out2 where r: "reap_keys prune stamp report now ks ?c = (out2, c')" and out: "out = out1 @ out2"
      using Cons.prems(3) Some n [unfolded expired_nodes_def]
      by (auto simp: Let_def split: prod.splits)
    have at: "peers_at c k = inner" using Some by (simp add: peers_at_def)
    have wf: "dwf inner" using Cons.prems(1) at by (metis cache_wf_at)
    note inner = reap_inner_spec [OF wf n]
    have entry: "peer_entry ?c k' m = (if k' = k then dget inner' m else peer_entry c k' m)" for k' m
      by (simp add: peer_entry_at peers_at_prune)
    have here: "peer_entry c k m = dget inner m" for m by (simp add: peer_entry_at at)
    have wf': "cache_wf ?c" using Cons.prems(1) inner(1) by (rule cache_wf_prune)
    have "distinct ks" "k \<notin> set ks" using Cons.prems(2) by simp_all
    note ih = Cons.IH [OF wf' \<open>distinct ks\<close> r]
    have "peer_entry c' k' m = (case peer_entry c k' m of
        Some e \<Rightarrow> if k' \<in> set (k # ks) \<and> is_expired now (stamp e) then None else Some e
      | None \<Rightarrow> None)" for k' m
      using ih \<open>k \<notin> set ks\<close> by (cases "k' = k") (auto simp: entry here inner(2) split: option.split)
    moreover have "set out = {x. \<exists>k' m e. k' \<in> set (k # ks) \<and> peer_entry c k' m = Some e \<and>
        is_expired now (stamp e) \<and> x \<in> set (report k' m e)}"
    proof -
      have "set out2 = {x. \<exists>k' m e. k' \<in> set ks \<and> peer_entry c k' m = Some e \<and>
          is_expired now (stamp e) \<and> x \<in> set (report k' m e)}"
        using ih \<open>k \<notin> set ks\<close> by (simp add: entry cong: conj_cong) (metis (lifting))
      then show ?thesis unfolding out set_append inner(3) here [symmetric] by auto
    qed
    ultimately show ?thesis using ih by blast
  qed
qed

text \<open>The discipline of a cache whose entries expire.\<close>

locale ttl_cache =
  fixes entry :: "'c \<Rightarrow> 'k \<Rightarrow> string \<Rightarrow> 'e option"
    and stamp :: "'e \<Rightarrow> instant"
    and gc :: "instant \<Rightarrow> 'c \<Rightarrow> 'o list \<times> 'c"
    and report :: "'k \<Rightarrow> string \<Rightarrow> 'e \<Rightarrow> 'o list"
    and ok :: "'c \<Rightarrow> bool"
  assumes gc_ok: "ok c \<Longrightarrow> ok (snd (gc now c))"
    and gc_entry: "ok c \<Longrightarrow> entry (snd (gc now c)) k n =
          (case entry c k n of Some e \<Rightarrow> if is_expired now (stamp e) then None else Some e | None \<Rightarrow> None)"
    and gc_report: "ok c \<Longrightarrow> set (fst (gc now c)) =
          {x. \<exists>k n e. entry c k n = Some e \<and> is_expired now (stamp e) \<and> x \<in> set (report k n e)}"
begin

lemma live_survives:
  "ok c \<Longrightarrow> entry c k n = Some e \<Longrightarrow> now \<le> stamp e + SNAPSHOT_TTL \<Longrightarrow>
     entry (snd (gc now c)) k n = Some e"
  by (simp add: gc_entry is_expired_def)

lemma stale_reaped:
  "ok c \<Longrightarrow> entry c k n = Some e \<Longrightarrow> stamp e + SNAPSHOT_TTL < now \<Longrightarrow>
     entry (snd (gc now c)) k n = None \<and> set (report k n e) \<subseteq> set (fst (gc now c))"
  unfolding gc_entry gc_report by (auto simp: is_expired_def)

lemma no_ghosts: "ok c \<Longrightarrow> entry (snd (gc now c)) k n = Some e \<Longrightarrow> \<not> is_expired now (stamp e)"
  by (auto simp: gc_entry split: option.splits if_splits)

lemma second_gc_silent: "ok c \<Longrightarrow> fst (gc now (snd (gc now c))) = []"
proof -
  assume ok: "ok c"
  have "set (fst (gc now (snd (gc now c)))) = {}"
    unfolding gc_report [OF gc_ok [OF ok]] using no_ghosts [OF ok] by blast
  then show ?thesis by simp
qed

lemma reported_iff:
  "ok c \<Longrightarrow> x \<in> set (fst (gc now c)) \<longleftrightarrow>
     (\<exists>k n e. entry c k n = Some e \<and> entry (snd (gc now c)) k n = None \<and> x \<in> set (report k n e))"
  unfolding gc_report gc_entry by (force split: option.splits if_splits)

end

lemma reap_all:
  assumes "cache_wf c"
  shows "cache_wf (snd (reap_keys prune stamp report now (dkeys c) c))"
    and "peer_entry (snd (reap_keys prune stamp report now (dkeys c) c)) k n =
           (case peer_entry c k n of
              Some e \<Rightarrow> if is_expired now (stamp e) then None else Some e | None \<Rightarrow> None)"
    and "set (fst (reap_keys prune stamp report now (dkeys c) c)) =
           {x. \<exists>k n e. peer_entry c k n = Some e \<and> is_expired now (stamp e) \<and> x \<in> set (report k n e)}"
proof -
  obtain out c' where r: "reap_keys prune stamp report now (dkeys c) c = (out, c')"
    by (cases "reap_keys prune stamp report now (dkeys c) c")
  have d: "distinct (dkeys c)" using assms by (simp add: cache_wf_def dwf_def)
  have key: "k \<in> set (dkeys c)" if "peer_entry c k n = Some e" for k n e
    using that by (auto simp: peer_entry_def bind_eq_Some_conv dhas_iff [symmetric] dhas_def simp del: set_map)
  note spec = reap_keys_spec [OF assms d r]
  show "cache_wf (snd (reap_keys prune stamp report now (dkeys c) c))" using spec by (simp add: r)
  show "peer_entry (snd (reap_keys prune stamp report now (dkeys c) c)) k n =
      (case peer_entry c k n of
         Some e \<Rightarrow> if is_expired now (stamp e) then None else Some e | None \<Rightarrow> None)"
    using spec key by (auto simp: r split: option.split)
  show "set (fst (reap_keys prune stamp report now (dkeys c) c)) =
      {x. \<exists>k n e. peer_entry c k n = Some e \<and> is_expired now (stamp e) \<and> x \<in> set (report k n e)}"
    using spec key by (simp add: r) blast
qed

interpretation rosters: ttl_cache peer_entry ps_inserted_at pc_gc_expired report_members cache_wf
  by unfold_locales (simp_all only: pc_gc_expired_def reap_all)

interpretation counts: ttl_cache peer_entry ce_inserted_at pcc_gc_expired report_count cache_wf
  by unfold_locales (simp_all only: pcc_gc_expired_def reap_all)

interpretation usessions: ttl_cache peer_entry us_inserted_at pus_gc_expired report_users cache_wf
  by unfold_locales (simp_all only: pus_gc_expired_def reap_all)

section \<open>Queries\<close>

lemma pc_is_present_iff:
  "cache_wf c \<Longrightarrow> pc_is_present_excluding now aid channel uid except c \<longleftrightarrow>
     (\<exists>node peer. except \<noteq> Some node \<and> peer_entry c (aid, channel) node = Some peer \<and>
        \<not> is_expired now (ps_inserted_at peer) \<and> dhas (ps_members peer) uid)"
  by (simp add: pc_is_present_excluding_def list_ex_iff flip: peer_in_iff) auto

lemma pus_is_present_iff:
  "cache_wf c \<Longrightarrow> pus_is_present_excluding now aid uid except c \<longleftrightarrow>
     (\<exists>node peer. except \<noteq> Some node \<and> peer_entry c aid node = Some peer \<and>
        \<not> is_expired now (us_inserted_at peer) \<and> uid \<in> set (us_users peer))"
  by (simp add: pus_is_present_excluding_def list_ex_iff flip: peer_in_iff) auto

lemma collect_remote_spec:
  "distinct (map psm_user_id (collect_remote seen xs)) \<and>
   psm_user_id ` set (collect_remote seen xs) = fst ` set xs - set seen \<and>
   (\<forall>m\<in>set (collect_remote seen xs). (psm_user_id m, psm_user_info m) \<in> set xs)"
proof (induction seen xs rule: collect_remote.induct)
  case (2 seen uid info rest)
  then show ?case by (cases "uid \<in> set seen") auto
qed simp

text \<open>
  The remote roster of a channel lists every user that some live peer reports, once, under
  information one of those peers sent, and nobody that only expired peers report.
\<close>

theorem remote_members_spec:
  assumes "cache_wf c"
  shows "distinct (map psm_user_id (remote_members_for now aid channel c)) \<and>
         (uid \<in> psm_user_id ` set (remote_members_for now aid channel c) \<longleftrightarrow>
            pc_is_present_excluding now aid channel uid None c) \<and>
         (m \<in> set (remote_members_for now aid channel c) \<longrightarrow>
            (\<exists>node peer. peer_entry c (aid, channel) node = Some peer \<and>
               \<not> is_expired now (ps_inserted_at peer) \<and>
               (psm_user_id m, psm_user_info m) \<in> set (ps_members peer)))"
proof -
  define xs where "xs = concat (map (\<lambda>(_, peer). ps_members peer)
    (filter (\<lambda>(_, peer). \<not> is_expired now (ps_inserted_at peer)) (peers_at c (aid, channel))))"
  have mem: "p \<in> set xs \<longleftrightarrow> (\<exists>node peer. peer_entry c (aid, channel) node = Some peer \<and>
      \<not> is_expired now (ps_inserted_at peer) \<and> p \<in> set (ps_members peer))" for p
    unfolding xs_def using peer_in_iff [OF assms, of _ _ "(aid, channel)"] by auto
  have "uid \<in> fst ` set xs \<longleftrightarrow> pc_is_present_excluding now aid channel uid None c"
    unfolding pc_is_present_iff [OF assms] dhas_iff using mem by (simp add: image_iff) blast
  then show ?thesis
    using collect_remote_spec [of "[]" xs] mem
    unfolding remote_members_for_def xs_def [symmetric] by auto
qed

text \<open>Live updates, as the queries see them.\<close>

lemma cache_wf_updates [intro]:
  "cache_wf pc \<Longrightarrow> cache_wf (insert_snapshot now aid channel node members pc)"
  "cache_wf pc \<Longrightarrow> cache_wf (pc_touch now aid channel node pc)"
  "cache_wf pc \<Longrightarrow> cache_wf (snd (add_live now aid channel node uid info pc))"
  "cache_wf pc \<Longrightarrow> cache_wf (snd (remove_live now aid channel node uid pc))"
  "cache_wf cc \<Longrightarrow> cache_wf (snd (pcc_set now aid channel node n cc))"
  "cache_wf cc \<Longrightarrow> cache_wf (pcc_touch now aid channel node cc)"
  "cache_wf us \<Longrightarrow> cache_wf (snd (pus_add now aid node uid us))"
  "cache_wf us \<Longrightarrow> cache_wf (snd (pus_remove now aid node uid us))"
  "cache_wf us \<Longrightarrow> cache_wf (pus_touch now aid node us)"
  "cache_wf us \<Longrightarrow> cache_wf (replace_snapshot now aid node users us)"
  by (auto simp: insert_snapshot_def pc_touch_def add_live_def remove_live_def pcc_set_def
        pcc_touch_def pus_add_def pus_remove_def pus_touch_def replace_snapshot_def Let_def
        split: option.split)

lemma cache_wf_pcc_remove [intro]: "cache_wf c \<Longrightarrow> cache_wf (snd (pcc_remove aid channel node c))"
  by (auto simp: pcc_remove_def cache_wf_def zwf split: option.split dest: dall_get)

lemma peer_entry_pcc_remove:
  "peer_entry (snd (pcc_remove aid channel node c)) k n =
     (if k = (aid, channel) \<and> n = node then None else peer_entry c k n)"
  by (simp add: pcc_remove_def peer_entry_def split: option.split)

lemma sum_filter_dput:
  "dwf m \<Longrightarrow> P e \<Longrightarrow> sum_list (map (\<lambda>(_, e). f e) (filter (\<lambda>(_, e). P e) (dput k e m))) =
     (f e :: nat) + sum_list (map (\<lambda>(_, e). f e) (filter (\<lambda>(_, e). P e) (ddel k m)))"
proof (induction m)
  case (Cons p m)
  obtain k' v where p: "p = (k', v)" by (cases p)
  show ?case
  proof (cases "k' = k")
    case True
    with Cons.prems have "k \<notin> fst ` set m" by (auto simp: p dwf_def)
    with True Cons.prems(2) show ?thesis by (simp add: p)
  next
    case False
    with Cons show ?thesis by (simp add: p dwf_def)
  qed
qed simp

text \<open>
  Counts of peers. Recording a peer's count returns the count it replaces, and the total over
  the live peers becomes the new count plus what the other live peers report.
\<close>

theorem pcc_set_sum:
  assumes "cache_wf c"
  shows "fst (pcc_set now aid channel node n c) = fst (pcc_remove aid channel node c) \<and>
         pcc_sum now aid channel (snd (pcc_set now aid channel node n c)) =
           n + pcc_sum now aid channel (snd (pcc_remove aid channel node c))"
proof -
  have wf: "dwf (peers_at c (aid, channel))" using assms by blast
  have set: "peers_at (snd (pcc_set now aid channel node n c)) (aid, channel) =
      dput node \<lparr>ce_count = n, ce_inserted_at = now\<rparr> (peers_at c (aid, channel))"
    by (simp add: pcc_set_def put_peer_def peers_at_put)
  have del: "peers_at (snd (pcc_remove aid channel node c)) (aid, channel) =
      ddel node (peers_at c (aid, channel))"
    by (simp add: pcc_remove_def peers_at_def split: option.split)
  have "\<not> is_expired now (ce_inserted_at \<lparr>ce_count = n, ce_inserted_at = now\<rparr>)"
    by (simp add: is_expired_def)
  from sum_filter_dput [OF wf, where P = "\<lambda>e. \<not> is_expired now (ce_inserted_at e)", OF this]
  show ?thesis unfolding pcc_sum_def set del
    by (simp add: pcc_set_def pcc_remove_def peer_entry_def split: option.split)
qed

lemma retain_keys_spec:
  "dwf c \<Longrightarrow> retain_keys aid node present may_drop c s = (dropped, c', s') \<Longrightarrow>
     dkeys c' = dkeys c \<and>
     (\<forall>k. peers_at c' k = (if fst k = aid \<and> snd k \<in> set dropped then ddel node (peers_at c k)
                           else peers_at c k)) \<and>
     (\<forall>ch\<in>set dropped. ch \<notin> set present \<and> peer_entry c (aid, ch) node \<noteq> None)"
proof (induction c arbitrary: s dropped c' s')
  case Nil
  then show ?case by (simp add: peers_at_def)
next
  case (Cons p rest)
  obtain a ch inner where p: "p = ((a, ch), inner)" by (cases p) auto
  have wf: "dwf rest" and fresh: "(a, ch) \<notin> fst ` set rest"
    using Cons.prems(1) by (auto simp: p dwf_def)
  show ?case
  proof (cases "a = aid \<and> ch \<notin> set present \<and> dhas inner node")
    case True
    obtain ok s1 where m: "may_drop ch s = (ok, s1)" by (cases "may_drop ch s")
    obtain d1 c1 s2 where r: "retain_keys aid node present may_drop rest s1 = (d1, c1, s2)"
      by (cases "retain_keys aid node present may_drop rest s1") auto
    note ih = Cons.IH [OF wf r]
    have none: "ch \<notin> set d1"
      using ih fresh True by (force simp: peer_entry_def bind_eq_Some_conv dest: dget_in)
    from Cons.prems(2) True m r have res: "dropped = (if ok then ch # d1 else d1)"
      "c' = ((a, ch), if ok then ddel node inner else inner) # c1" by (auto simp: p)
    with ih none True show ?thesis
      by (auto simp: p peers_at_def peer_entry_def dhas_def split: if_splits)
  next
    case False
    obtain d1 c1 s2 where r: "retain_keys aid node present may_drop rest s = (d1, c1, s2)"
      by (cases "retain_keys aid node present may_drop rest s") auto
    note ih = Cons.IH [OF wf r]
    have none: "ch \<notin> set d1 \<or> a \<noteq> aid"
      using ih fresh by (force simp: peer_entry_def bind_eq_Some_conv dest: dget_in)
    from Cons.prems(2) False r have res: "dropped = d1" "c' = ((a, ch), inner) # c1"
      by (auto simp: p)
    with ih none show ?thesis by (auto simp: p peers_at_def peer_entry_def)
  qed
qed

text \<open>
  The sweep of the presence cache reports a user of a channel exactly when a peer that listed
  the user has been silent for longer than the time to live; it drops those peers and no other, and
  a second sweep at the same instant reports nothing.
\<close>

theorem presence_gc_spec:
  assumes "cache_wf c"
  shows "(x \<in> set (fst (pc_gc_expired now c)) \<longleftrightarrow>
            (\<exists>node snap. peer_entry c (em_app_id x, em_channel x) node = Some snap \<and>
               ps_inserted_at snap + SNAPSHOT_TTL < now \<and> dhas (ps_members snap) (em_user_id x))) \<and>
         peer_entry (snd (pc_gc_expired now c)) k node =
           (case peer_entry c k node of
              Some snap \<Rightarrow> if ps_inserted_at snap + SNAPSHOT_TTL < now then None else Some snap
            | None \<Rightarrow> None) \<and>
         fst (pc_gc_expired now (snd (pc_gc_expired now c))) = []"
proof -
  have exp: "is_expired now t \<longleftrightarrow> t + SNAPSHOT_TTL < now" for t by (auto simp: is_expired_def)
  have rep: "x \<in> set (report_members k n e) \<longleftrightarrow>
      k = (em_app_id x, em_channel x) \<and> dhas (ps_members e) (em_user_id x)" for k n e
    by (cases x, cases k) (auto simp: report_members_def dhas_iff)
  show ?thesis
    unfolding rosters.gc_report [OF assms] rosters.gc_entry [OF assms]
    using rosters.second_gc_silent [OF assms, of now] by (auto simp: exp rep split: option.split)
qed

text \<open>A cache in which one peer has expired, for the examples.\<close>

definition sample_cache :: presence_cache where
  "sample_cache =
     snd (add_live 5 ''1'' ''presence-a'' ''n2'' ''u'' None
       (snd (add_live 20000000000 ''1'' ''presence-a'' ''n1'' ''v'' None [])))"

lemma sample_cache_wf: "cache_wf sample_cache"
  by (auto simp: sample_cache_def)

theorem presence_gc_spec_witness:
  "\<lparr>em_app_id = ''1'', em_channel = ''presence-a'', em_user_id = ''u''\<rparr> \<in>
     set (fst (pc_gc_expired 20000000000 sample_cache))"
  using presence_gc_spec [OF sample_cache_wf,
      of "\<lparr>em_app_id = ''1'', em_channel = ''presence-a'', em_user_id = ''u''\<rparr>" 20000000000]
  by (simp add: sample_cache_def add_live_def Let_def peer_entry_def put_peer_def peers_at_def
        peer_snapshot_new_def SNAPSHOT_TTL_def from_secs_def dhas_def)

theorem remote_members_spec_witness:
  "''v'' \<in> psm_user_id ` set (remote_members_for 20000000000 ''1'' ''presence-a'' sample_cache) \<and>
   ''u'' \<notin> psm_user_id ` set (remote_members_for 20000000000 ''1'' ''presence-a'' sample_cache)"
  using remote_members_spec [OF sample_cache_wf, of 20000000000 "''1''" "''presence-a''" "''u''"]
    remote_members_spec [OF sample_cache_wf, of 20000000000 "''1''" "''presence-a''" "''v''"]
  by (simp add: pc_is_present_excluding_def is_expired_def sample_cache_def add_live_def Let_def
        peer_entry_def put_peer_def peers_at_def peer_snapshot_new_def SNAPSHOT_TTL_def from_secs_def
        dhas_def)

theorem pcc_set_sum_witness:
  "pcc_sum 9 ''1'' ''a'' (snd (pcc_set 9 ''1'' ''a'' ''n2'' 4 (snd (pcc_set 8 ''1'' ''a'' ''n1'' 3 [])))) = 7"
  using pcc_set_sum [OF cache_wf_updates(5) [OF cache_wf_Nil], of 9 "''1''" "''a''" "''n2''" 4 8 "''1''" "''a''" "''n1''" 3]
  by (simp add: pcc_remove_def pcc_set_def put_peer_def peers_at_def pcc_sum_def is_expired_def
        SNAPSHOT_TTL_def from_secs_def)

end
