(* ===== verification/Connection_Model.thy ===== *)
theory Connection_Model
  imports Core_Types
begin

text \<open>
  The crate \<open>zatat-connection\<close>: outbound mailboxes and their handles, the state of one connection
  (\<open>connection.rs\<close>) and the rate limiter of client messages (\<open>rate_limit.rs\<close>).

  A tokio channel is the data it holds: the queued frames, its capacity, whether the receiver is
  gone, and whether the \<open>Notify\<close> that travels with the sender holds a permit. The mailboxes of a node
  form a map from sender identities to mailboxes, so two handles with one sender share a queue.
\<close>

section \<open>Mailboxes\<close>

datatype outbound = Text string | Ping | Close nat string

record connection_handle =
  h_socket_id :: socket_id
  h_tx :: nat

record mailbox =
  mb_queue :: "outbound list"
  mb_capacity :: nat
  mb_closed :: bool
  mb_kick :: bool

type_synonym net = "(nat, mailbox) dmap"

text \<open>\<open>mpsc::Sender::try_send\<close> followed by the reaction of \<open>ConnectionHandle::try_send\<close>.\<close>

definition deliver :: "outbound \<Rightarrow> mailbox \<Rightarrow> bool \<times> mailbox" where
  "deliver msg mb =
     (if mb_closed mb then (False, mb)
      else if length (mb_queue mb) < mb_capacity mb
      then (True, mb\<lparr>mb_queue := mb_queue mb @ [msg]\<rparr>)
      else (False, mb\<lparr>mb_kick := True\<rparr>))"

definition try_send :: "connection_handle \<Rightarrow> outbound \<Rightarrow> net \<Rightarrow> bool \<times> net" where
  "try_send h msg net =
     (case dget net (h_tx h) of
        None \<Rightarrow> (False, net)
      | Some mb \<Rightarrow> (case deliver msg mb of (ok, mb') \<Rightarrow> (ok, dput (h_tx h) mb' net)))"

definition is_closed :: "connection_handle \<Rightarrow> net \<Rightarrow> bool" where
  "is_closed h net = (case dget net (h_tx h) of None \<Rightarrow> True | Some mb \<Rightarrow> mb_closed mb)"

text \<open>Sending one frame to a list of handles, in order.\<close>

definition send_all :: "outbound \<Rightarrow> connection_handle list \<Rightarrow> net \<Rightarrow> net" where
  "send_all msg hs net = fold (\<lambda>h n. snd (try_send h msg n)) hs net"

section \<open>Connections\<close>

definition PONG_GRACE_SECONDS :: int where
  "PONG_GRACE_SECONDS = 30"

record connection =
  c_app :: application
  c_socket_id :: socket_id
  c_origin :: "string option"
  c_last_seen_at :: int
  c_has_been_pinged :: bool
  c_user_id :: "string option"
  c_watchlist :: "string list"
  c_subscriptions :: "string list"

definition connection_new :: "int \<Rightarrow> application \<Rightarrow> socket_id \<Rightarrow> string option \<Rightarrow> connection" where
  "connection_new now app sid origin =
     \<lparr>c_app = app, c_socket_id = sid, c_origin = origin, c_last_seen_at = now,
      c_has_been_pinged = False, c_user_id = None, c_watchlist = [], c_subscriptions = []\<rparr>"

definition touch :: "int \<Rightarrow> connection \<Rightarrow> connection" where
  "touch now c = c\<lparr>c_last_seen_at := now, c_has_been_pinged := False\<rparr>"

definition mark_pinged :: "connection \<Rightarrow> connection" where
  "mark_pinged c = c\<lparr>c_has_been_pinged := True\<rparr>"

definition is_inactive :: "int \<Rightarrow> connection \<Rightarrow> bool" where
  "is_inactive now c =
     (let idle = now - c_last_seen_at c in idle > int (ping_interval (c_app c)))"

definition is_stale :: "int \<Rightarrow> connection \<Rightarrow> bool" where
  "is_stale now c =
     (let idle = now - c_last_seen_at c
      in c_has_been_pinged c \<and> idle > int (ping_interval (c_app c)) + PONG_GRACE_SECONDS)"

definition conn_bind_user :: "string \<Rightarrow> connection \<Rightarrow> connection" where
  "conn_bind_user uid c = c\<lparr>c_user_id := Some uid\<rparr>"

definition conn_unbind_user :: "connection \<Rightarrow> connection" where
  "conn_unbind_user c = c\<lparr>c_user_id := None\<rparr>"

definition set_watchlist :: "string list \<Rightarrow> connection \<Rightarrow> connection" where
  "set_watchlist l c = c\<lparr>c_watchlist := l\<rparr>"

definition add_subscription :: "string \<Rightarrow> connection \<Rightarrow> connection" where
  "add_subscription ch c = c\<lparr>c_subscriptions := hs_insert ch (c_subscriptions c)\<rparr>"

definition remove_subscription :: "string \<Rightarrow> connection \<Rightarrow> connection" where
  "remove_subscription ch c = c\<lparr>c_subscriptions := hs_remove ch (c_subscriptions c)\<rparr>"

definition is_subscribed :: "string \<Rightarrow> connection \<Rightarrow> bool" where
  "is_subscribed ch c \<longleftrightarrow> ch \<in> set (c_subscriptions c)"

definition conn_subscription_count :: "connection \<Rightarrow> nat" where
  "conn_subscription_count c = length (c_subscriptions c)"

section \<open>The rate limiter\<close>

record rate_limiter =
  r_max_attempts :: nat
  r_window :: duration
  r_timestamps :: "instant list"

definition rate_limiter_new :: "nat \<Rightarrow> nat \<Rightarrow> rate_limiter" where
  "rate_limiter_new max_attempts window_seconds =
     \<lparr>r_max_attempts = max_attempts, r_window = from_secs window_seconds, r_timestamps = []\<rparr>"

definition checked_sub :: "instant \<Rightarrow> duration \<Rightarrow> instant option" where
  "checked_sub t d = (if d \<le> t then Some (t - d) else None)"

definition check :: "instant \<Rightarrow> rate_limiter \<Rightarrow> bool \<times> rate_limiter" where
  "check now rl =
     (let ts = (case checked_sub now (r_window rl) of
                  Some cutoff \<Rightarrow> dropWhile (\<lambda>front. front < cutoff) (r_timestamps rl)
                | None \<Rightarrow> r_timestamps rl)
      in if length ts mod 2 ^ 32 \<ge> r_max_attempts rl
         then (False, rl\<lparr>r_timestamps := ts\<rparr>)
         else (True, rl\<lparr>r_timestamps := ts @ [now]\<rparr>))"

section \<open>Delivery\<close>

lemma dget_try_send:
  "dget (snd (try_send h msg net)) tx =
     (if tx = h_tx h then map_option (snd \<circ> deliver msg) (dget net tx) else dget net tx)"
  by (auto simp: try_send_def split: option.split prod.split)

lemma dkeys_try_send [simp]: "set (dkeys (snd (try_send h msg net))) = set (dkeys net)"
proof (cases "dget net (h_tx h)")
  case (Some mb)
  then have "h_tx h \<in> set (dkeys net)" by (force dest: dget_in)
  with Some show ?thesis
    by (cases "deliver msg mb") (auto simp: try_send_def dom_update)
qed (simp add: try_send_def)

text \<open>
  Sending a frame to a list of handles feeds each mailbox once per handle that names it and
  touches no other mailbox.
\<close>

lemma dget_send_all:
  "dget (send_all msg hs net) tx =
     map_option ((snd \<circ> deliver msg) ^^ length (filter (\<lambda>h. h_tx h = tx) hs)) (dget net tx)"
proof (induction hs arbitrary: net)
  case (Cons h hs)
  have step: "send_all msg (h # hs) net = send_all msg hs (snd (try_send h msg net))"
    by (simp add: send_all_def)
  show ?case
  proof (cases "h_tx h = tx")
    case True
    then show ?thesis
      by (simp add: step Cons.IH dget_try_send option.map_comp funpow_Suc_right comp_def
            del: funpow.simps)
  next
    case False
    then show ?thesis by (simp add: step Cons.IH dget_try_send)
  qed
qed (simp add: send_all_def option.map_id)

lemma send_all_Nil [simp]: "send_all msg [] net = net"
  by (simp add: send_all_def)

text \<open>A mailbox never exceeds its capacity, and what it refuses marks the connection for closing.\<close>

definition mailbox_ok :: "mailbox \<Rightarrow> bool" where
  "mailbox_ok mb \<longleftrightarrow> length (mb_queue mb) \<le> mb_capacity mb"

lemma deliver_ok: "mailbox_ok mb \<Longrightarrow> mailbox_ok (snd (deliver msg mb))"
  by (simp add: mailbox_ok_def deliver_def)

lemma deliver_refused:
  "\<not> fst (deliver msg mb) \<Longrightarrow> \<not> mb_closed mb \<Longrightarrow> mb_kick (snd (deliver msg mb))"
  by (simp add: deliver_def split: if_splits)

lemma deliver_no_overtaking: "\<exists>new. mb_queue (snd (deliver msg mb)) = mb_queue mb @ new"
  by (simp add: deliver_def)

section \<open>Subscriptions of a connection\<close>

interpretation subs: membership add_subscription remove_subscription
  "\<lambda>c. set (c_subscriptions c)" "\<lambda>c. distinct (c_subscriptions c)"
  by unfold_locales (simp_all add: add_subscription_def remove_subscription_def)

lemma conn_subscription_count_card:
  "distinct (c_subscriptions c) \<Longrightarrow> conn_subscription_count c = card (set (c_subscriptions c))"
  by (simp add: conn_subscription_count_def distinct_card)

text \<open>
  A stale connection has been inactive for longer than the grace period; activity clears both.
\<close>

lemma stale_inactive: "is_stale now c \<Longrightarrow> is_inactive now c"
  by (simp add: is_stale_def is_inactive_def PONG_GRACE_SECONDS_def Let_def)

lemma touch_clears: "now - now' \<le> int (ping_interval (c_app c)) \<Longrightarrow>
    \<not> is_inactive now (touch now' c) \<and> \<not> is_stale now (touch now' c)"
  by (simp add: is_stale_def is_inactive_def touch_def Let_def)

section \<open>The sliding window\<close>

text \<open>The instants of a sequence of checks that are admitted.\<close>

fun admitted :: "instant list \<Rightarrow> rate_limiter \<Rightarrow> instant list" where
  "admitted [] rl = []"
| "admitted (t # ts) rl =
     (case check t rl of (ok, rl') \<Rightarrow> (if ok then [t] else []) @ admitted ts rl')"

text \<open>
  The specification keeps every admitted instant and admits a new one when fewer than the maximum
  lie in the closed window that ends with it.
\<close>

fun admitted_spec :: "duration \<Rightarrow> nat \<Rightarrow> instant list \<Rightarrow> instant list \<Rightarrow> instant list" where
  "admitted_spec w n [] acc = []"
| "admitted_spec w n (t # ts) acc =
     (if length (filter (\<lambda>x. t \<le> x + w) acc) < n
      then t # admitted_spec w n ts (acc @ [t]) else admitted_spec w n ts acc)"

definition window_inv :: "instant list \<Rightarrow> rate_limiter \<Rightarrow> instant \<Rightarrow> bool" where
  "window_inv acc rl now \<longleftrightarrow>
     sorted acc \<and> (\<forall>x\<in>set acc. x \<le> now) \<and> length (r_timestamps rl) \<le> r_max_attempts rl \<and>
     r_max_attempts rl < 2 ^ 32 \<and>
     (\<exists>old. acc = old @ r_timestamps rl \<and> (\<forall>x\<in>set old. x + r_window rl < now))"

lemma dropWhile_sorted:
  "sorted xs \<Longrightarrow> dropWhile (\<lambda>x. x < (c::nat)) xs = filter (\<lambda>x. c \<le> x) xs"
  by (induction xs) (auto intro!: sym [OF filter_True])

lemma window_kept:
  assumes "window_inv acc rl now" "now \<le> t"
  shows "(case checked_sub t (r_window rl) of
            Some cutoff \<Rightarrow> dropWhile (\<lambda>front. front < cutoff) (r_timestamps rl)
          | None \<Rightarrow> r_timestamps rl) = filter (\<lambda>x. t \<le> x + r_window rl) acc"
proof -
  obtain old where acc: "acc = old @ r_timestamps rl"
    and old: "\<forall>x\<in>set old. x + r_window rl < now"
    using assms(1) by (auto simp: window_inv_def)
  have "filter (\<lambda>x. t \<le> x + r_window rl) old = []"
    using old assms(2) by (auto simp: filter_empty_conv)
  moreover have "sorted (r_timestamps rl)"
    using assms(1) acc by (simp add: window_inv_def sorted_append)
  ultimately show ?thesis
    by (auto simp: acc checked_sub_def dropWhile_sorted le_diff_conv intro!: filter_cong)
qed

lemma window_split:
  assumes "sorted acc"
  shows "acc = filter (\<lambda>x. x + w < t) acc @ filter (\<lambda>x. t \<le> x + (w::nat)) acc"
  using assms
proof (induction acc)
  case (Cons a acc)
  show ?case
  proof (cases "a + w < t")
    case False
    with Cons.prems have "\<forall>x\<in>set acc. t \<le> x + w" by auto
    with False show ?thesis by (simp add: filter_id_conv filter_empty_conv not_less)
  qed (use Cons in auto)
qed simp

lemma check_step:
  assumes "window_inv acc rl now" "now \<le> t"
  shows "fst (check t rl) \<longleftrightarrow> length (filter (\<lambda>x. t \<le> x + r_window rl) acc) < r_max_attempts rl"
    and "window_inv (if fst (check t rl) then acc @ [t] else acc) (snd (check t rl)) t"
    and "r_window (snd (check t rl)) = r_window rl"
    and "r_max_attempts (snd (check t rl)) = r_max_attempts rl"
proof -
  let ?k = "filter (\<lambda>x. t \<le> x + r_window rl) acc"
  let ?o = "filter (\<lambda>x. x + r_window rl < t) acc"
  note kept = window_kept [OF assms]
  have sorted: "sorted acc" and upper: "\<forall>x\<in>set acc. x \<le> t"
    and max: "r_max_attempts rl < 2 ^ 32" "length (r_timestamps rl) \<le> r_max_attempts rl"
    using assms by (auto simp: window_inv_def)
  have "length ?k \<le> length (r_timestamps rl)"
    unfolding kept [symmetric] by (auto split: option.split simp: length_dropWhile_le)
  then have len: "length ?k \<le> r_max_attempts rl" "length ?k mod 2 ^ 32 = length ?k"
    using max by simp_all
  have chk: "check t rl = (if r_max_attempts rl \<le> length ?k
      then (False, rl\<lparr>r_timestamps := ?k\<rparr>) else (True, rl\<lparr>r_timestamps := ?k @ [t]\<rparr>))"
    unfolding check_def kept Let_def len(2) by simp
  show "fst (check t rl) \<longleftrightarrow> length ?k < r_max_attempts rl" by (simp add: chk not_le)
  show "r_window (snd (check t rl)) = r_window rl" by (simp add: chk)
  show "r_max_attempts (snd (check t rl)) = r_max_attempts rl" by (simp add: chk)
  have split: "acc = ?o @ ?k" using window_split [OF sorted] .
  have "\<exists>old. acc = old @ ?k \<and> (\<forall>x\<in>set old. x + r_window rl < t)"
    using split by (intro exI [of _ ?o]) auto
  moreover have "\<exists>old. acc @ [t] = old @ ?k @ [t] \<and> (\<forall>x\<in>set old. x + r_window rl < t)"
    using split by (intro exI [of _ ?o]) auto
  ultimately show "window_inv (if fst (check t rl) then acc @ [t] else acc) (snd (check t rl)) t"
    using sorted upper max len by (auto simp: window_inv_def chk sorted_append)
qed

lemma admitted_refines:
  "window_inv acc rl now \<Longrightarrow> sorted ts \<Longrightarrow> \<forall>t\<in>set ts. now \<le> t \<Longrightarrow>
     admitted ts rl = admitted_spec (r_window rl) (r_max_attempts rl) ts acc"
proof (induction ts arbitrary: acc rl now)
  case (Cons t ts)
  have le: "now \<le> t" using Cons.prems by simp
  note step = check_step [OF Cons.prems(1) le]
  obtain ok rl' where c: "check t rl = (ok, rl')" by (cases "check t rl")
  have "admitted ts rl' = admitted_spec (r_window rl) (r_max_attempts rl) ts
      (if ok then acc @ [t] else acc)"
    using Cons.IH [OF step(2)] Cons.prems(2) step(3,4) by (simp add: c)
  with step(1) show ?case by (simp add: c)
qed simp

lemma admitted_spec_bound:
  "sorted acc \<Longrightarrow> sorted ts \<Longrightarrow> \<forall>x\<in>set acc. \<forall>t\<in>set ts. x \<le> t \<Longrightarrow>
   (\<forall>a. length (filter (\<lambda>x. a \<le> x \<and> x \<le> a + w) acc) \<le> n) \<Longrightarrow>
   length (filter (\<lambda>x. a \<le> x \<and> x \<le> a + w) (acc @ admitted_spec w n ts acc)) \<le> n"
proof (induction ts arbitrary: acc)
  case (Cons t ts)
  show ?case
  proof (cases "length (filter (\<lambda>x. t \<le> x + w) acc) < n")
    case True
    have new: "length (filter (\<lambda>x. b \<le> x \<and> x \<le> b + w) (acc @ [t])) \<le> n" for b
    proof (cases "b \<le> t \<and> t \<le> b + w")
      case True
      then have "length (filter (\<lambda>x. b \<le> x \<and> x \<le> b + w) acc) \<le>
          length (filter (\<lambda>x. t \<le> x + w) acc)"
        by (simp add: length_filter_conv_card) (intro card_mono, auto)
      with \<open>length (filter (\<lambda>x. t \<le> x + w) acc) < n\<close> True show ?thesis by simp
    next
      case False
      then show ?thesis using Cons.prems(4) by auto
    qed
    have "length (filter (\<lambda>x. a \<le> x \<and> x \<le> a + w)
        ((acc @ [t]) @ admitted_spec w n ts (acc @ [t]))) \<le> n"
      using Cons.prems new by (intro Cons.IH) (auto simp: sorted_append)
    with True show ?thesis by simp
  next
    case False
    then show ?thesis using Cons.prems Cons.IH [of acc] by simp
  qed
qed simp

lemma window_inv_new: "n < 2 ^ 32 \<Longrightarrow> window_inv [] (rate_limiter_new n s) 0"
  by (simp add: window_inv_def rate_limiter_new_def)

text \<open>
  C9: The rate limiter implements the sliding window exactly. On every non-decreasing sequence of
  attempts it admits those, and only those, for which fewer than the maximum were admitted in the
  window that ends with them; so no window of the configured length ever holds more than the
  maximum, and forgetting expired timestamps never changes a decision.
\<close>

theorem rate_limiter_sliding_window:
  assumes "sorted ts" "n < 2 ^ 32"
  shows "admitted ts (rate_limiter_new n s) = admitted_spec (from_secs s) n ts [] \<and>
         length (filter (\<lambda>x. a \<le> x \<and> x \<le> a + from_secs s)
           (admitted ts (rate_limiter_new n s))) \<le> n"
proof -
  have "admitted ts (rate_limiter_new n s) = admitted_spec (from_secs s) n ts []"
    using admitted_refines [OF window_inv_new [OF assms(2)] assms(1)]
    by (simp add: rate_limiter_new_def)
  then show ?thesis
    using admitted_spec_bound [of "[]" ts "from_secs s" n a] assms(1) by simp
qed

theorem rate_limiter_sliding_window_witness:
  "admitted [0, 5, 1000000001, 1000000006] (rate_limiter_new 2 1) = [0, 5, 1000000001, 1000000006] \<and>
   admitted [0, 5, 7] (rate_limiter_new 2 1) = [0, 5]"
  using rate_limiter_sliding_window [of "[0, 5, 1000000001, 1000000006]" 2 1]
    rate_limiter_sliding_window [of "[0, 5, 7]" 2 1]
  by (simp add: from_secs_def)

end
