(* ===== verification/Channel_Model.thy ===== *)
theory Channel_Model
  imports Connection_Model Sample_Ext
begin

text \<open>
  One channel (\<open>zatat-channels/src/channel.rs\<close>): its members, the reference counts of the users of a
  presence channel, the cached payload of a cache channel, and the broadcasts. Operations that read
  the clock take the instant as an argument; operations that send frames take and return the
  mailboxes. The transition lock serialises whole operations, so each one is a single step here.
\<close>

section \<open>State\<close>

record member =
  m_handle :: connection_handle
  m_presence :: "presence_member option"

record cached_entry =
  cp_payload :: string
  cp_inserted_at :: instant

record channel =
  ch_name :: channel_name
  ch_kind :: channel_kind
  ch_members :: "(string, member) dmap"
  ch_user_refcounts :: "(string, nat) dmap option"
  ch_cached_payload :: "cached_entry option option"
  ch_cache_ttl :: "duration option"
  ch_cache_miss_notified_at :: "instant option"

definition CACHE_MISS_WEBHOOK_INTERVAL :: duration where
  "CACHE_MISS_WEBHOOK_INTERVAL = from_secs 60"

record subscribe_result =
  sr_was_new :: bool
  sr_user_added :: bool
  sr_member_count :: nat

record unsubscribe_outcome =
  uo_was_member :: bool
  uo_user_removed :: "string option"
  uo_member_count :: nat
  uo_presence :: "presence_member option"

record channel_stats =
  st_occupied :: bool
  st_subscription_count :: nat
  st_user_count :: "nat option"
  st_has_cached_payload :: bool

section \<open>Operations\<close>

definition with_cache_ttl :: "channel_name \<Rightarrow> duration option \<Rightarrow> channel" where
  "with_cache_ttl name ttl =
     (let kind = from_name name in
      \<lparr>ch_name = name, ch_kind = kind, ch_members = [],
       ch_user_refcounts = (if is_presence kind then Some [] else None),
       ch_cached_payload = (if is_cache kind then Some None else None),
       ch_cache_ttl = ttl, ch_cache_miss_notified_at = None\<rparr>)"

definition channel_new :: "channel_name \<Rightarrow> channel" where
  "channel_new name = with_cache_ttl name None"

definition ch_len :: "channel \<Rightarrow> nat" where
  "ch_len ch = length (ch_members ch)"

definition ch_is_empty :: "channel \<Rightarrow> bool" where
  "ch_is_empty ch \<longleftrightarrow> ch_members ch = []"

definition ch_contains :: "string \<Rightarrow> channel \<Rightarrow> bool" where
  "ch_contains sid ch = dhas (ch_members ch) sid"

definition user_count :: "channel \<Rightarrow> nat" where
  "user_count ch = (case ch_user_refcounts ch of Some refs \<Rightarrow> length refs | None \<Rightarrow> ch_len ch)"

definition has_user_id :: "string \<Rightarrow> channel \<Rightarrow> bool" where
  "has_user_id uid ch =
     (case ch_user_refcounts ch of Some refs \<Rightarrow> dhas refs uid | None \<Rightarrow> False)"

definition presence_user_id :: "string \<Rightarrow> channel \<Rightarrow> string option" where
  "presence_user_id sid ch =
     Option.bind (dget (ch_members ch) sid) (\<lambda>m. map_option pm_user_id (m_presence m))"

text \<open>Reading the cache clears an expired entry.\<close>

definition cached_payload :: "instant \<Rightarrow> channel \<Rightarrow> string option \<times> channel" where
  "cached_payload now ch =
     (case ch_cached_payload ch of
        None \<Rightarrow> (None, ch)
      | Some None \<Rightarrow> (None, ch)
      | Some (Some entry) \<Rightarrow>
          (case ch_cache_ttl ch of
             Some ttl \<Rightarrow>
               if now - cp_inserted_at entry > ttl
               then (None, ch\<lparr>ch_cached_payload := Some None\<rparr>)
               else (Some (cp_payload entry), ch)
           | None \<Rightarrow> (Some (cp_payload entry), ch)))"

definition has_cached_payload :: "instant \<Rightarrow> channel \<Rightarrow> bool" where
  "has_cached_payload now ch = (fst (cached_payload now ch) \<noteq> None)"

definition cached_payload_with_ttl ::
  "instant \<Rightarrow> channel \<Rightarrow> (string \<times> nat option) option \<times> channel" where
  "cached_payload_with_ttl now ch =
     (case cached_payload now ch of
        (None, ch') \<Rightarrow> (None, ch')
      | (Some payload, ch') \<Rightarrow>
          (case ch_cached_payload ch' of
             None \<Rightarrow> (None, ch')
           | Some lock \<Rightarrow>
               (let remaining = (case (ch_cache_ttl ch', lock) of
                      (Some ttl, Some entry) \<Rightarrow> Some (as_secs (ttl - (now - cp_inserted_at entry)))
                    | _ \<Rightarrow> None)
                in (Some (payload, remaining), ch'))))"

definition set_cached_payload :: "instant \<Rightarrow> string \<Rightarrow> channel \<Rightarrow> channel" where
  "set_cached_payload now payload ch =
     (case ch_cached_payload ch of
        Some _ \<Rightarrow> ch\<lparr>ch_cached_payload := Some (Some \<lparr>cp_payload = payload, cp_inserted_at = now\<rparr>),
                     ch_cache_miss_notified_at := None\<rparr>
      | None \<Rightarrow> ch)"

definition claim_cache_miss_notification :: "instant \<Rightarrow> channel \<Rightarrow> bool \<times> channel" where
  "claim_cache_miss_notification now ch =
     (if (case ch_cache_miss_notified_at ch of
            Some t \<Rightarrow> now - t < CACHE_MISS_WEBHOOK_INTERVAL | None \<Rightarrow> False)
      then (False, ch)
      else (True, ch\<lparr>ch_cache_miss_notified_at := Some now\<rparr>))"

definition presence_snapshot :: "channel \<Rightarrow> presence_data option" where
  "presence_snapshot ch =
     (if \<not> is_presence (ch_kind ch) then None
      else Some (from_members (map (\<lambda>(_, m). m_presence m) (ch_members ch))))"

definition subscribe ::
  "socket_id \<Rightarrow> connection_handle \<Rightarrow> presence_member option \<Rightarrow> channel \<Rightarrow>
   subscribe_result \<times> channel" where
  "subscribe sid h p ch =
     (if dhas (ch_members ch) sid
      then (\<lparr>sr_was_new = False, sr_user_added = False, sr_member_count = ch_len ch\<rparr>, ch)
      else
        (let (user_added, refs') =
               (case (ch_user_refcounts ch, p) of
                  (Some refs, Some pm) \<Rightarrow>
                    (let entry = (case dget refs (pm_user_id pm) of Some n \<Rightarrow> n | None \<Rightarrow> 0)
                     in (entry = 0, Some (dput (pm_user_id pm) (entry + 1) refs)))
                | (refs, _) \<Rightarrow> (False, refs));
             ch' = ch\<lparr>ch_user_refcounts := refs',
                      ch_members := dput sid \<lparr>m_handle = h, m_presence = p\<rparr> (ch_members ch)\<rparr>
         in (\<lparr>sr_was_new = True, sr_user_added = user_added, sr_member_count = ch_len ch'\<rparr>, ch')))"

definition unsubscribe :: "socket_id \<Rightarrow> channel \<Rightarrow> unsubscribe_outcome \<times> channel" where
  "unsubscribe sid ch =
     (case dget (ch_members ch) sid of
        Some mem \<Rightarrow>
          (let ch1 = ch\<lparr>ch_members := ddel sid (ch_members ch)\<rparr>;
               (user_removed, refs') =
                 (case (ch_user_refcounts ch1, m_presence mem) of
                    (Some refs, Some pm) \<Rightarrow>
                      (case dget refs (pm_user_id pm) of
                         Some n \<Rightarrow>
                           (let refs1 = dput (pm_user_id pm) (n - 1) refs;
                                reached_zero = (n - 1 = 0)
                            in if reached_zero
                               then (Some (pm_user_id pm),
                                     Some (dremove_if (pm_user_id pm) (\<lambda>n. n = 0) refs1))
                               else (None, Some refs1))
                       | None \<Rightarrow> (None, Some refs))
                  | (refs, _) \<Rightarrow> (None, refs));
               ch2 = ch1\<lparr>ch_user_refcounts := refs'\<rparr>
           in (\<lparr>uo_was_member = True, uo_user_removed = user_removed,
                uo_member_count = ch_len ch2, uo_presence = m_presence mem\<rparr>, ch2))
      | None \<Rightarrow>
          (\<lparr>uo_was_member = False, uo_user_removed = None,
            uo_member_count = ch_len ch, uo_presence = None\<rparr>, ch))"

definition recipients :: "socket_id option \<Rightarrow> channel \<Rightarrow> connection_handle list" where
  "recipients except ch =
     map (\<lambda>(_, m). m_handle m)
       (filter (\<lambda>(k, _). case except of Some ex \<Rightarrow> k \<noteq> ex | None \<Rightarrow> True) (ch_members ch))"

definition send_to_members :: "string \<Rightarrow> socket_id option \<Rightarrow> channel \<Rightarrow> net \<Rightarrow> net" where
  "send_to_members payload except ch net = send_all (Text payload) (recipients except ch) net"

definition broadcast ::
  "instant \<Rightarrow> string \<Rightarrow> socket_id option \<Rightarrow> channel \<Rightarrow> net \<Rightarrow> channel \<times> net" where
  "broadcast now payload except ch net =
     (let net' = send_to_members payload except ch net
      in (if is_cache (ch_kind ch) then set_cached_payload now payload ch else ch, net'))"

definition broadcast_client_event :: "string \<Rightarrow> socket_id option \<Rightarrow> channel \<Rightarrow> net \<Rightarrow> net" where
  "broadcast_client_event payload except ch net = send_to_members payload except ch net"

definition broadcast_protocol :: "string \<Rightarrow> socket_id option \<Rightarrow> channel \<Rightarrow> net \<Rightarrow> net" where
  "broadcast_protocol payload except ch net = send_to_members payload except ch net"

text \<open>
  The statistics read whether a payload is cached. The source's read also clears an expired entry,
  which is not written back here: as the clock never goes back, an entry found expired is found
  expired, and cleared, by every later read.
\<close>

definition stats :: "instant \<Rightarrow> channel \<Rightarrow> channel_stats" where
  "stats now ch =
     \<lparr>st_occupied = (\<not> ch_is_empty ch), st_subscription_count = ch_len ch,
      st_user_count = (if is_presence (ch_kind ch) then Some (user_count ch) else None),
      st_has_cached_payload = has_cached_payload now ch\<rparr>"

definition members_iter ::
  "channel \<Rightarrow> (string \<times> connection_handle \<times> presence_member option) list" where
  "members_iter ch = map (\<lambda>(k, m). (k, m_handle m, m_presence m)) (ch_members ch)"

section \<open>Well-formed channels\<close>

definition member_user :: "member \<Rightarrow> string option" where
  "member_user m = map_option pm_user_id (m_presence m)"

text \<open>How many connections carry a user.\<close>

definition user_conns :: "string \<Rightarrow> (string, member) dmap \<Rightarrow> nat" where
  "user_conns u ms = length (filter (\<lambda>(_, m). member_user m = Some u) ms)"

definition refs_ok :: "(string, member) dmap \<Rightarrow> (string, nat) dmap \<Rightarrow> bool" where
  "refs_ok ms refs \<longleftrightarrow> dwf refs \<and>
     (\<forall>u. dget refs u = (if user_conns u ms = 0 then None else Some (user_conns u ms)))"

definition ch_wf :: "channel \<Rightarrow> bool" where
  "ch_wf ch \<longleftrightarrow>
     ch_kind ch = from_name (ch_name ch) \<and> dwf (ch_members ch) \<and>
     (case ch_user_refcounts ch of
        Some refs \<Rightarrow> is_presence (ch_kind ch) \<and> refs_ok (ch_members ch) refs
      | None \<Rightarrow> \<not> is_presence (ch_kind ch)) \<and>
     (ch_cached_payload ch \<noteq> None \<longleftrightarrow> is_cache (ch_kind ch))"

lemma user_conns_dput:
  "dget ms s = None \<Longrightarrow>
     user_conns u (dput s m ms) = user_conns u ms + (if member_user m = Some u then 1 else 0)"
  by (simp add: user_conns_def dput_new)

lemma user_conns_zero: "user_conns u ms = 0 \<longleftrightarrow> (\<forall>(s, m)\<in>set ms. member_user m \<noteq> Some u)"
  by (auto simp: user_conns_def filter_empty_conv)

lemma user_conns_ddel:
  "dwf ms \<Longrightarrow> dget ms s = Some m \<Longrightarrow>
     user_conns u ms = user_conns u (ddel s ms) + (if member_user m = Some u then 1 else 0)"
proof (induction ms)
  case (Cons p ms)
  obtain k v where p: "p = (k, v)" by (cases p)
  show ?case
  proof (cases "k = s")
    case True
    with Cons.prems have "s \<notin> fst ` set ms" "v = m" by (auto simp: p dwf_def)
    with True show ?thesis by (simp add: p user_conns_def)
  next
    case False
    with Cons.prems Cons.IH show ?thesis by (auto simp: p user_conns_def dwf_def)
  qed
qed simp

lemma ch_wf_new [simp, intro]: "ch_wf (with_cache_ttl name ttl)"
  by (simp add: ch_wf_def with_cache_ttl_def Let_def refs_ok_def user_conns_def)

lemma ch_wf_subscribe [intro]: "ch_wf ch \<Longrightarrow> ch_wf (snd (subscribe sid h p ch))"
  by (cases "dget (ch_members ch) sid"; cases "ch_user_refcounts ch"; cases p)
     (auto simp: subscribe_def ch_wf_def refs_ok_def Let_def dhas_def user_conns_dput member_user_def
        dwf_dput)

lemma ch_wf_unsubscribe [intro]:
  assumes "ch_wf ch"
  shows "ch_wf (snd (unsubscribe sid ch))"
proof (cases "dget (ch_members ch) sid")
  case (Some m)
  have wf: "dwf (ch_members ch)" using assms by (simp add: ch_wf_def)
  have conns: "user_conns u (ch_members ch) =
      user_conns u (ddel sid (ch_members ch)) + (if member_user m = Some u then 1 else 0)" for u
    by (rule user_conns_ddel [OF wf Some])
  show ?thesis
  proof (cases "ch_user_refcounts ch")
    case None
    with Some assms show ?thesis by (auto simp: unsubscribe_def ch_wf_def Let_def dwf_ddel)
  next
    case (Some refs)
    with assms have refs: "dwf refs"
      "\<And>u. dget refs u = (if user_conns u (ch_members ch) = 0 then None
             else Some (user_conns u (ch_members ch)))"
      by (simp_all add: ch_wf_def refs_ok_def)
    show ?thesis
      using Some \<open>dget (ch_members ch) sid = Some m\<close> assms
      by (cases "m_presence m")
         (auto simp: unsubscribe_def ch_wf_def Let_def dwf_ddel refs_ok_def refs conns
            member_user_def zwf)
  qed
qed (use assms in \<open>simp add: unsubscribe_def\<close>)

lemma ch_wf_cached_payload [intro]: "ch_wf ch \<Longrightarrow> ch_wf (snd (cached_payload now ch))"
  by (auto simp: cached_payload_def ch_wf_def split: option.splits)

lemma ch_wf_set_cached_payload [intro]: "ch_wf ch \<Longrightarrow> ch_wf (set_cached_payload now payload ch)"
  by (auto simp: set_cached_payload_def ch_wf_def split: option.splits)

lemma ch_wf_claim [intro]: "ch_wf ch \<Longrightarrow> ch_wf (snd (claim_cache_miss_notification now ch))"
  by (auto simp: claim_cache_miss_notification_def ch_wf_def split: option.splits)

lemma ch_wf_broadcast [intro]: "ch_wf ch \<Longrightarrow> ch_wf (fst (broadcast now payload except ch net))"
  by (simp add: broadcast_def Let_def ch_wf_set_cached_payload)

lemma members_cached_payload [simp]: "ch_members (snd (cached_payload now ch)) = ch_members ch"
  by (simp add: cached_payload_def split: option.split)

lemma members_set_cached [simp]: "ch_members (set_cached_payload now payload ch) = ch_members ch"
  by (simp add: set_cached_payload_def split: option.split)

lemma members_claim [simp]:
  "ch_members (snd (claim_cache_miss_notification now ch)) = ch_members ch"
  by (simp add: claim_cache_miss_notification_def)

lemma kind_cached [simp]:
  "ch_kind (snd (cached_payload now ch)) = ch_kind ch"
  "ch_name (snd (cached_payload now ch)) = ch_name ch"
  "ch_kind (set_cached_payload now payload ch) = ch_kind ch"
  "ch_name (set_cached_payload now payload ch) = ch_name ch"
  "ch_kind (snd (claim_cache_miss_notification now ch)) = ch_kind ch"
  "ch_name (snd (claim_cache_miss_notification now ch)) = ch_name ch"
  by (simp_all add: cached_payload_def set_cached_payload_def claim_cache_miss_notification_def
        split: option.split)

lemma kind_subscribe [simp]:
  "ch_kind (snd (subscribe sid h p ch)) = ch_kind ch"
  "ch_name (snd (subscribe sid h p ch)) = ch_name ch"
  "ch_kind (snd (unsubscribe sid ch)) = ch_kind ch"
  "ch_name (snd (unsubscribe sid ch)) = ch_name ch"
  by (simp_all add: subscribe_def unsubscribe_def Let_def split: option.split prod.split)

lemma members_subscribe:
  "ch_members (snd (subscribe sid h p ch)) =
     (if dhas (ch_members ch) sid then ch_members ch
      else dput sid \<lparr>m_handle = h, m_presence = p\<rparr> (ch_members ch))"
  by (simp add: subscribe_def Let_def split: prod.split option.split)

lemma members_unsubscribe: "ch_members (snd (unsubscribe sid ch)) = ddel sid (ch_members ch)"
  by (simp add: unsubscribe_def Let_def ddel_absent split: prod.split option.split)

section \<open>Joining and leaving\<close>

interpretation chan: membership
  "\<lambda>sid ch. snd (subscribe sid (h sid) (p sid) ch)" "\<lambda>sid ch. snd (unsubscribe sid ch)"
  "\<lambda>ch. set (dkeys (ch_members ch))" ch_wf
  for h p
  by unfold_locales
     (auto simp: members_subscribe members_unsubscribe dkeys_dput dkeys_ddel dhas_iff
        simp del: set_map)

text \<open>The users with a connection in the channel.\<close>

definition ch_users :: "channel \<Rightarrow> string set" where
  "ch_users ch = {u. \<exists>(s, m)\<in>set (ch_members ch). member_user m = Some u}"

lemma ch_users_conns: "u \<in> ch_users ch \<longleftrightarrow> user_conns u (ch_members ch) \<noteq> 0"
  by (auto simp: ch_users_def user_conns_zero)

lemma refcounts_presence:
  assumes "ch_wf ch" "is_presence (ch_kind ch)"
  obtains refs where "ch_user_refcounts ch = Some refs" "refs_ok (ch_members ch) refs"
  using assms by (auto simp: ch_wf_def split: option.splits)

lemma has_user_id_iff:
  assumes "ch_wf ch"
  shows "has_user_id u ch \<longleftrightarrow> is_presence (ch_kind ch) \<and> u \<in> ch_users ch"
proof (cases "is_presence (ch_kind ch)")
  case True
  from assms True obtain refs where "ch_user_refcounts ch = Some refs" "refs_ok (ch_members ch) refs"
    by (rule refcounts_presence)
  with True show ?thesis by (simp add: has_user_id_def dhas_def refs_ok_def ch_users_conns)
next
  case False
  with assms show ?thesis by (auto simp: has_user_id_def ch_wf_def split: option.splits)
qed

lemma user_count_presence:
  assumes "ch_wf ch" "is_presence (ch_kind ch)"
  shows "user_count ch = card (ch_users ch)"
proof -
  from assms obtain refs where refs: "ch_user_refcounts ch = Some refs" "refs_ok (ch_members ch) refs"
    by (rule refcounts_presence)
  then have "fst ` set refs = {u. dget refs u \<noteq> None}"
    by (auto simp: map_of_eq_None_iff)
  also have "\<dots> = ch_users ch" using refs by (auto simp: ch_users_conns refs_ok_def)
  finally have "set (dkeys refs) = ch_users ch" by simp
  with refs show ?thesis
    by (simp add: user_count_def refs_ok_def dwf_def flip: distinct_card)
       (metis distinct_card length_map list.set_map)
qed

lemma subscribe_reports:
  assumes "ch_wf ch" "\<not> dhas (ch_members ch) sid"
  shows "sr_user_added (fst (subscribe sid h p ch)) \<longleftrightarrow> is_presence (ch_kind ch) \<and>
           (\<exists>pm. p = Some pm \<and> pm_user_id pm \<notin> ch_users ch)"
  using assms
  by (cases "ch_user_refcounts ch"; cases p)
     (auto simp: subscribe_def Let_def ch_wf_def refs_ok_def ch_users_conns split: if_splits)

lemma subscribe_again:
  "dhas (ch_members ch) sid \<Longrightarrow> subscribe sid h p ch =
     (\<lparr>sr_was_new = False, sr_user_added = False, sr_member_count = ch_len ch\<rparr>, ch)"
  by (simp add: subscribe_def)

lemma unsubscribe_reports:
  assumes "ch_wf ch"
  shows "uo_user_removed (fst (unsubscribe sid ch)) =
           (case presence_user_id sid ch of
              Some u \<Rightarrow> if is_presence (ch_kind ch) \<and> u \<notin> ch_users (snd (unsubscribe sid ch))
                       then Some u else None
            | None \<Rightarrow> None)"
proof (cases "dget (ch_members ch) sid")
  case None
  then show ?thesis by (simp add: unsubscribe_def presence_user_id_def)
next
  case (Some m)
  have wf: "dwf (ch_members ch)" using assms by (simp add: ch_wf_def)
  note conns = user_conns_ddel [OF wf Some]
  show ?thesis
    using Some assms members_unsubscribe [of sid ch]
    by (cases "ch_user_refcounts ch"; cases "m_presence m")
       (auto simp: unsubscribe_def Let_def ch_wf_def refs_ok_def ch_users_conns
          presence_user_id_def conns member_user_def split: if_splits)
qed

text \<open>A presence channel with one member, for the examples.\<close>

definition sample_handle :: "nat \<Rightarrow> connection_handle" where
  "sample_handle n = \<lparr>h_socket_id = socket_id_generate n n, h_tx = n\<rparr>"

definition sample_member :: presence_member where
  "sample_member = \<lparr>pm_user_id = ''u'', pm_user_info = None\<rparr>"

definition sample_channel :: channel where
  "sample_channel =
     snd (subscribe ''1.1'' (sample_handle 1) (Some sample_member) (with_cache_ttl ''presence-a'' None))"

lemma sample_channel_eq:
  "sample_channel =
     \<lparr>ch_name = ''presence-a'', ch_kind = Presence,
      ch_members = [(''1.1'', \<lparr>m_handle = sample_handle 1, m_presence = Some sample_member\<rparr>)],
      ch_user_refcounts = Some [(''u'', 1)], ch_cached_payload = None, ch_cache_ttl = None,
      ch_cache_miss_notified_at = None\<rparr>"
  by (simp add: sample_channel_def subscribe_def with_cache_ttl_def from_name_def starts_with_def
        dhas_def Let_def sample_member_def)

lemma sample_channel_wf: "ch_wf sample_channel"
  by (auto simp: sample_channel_def)

text \<open>
  What \<open>subscribe\<close> reports and does. A socket that is already a member is left alone; otherwise
  it is added, and \<open>user_added\<close> is set exactly when the channel is a presence channel and no other
  connection of that user is a member.
\<close>

theorem subscribe_spec:
  assumes "ch_wf ch"
  shows "let (r, ch') = subscribe sid h p ch in
           ch_wf ch' \<and>
           (if ch_contains sid ch then ch' = ch \<and> \<not> sr_was_new r \<and> \<not> sr_user_added r
            else sr_was_new r \<and>
              ch_members ch' = dput sid \<lparr>m_handle = h, m_presence = p\<rparr> (ch_members ch) \<and>
              (sr_user_added r \<longleftrightarrow> is_presence (ch_kind ch) \<and>
                 (\<exists>pm. p = Some pm \<and> pm_user_id pm \<notin> ch_users ch))) \<and>
           sr_member_count r = card (set (dkeys (ch_members ch')))"
proof -
  obtain r ch' where s: "subscribe sid h p ch = (r, ch')" by (cases "subscribe sid h p ch")
  have wf: "ch_wf ch'" using ch_wf_subscribe [OF assms, of sid h p] by (simp add: s)
  have count: "sr_member_count r = length (ch_members ch')"
    using s by (auto simp: subscribe_def Let_def ch_len_def split: if_splits prod.splits)
  have "dwf (ch_members ch')" using wf by (simp add: ch_wf_def)
  then have "sr_member_count r = card (set (dkeys (ch_members ch')))"
    unfolding count dwf_def by (metis distinct_card length_map)
  moreover have "sr_was_new r \<longleftrightarrow> \<not> dhas (ch_members ch) sid"
    using s by (auto simp: subscribe_def Let_def split: if_splits prod.splits)
  ultimately show ?thesis
    using s wf members_subscribe [of sid h p ch] subscribe_reports [OF assms, of sid h p]
      subscribe_again [of ch sid h p]
    by (auto simp: ch_contains_def)
qed

theorem subscribe_spec_witness:
  "sr_was_new (fst (subscribe ''2.2'' (sample_handle 2) (Some sample_member) sample_channel)) \<and>
   \<not> sr_user_added (fst (subscribe ''2.2'' (sample_handle 2) (Some sample_member) sample_channel))"
  using subscribe_spec [OF sample_channel_wf, of "''2.2''" "sample_handle 2" "Some sample_member"]
  by (auto simp: case_prod_beta ch_contains_def dhas_def sample_channel_eq ch_users_def
        member_user_def)

text \<open>
  What \<open>unsubscribe\<close> reports and does. The member is removed, its presence data is returned, and
  \<open>user_removed\<close> names its user exactly when no other connection of that user remains.
\<close>

theorem unsubscribe_spec:
  assumes "ch_wf ch"
  shows "let (r, ch') = unsubscribe sid ch in
           ch_wf ch' \<and> ch_members ch' = ddel sid (ch_members ch) \<and>
           (uo_was_member r \<longleftrightarrow> ch_contains sid ch) \<and>
           uo_presence r = Option.bind (dget (ch_members ch) sid) m_presence \<and>
           uo_member_count r = ch_len ch' \<and>
           uo_user_removed r =
             (case presence_user_id sid ch of
                Some u \<Rightarrow> if is_presence (ch_kind ch) \<and> u \<notin> ch_users ch' then Some u else None
              | None \<Rightarrow> None)"
proof -
  have "uo_was_member (fst (unsubscribe sid ch)) \<longleftrightarrow> ch_contains sid ch"
    "uo_presence (fst (unsubscribe sid ch)) = Option.bind (dget (ch_members ch) sid) m_presence"
    "uo_member_count (fst (unsubscribe sid ch)) = ch_len (snd (unsubscribe sid ch))"
    by (auto simp: unsubscribe_def ch_contains_def dhas_def Let_def split: option.splits prod.splits)
  with unsubscribe_reports [OF assms, of sid] ch_wf_unsubscribe [OF assms, of sid]
    members_unsubscribe [of sid ch] show ?thesis
    by (cases "unsubscribe sid ch") (simp split: option.split)
qed

theorem unsubscribe_spec_witness:
  "uo_user_removed (fst (unsubscribe ''1.1'' sample_channel)) = Some ''u''"
  using unsubscribe_spec [OF sample_channel_wf, of "''1.1''"]
  by (simp add: case_prod_beta presence_user_id_def ch_users_def members_unsubscribe
        sample_channel_eq sample_member_def)

text \<open>
  Leaving undoes joining: a new member that leaves again gives back the channel it joined,
  reference counts included.
\<close>

theorem unsubscribe_subscribe:
  assumes "ch_wf ch" "\<not> ch_contains sid ch"
  shows "snd (unsubscribe sid (snd (subscribe sid h p ch))) = ch"
proof -
  have none: "dget (ch_members ch) sid = None" using assms(2) by (simp add: ch_contains_def dhas_def)
  have restore: "ddel sid (dput sid m (ch_members ch)) = ch_members ch" for m
    using none by (rule ddel_dput_new)
  show ?thesis
  proof (cases "ch_user_refcounts ch")
    case None
    with none restore show ?thesis
      by (simp add: subscribe_def unsubscribe_def dhas_def Let_def)
  next
    case (Some refs)
    then have refs: "dwf refs" "\<And>u. dget refs u \<noteq> Some 0"
      using assms(1) by (auto simp: ch_wf_def refs_ok_def)
    show ?thesis
    proof (cases p)
      case None
      with Some none restore show ?thesis
        by (simp add: subscribe_def unsubscribe_def dhas_def Let_def)
    next
      case (Some pm)
      with \<open>ch_user_refcounts ch = Some refs\<close> none restore refs show ?thesis
        by (cases "dget refs (pm_user_id pm)")
           (auto simp: subscribe_def unsubscribe_def dhas_def Let_def dremove_if_def dput_same
              ddel_absent split: option.splits)
    qed
  qed
qed

theorem unsubscribe_subscribe_witness:
  "snd (unsubscribe ''2.2'' (snd (subscribe ''2.2'' (sample_handle 2) None sample_channel))) =
     sample_channel"
  by (rule unsubscribe_subscribe [OF sample_channel_wf])
     (simp add: ch_contains_def dhas_def sample_channel_eq)

section \<open>A channel's history\<close>

text \<open>
  Every operation that changes a channel, with the user transition it announces.
\<close>

datatype channel_op =
    Join socket_id connection_handle "presence_member option"
  | Leave socket_id
  | Publish instant string
  | ReadCache instant
  | ClaimMiss instant

datatype presence_event = UserAdded string | UserRemoved string

fun channel_do :: "channel_op \<Rightarrow> channel \<Rightarrow> channel \<times> presence_event list" where
  "channel_do (Join sid h p) ch =
     (case subscribe sid h p ch of (r, ch') \<Rightarrow>
        (ch', if sr_user_added r then map (UserAdded \<circ> pm_user_id) (case p of Some pm \<Rightarrow> [pm] | None \<Rightarrow> [])
              else []))"
| "channel_do (Leave sid) ch =
     (case unsubscribe sid ch of (r, ch') \<Rightarrow>
        (ch', case uo_user_removed r of Some u \<Rightarrow> [UserRemoved u] | None \<Rightarrow> []))"
| "channel_do (Publish now payload) ch = (fst (broadcast now payload None ch []), [])"
| "channel_do (ReadCache now) ch = (snd (cached_payload now ch), [])"
| "channel_do (ClaimMiss now) ch = (snd (claim_cache_miss_notification now ch), [])"

fun channel_run :: "channel_op list \<Rightarrow> channel \<Rightarrow> channel \<times> presence_event list" where
  "channel_run [] ch = (ch, [])"
| "channel_run (op # ops) ch =
     (case channel_do op ch of (ch', evs) \<Rightarrow>
        (case channel_run ops ch' of (ch'', evs') \<Rightarrow> (ch'', evs @ evs')))"

text \<open>
  The specification of a channel is its roster: which sockets are members, and the user of each.
  A user appears when its first socket joins and disappears when its last one leaves.
\<close>

type_synonym roster = "string \<rightharpoonup> string option"

definition roster_of :: "channel \<Rightarrow> roster" where
  "roster_of ch = (\<lambda>s. map_option member_user (dget (ch_members ch) s))"

definition roster_users :: "roster \<Rightarrow> string set" where
  "roster_users r = {u. Some u \<in> ran r}"

fun roster_do :: "bool \<Rightarrow> channel_op \<Rightarrow> roster \<Rightarrow> roster \<times> presence_event list" where
  "roster_do pres (Join sid h p) r =
     (if sid \<in> dom r then (r, [])
      else (r(sid \<mapsto> map_option pm_user_id p),
            case p of
              Some pm \<Rightarrow> if pres \<and> pm_user_id pm \<notin> roster_users r
                         then [UserAdded (pm_user_id pm)] else []
            | None \<Rightarrow> []))"
| "roster_do pres (Leave sid) r =
     (r(sid := None),
      case r sid of
        Some (Some u) \<Rightarrow> if pres \<and> u \<notin> roster_users (r(sid := None)) then [UserRemoved u] else []
      | _ \<Rightarrow> [])"
| "roster_do pres _ r = (r, [])"

fun roster_run :: "bool \<Rightarrow> channel_op list \<Rightarrow> roster \<Rightarrow> roster \<times> presence_event list" where
  "roster_run pres [] r = (r, [])"
| "roster_run pres (op # ops) r =
     (case roster_do pres op r of (r', evs) \<Rightarrow>
        (case roster_run pres ops r' of (r'', evs') \<Rightarrow> (r'', evs @ evs')))"

lemma roster_users_of: "dwf (ch_members ch) \<Longrightarrow> roster_users (roster_of ch) = ch_users ch"
  by (fastforce simp: roster_users_def roster_of_def ran_def ch_users_def dwf_in_iff)

lemma roster_users_join:
  "r sid = None \<Longrightarrow> roster_users (r(sid \<mapsto> v)) = roster_users r \<union> set_option v"
  by (auto simp: roster_users_def ran_def) (metis option.distinct(1))

lemma roster_users_leave:
  "u \<in> roster_users r \<longleftrightarrow> u \<in> roster_users (r(sid := None)) \<or> r sid = Some (Some u)"
  by (auto simp: roster_users_def ran_def)

lemma dom_roster: "sid \<in> dom (roster_of ch) \<longleftrightarrow> ch_contains sid ch"
  by (auto simp: roster_of_def dom_def ch_contains_def dhas_def)

lemma roster_do_refines:
  assumes "ch_wf ch"
  shows "roster_do (is_presence (ch_kind ch)) op (roster_of ch) =
           (roster_of (fst (channel_do op ch)), snd (channel_do op ch))"
    and "ch_wf (fst (channel_do op ch))" and "ch_kind (fst (channel_do op ch)) = ch_kind ch"
proof -
  have wf: "dwf (ch_members ch)" using assms by (simp add: ch_wf_def)
  note users = roster_users_of [OF wf]
  have leave: "(roster_of ch)(sid := None) = roster_of (snd (unsubscribe sid ch))" for sid
    by (rule ext) (simp add: roster_of_def members_unsubscribe)
  have users': "roster_users (roster_of (snd (unsubscribe sid ch))) =
      ch_users (snd (unsubscribe sid ch))" for sid
    using ch_wf_unsubscribe [OF assms] by (intro roster_users_of) (simp add: ch_wf_def)
  show "roster_do (is_presence (ch_kind ch)) op (roster_of ch) =
      (roster_of (fst (channel_do op ch)), snd (channel_do op ch))"
  proof (cases op)
    case (Join sid h p)
    show ?thesis
    proof (cases "dhas (ch_members ch) sid")
      case True
      with Join show ?thesis by (simp add: subscribe_again dom_roster ch_contains_def)
    next
      case False
      have "roster_of (snd (subscribe sid h p ch)) = (roster_of ch)(sid \<mapsto> map_option pm_user_id p)"
        by (rule ext) (simp add: roster_of_def members_subscribe False member_user_def)
      then show ?thesis
        using subscribe_reports [OF assms False, of h p] False
        by (simp add: Join dom_roster ch_contains_def users case_prod_beta split: option.split)
    qed
  next
    case (Leave sid)
    have "presence_user_id sid ch = Option.bind (roster_of ch sid) id"
      by (cases "dget (ch_members ch) sid")
         (simp_all add: presence_user_id_def roster_of_def member_user_def)
    then have "uo_user_removed (fst (unsubscribe sid ch)) =
        (case roster_of ch sid of
           Some (Some u) \<Rightarrow> if is_presence (ch_kind ch) \<and> u \<notin> ch_users (snd (unsubscribe sid ch))
                            then Some u else None
         | _ \<Rightarrow> None)"
      by (simp add: unsubscribe_reports [OF assms] split: option.split)
    then show ?thesis
      by (simp add: Leave leave users' case_prod_beta split: option.split)
  qed (simp_all add: roster_of_def broadcast_def Let_def)
  show "ch_wf (fst (channel_do op ch))"
    using assms by (cases op) (auto simp: case_prod_beta)
  show "ch_kind (fst (channel_do op ch)) = ch_kind ch"
    by (cases op) (auto simp: case_prod_beta broadcast_def Let_def)
qed

lemma roster_run_refines:
  "ch_wf ch \<Longrightarrow> roster_run (is_presence (ch_kind ch)) ops (roster_of ch) =
       (roster_of (fst (channel_run ops ch)), snd (channel_run ops ch)) \<and>
     ch_wf (fst (channel_run ops ch))"
proof (induction ops arbitrary: ch)
  case (Cons op ops)
  note step = roster_do_refines [OF Cons.prems, of op]
  obtain ch' evs where d: "channel_do op ch = (ch', evs)" by (cases "channel_do op ch")
  from Cons.IH [of ch'] step show ?case by (simp add: d case_prod_beta)
qed simp

text \<open>
  C3: A channel implements its roster. Over every history of joins, leaves, publishes and cache
  reads, in any order, the members are those of the specification, the announcements of users
  coming and going are exactly the specified ones, and the representation invariant (each user's
  reference count is its number of member connections) is kept.
\<close>

theorem channel_refines_roster:
  "let (ch, evs) = channel_run ops (with_cache_ttl name ttl) in
     roster_run (is_presence (from_name name)) ops Map.empty = (roster_of ch, evs) \<and> ch_wf ch"
proof -
  have "roster_of (with_cache_ttl name ttl) = Map.empty"
    by (rule ext) (simp add: roster_of_def with_cache_ttl_def Let_def)
  moreover have "ch_kind (with_cache_ttl name ttl) = from_name name"
    by (simp add: with_cache_ttl_def Let_def)
  ultimately show ?thesis
    using roster_run_refines [OF ch_wf_new, of name ttl ops] by (simp add: case_prod_beta)
qed

text \<open>The announcements about one user, as booleans: appeared or disappeared.\<close>

fun about :: "string \<Rightarrow> presence_event list \<Rightarrow> bool list" where
  "about u [] = []"
| "about u (UserAdded v # es) = (if v = u then True # about u es else about u es)"
| "about u (UserRemoved v # es) = (if v = u then False # about u es else about u es)"

fun alternates :: "bool \<Rightarrow> bool list \<Rightarrow> bool" where
  "alternates b [] = True"
| "alternates b (x # xs) = (x \<noteq> b \<and> alternates x xs)"

lemma about_append: "about u (xs @ ys) = about u xs @ about u ys"
  by (induction u xs rule: about.induct) auto

lemma roster_do_about:
  assumes "roster_do True op r = (r', evs)"
  shows "about u evs = [] \<and> (u \<in> roster_users r' \<longleftrightarrow> u \<in> roster_users r) \<or>
         about u evs = [u \<in> roster_users r'] \<and> (u \<in> roster_users r' \<longleftrightarrow> u \<notin> roster_users r)"
proof (cases op)
  case (Join sid h p)
  then show ?thesis
    using assms by (auto simp: roster_users_join split: if_splits option.splits)
next
  case (Leave sid)
  then show ?thesis
    using assms roster_users_leave [of u r sid] by (auto split: if_splits option.splits)
qed (use assms in auto)

lemma roster_run_alternates:
  "alternates (u \<in> roster_users r) (about u (snd (roster_run True ops r)))"
proof (induction ops arbitrary: r)
  case (Cons op ops)
  obtain r' evs where d: "roster_do True op r = (r', evs)" by (cases "roster_do True op r")
  from roster_do_about [OF d, of u] Cons.IH [of r'] show ?case
    by (auto simp: d about_append split: prod.split)
qed simp

text \<open>
  C23: On a presence channel the announcements about each user strictly alternate, starting with an
  arrival: nobody is announced as having joined twice, or as having left without having joined,
  over any history.
\<close>

theorem presence_announcements_alternate:
  assumes "is_presence (from_name name)"
  shows "alternates False (about u (snd (channel_run ops (with_cache_ttl name ttl))))"
proof -
  have "snd (channel_run ops (with_cache_ttl name ttl)) = snd (roster_run True ops Map.empty)"
    using roster_run_refines [OF ch_wf_new, of name ttl ops] assms
    by (simp add: with_cache_ttl_def Let_def roster_of_def)
  then show ?thesis
    using roster_run_alternates [of u Map.empty ops] by (simp add: roster_users_def)
qed

theorem presence_announcements_alternate_witness:
  "alternates False (about ''u'' (snd (channel_run
     [Join ''1.1'' (sample_handle 1) (Some sample_member), Leave ''1.1'']
     (with_cache_ttl ''presence-a'' None))))"
  by (rule presence_announcements_alternate) (simp add: from_name_def starts_with_def)

section \<open>Broadcasts and the cache\<close>

lemma filter_tx_distinct:
  "distinct (map f xs) \<Longrightarrow>
     length (filter (\<lambda>x. f x = tx) xs) = (if tx \<in> f ` set xs then 1 else 0)"
  by (induction xs) auto

lemma recipients_tx:
  "h_tx ` set (recipients except ch) =
     {h_tx (m_handle m) | s m. (s, m) \<in> set (ch_members ch) \<and> except \<noteq> Some s}"
  by (force simp: recipients_def split: option.splits)

lemma recipients_distinct:
  assumes "distinct (map (\<lambda>(_, m). h_tx (m_handle m)) (ch_members ch))"
  shows "distinct (map h_tx (recipients except ch))"
  using distinct_map_filter [OF assms, of "\<lambda>(k, _). case except of Some ex \<Rightarrow> k \<noteq> ex | None \<Rightarrow> True"]
  by (simp add: recipients_def comp_def case_prod_unfold)

text \<open>
  C28: A broadcast puts the payload exactly once into the mailbox of every member except the one
  excluded (or marks that mailbox for closing when it is full) and changes no other mailbox; a
  cache channel then replays the payload until its time to live has passed and never after.
\<close>

theorem broadcast_spec:
  assumes "ch_wf ch" and "distinct (map (\<lambda>(_, m). h_tx (m_handle m)) (ch_members ch))"
  shows "let (ch', net') = broadcast now payload except ch net in
           dget net' tx =
             (if tx \<in> {h_tx (m_handle m) | s m. (s, m) \<in> set (ch_members ch) \<and> except \<noteq> Some s}
              then map_option (snd \<circ> deliver (Text payload)) (dget net tx) else dget net tx) \<and>
           ch_members ch' = ch_members ch \<and>
           fst (cached_payload later ch') =
             (if is_cache (ch_kind ch) \<and>
                 (case ch_cache_ttl ch of Some ttl \<Rightarrow> later - now \<le> ttl | None \<Rightarrow> True)
              then Some payload else None)"
proof -
  have "dget (send_to_members payload except ch net) tx =
      (if tx \<in> h_tx ` set (recipients except ch)
       then map_option (snd \<circ> deliver (Text payload)) (dget net tx) else dget net tx)"
    using filter_tx_distinct [OF recipients_distinct [OF assms(2)], of tx except]
    by (simp add: send_to_members_def dget_send_all option.map_id)
  moreover have "fst (cached_payload later (fst (broadcast now payload except ch net))) =
      (if is_cache (ch_kind ch) \<and>
          (case ch_cache_ttl ch of Some ttl \<Rightarrow> later - now \<le> ttl | None \<Rightarrow> True)
       then Some payload else None)"
    using assms(1)
    by (auto simp: broadcast_def cached_payload_def set_cached_payload_def Let_def ch_wf_def
          split: option.splits)
  ultimately show ?thesis by (simp add: broadcast_def Let_def recipients_tx)
qed

theorem broadcast_spec_witness:
  "dget (snd (broadcast 0 ''hi'' None sample_channel
       [(1, \<lparr>mb_queue = [], mb_capacity = 1, mb_closed = False, mb_kick = False\<rparr>)])) 1 =
     Some \<lparr>mb_queue = [Text ''hi''], mb_capacity = 1, mb_closed = False, mb_kick = False\<rparr>"
  using broadcast_spec [OF sample_channel_wf, of 0 "''hi''" None
      "[(1, \<lparr>mb_queue = [], mb_capacity = 1, mb_closed = False, mb_kick = False\<rparr>)]" 1 0]
  by (simp add: case_prod_beta sample_channel_eq sample_handle_def deliver_def)

text \<open>The claims, at the given instants, that are granted.\<close>

fun granted_claims :: "instant list \<Rightarrow> channel \<Rightarrow> instant list" where
  "granted_claims [] ch = []"
| "granted_claims (t # ts) ch =
     (case claim_cache_miss_notification t ch of (ok, ch') \<Rightarrow>
        (if ok then [t] else []) @ granted_claims ts ch')"

lemma granted_claims_after:
  "ch_cache_miss_notified_at ch = Some t0 \<Longrightarrow> sorted ts \<Longrightarrow> \<forall>t\<in>set ts. t0 \<le> t \<Longrightarrow>
     sorted_wrt (\<lambda>a b. a + CACHE_MISS_WEBHOOK_INTERVAL \<le> b) (granted_claims ts ch) \<and>
     (\<forall>t\<in>set (granted_claims ts ch). t0 + CACHE_MISS_WEBHOOK_INTERVAL \<le> t)"
proof (induction ts arbitrary: ch t0)
  case (Cons t ts)
  let ?i = CACHE_MISS_WEBHOOK_INTERVAL
  show ?case
  proof (cases "t - t0 < ?i")
    case True
    with Cons.prems have "claim_cache_miss_notification t ch = (False, ch)"
      by (simp add: claim_cache_miss_notification_def)
    with Cons.IH [OF Cons.prems(1)] Cons.prems show ?thesis by simp
  next
    case False
    with Cons.prems have c: "claim_cache_miss_notification t ch =
        (True, ch\<lparr>ch_cache_miss_notified_at := Some t\<rparr>)" and le: "t0 + ?i \<le> t"
      by (auto simp: claim_cache_miss_notification_def)
    have "sorted_wrt (\<lambda>a b. a + ?i \<le> b)
        (granted_claims ts (ch\<lparr>ch_cache_miss_notified_at := Some t\<rparr>)) \<and>
      (\<forall>x\<in>set (granted_claims ts (ch\<lparr>ch_cache_miss_notified_at := Some t\<rparr>)). t + ?i \<le> x)"
      using Cons.prems by (intro Cons.IH) auto
    with c le show ?thesis by (fastforce intro: order_trans)
  qed
qed simp

text \<open>
  Cache-miss webhooks are throttled: however many subscribers find a cache channel empty, two
  granted notifications without a publish between them are at least the configured minute apart.
\<close>

theorem cache_miss_throttled:
  assumes "sorted ts"
  shows "sorted_wrt (\<lambda>a b. a + CACHE_MISS_WEBHOOK_INTERVAL \<le> b) (granted_claims ts ch)"
  using assms
proof (induction ts arbitrary: ch)
  case (Cons t ts)
  show ?case
  proof (cases "claim_cache_miss_notification t ch")
    case (Pair ok ch')
    show ?thesis
    proof (cases ok)
      case True
      with Pair have "ch_cache_miss_notified_at ch' = Some t"
        by (auto simp: claim_cache_miss_notification_def split: if_splits)
      from granted_claims_after [OF this, of ts] Cons.prems Pair True show ?thesis by simp
    next
      case False
      with Cons Pair show ?thesis by simp
    qed
  qed
qed simp

theorem cache_miss_throttled_witness:
  "sorted_wrt (\<lambda>a b. a + CACHE_MISS_WEBHOOK_INTERVAL \<le> b)
     (granted_claims [1, 2, 60000000001] (with_cache_ttl ''cache-a'' None))"
  by (rule cache_miss_throttled) simp

end
