(* ===== verification/Channel_Manager.thy ===== *)
theory Channel_Manager
  imports Channel_Model
begin

text \<open>
  The registry of a node (\<open>zatat-channels/src/manager.rs\<close>): for every application its connections,
  channels, signed-in users and watchlists. Channels are stored by value. The closures that
  \<open>subscribe_with\<close> and \<open>unsubscribe_with\<close> run under the locks are higher-order arguments over a
  state of their own: they read the channel they are given and may not call back into the
  registry, which is why the registry is not part of that state.
\<close>

section \<open>State\<close>

datatype channel_manager_error = ConnectionLimitReached

record subscribe_outcome =
  so_was_new :: bool
  so_user_added :: bool
  so_member_count :: nat
  so_presence_snapshot :: "presence_data option"
  so_cached_payload :: "string option"
  so_kind :: channel_kind

record app_channels =
  ac_connections :: "(string, connection_handle) dmap"
  ac_channels :: "(string, channel) dmap"
  ac_user_index :: "(string, string list) dmap"
  ac_watchers :: "(string, string list) dmap"
  ac_user_locks :: "(string, nat) dmap"

type_synonym manager = "(string, app_channels) dmap"

definition app_channels_default :: app_channels where
  "app_channels_default =
     \<lparr>ac_connections = [], ac_channels = [], ac_user_index = [], ac_watchers = [],
      ac_user_locks = []\<rparr>"

definition manager_new :: manager where
  "manager_new = []"

section \<open>Applications and connections\<close>

definition app_slot :: "app_id \<Rightarrow> manager \<Rightarrow> app_channels" where
  "app_slot aid mgr = (case dget mgr aid of Some slot \<Rightarrow> slot | None \<Rightarrow> app_channels_default)"

text \<open>
  Registering takes three steps on the shared map, with no lock across them: the connection is
  inserted, then the number of connections is read and compared with the limit (\<open>len() as u32\<close>), and
  if it is above the limit the connection is removed again. \<open>register_connection\<close> is the three in
  one go; the section on registration below lets them interleave.
\<close>

definition insert_connection :: "app_id \<Rightarrow> connection_handle \<Rightarrow> manager \<Rightarrow> manager" where
  "insert_connection aid h mgr =
     (let slot = app_slot aid mgr
      in dput aid (slot\<lparr>ac_connections := dput (h_socket_id h) h (ac_connections slot)\<rparr>) mgr)"

definition over_limit :: "nat option \<Rightarrow> app_id \<Rightarrow> manager \<Rightarrow> bool" where
  "over_limit limit aid mgr =
     (case limit of
        Some mx \<Rightarrow> length (ac_connections (app_slot aid mgr)) mod 2 ^ 32 > mx
      | None \<Rightarrow> False)"

definition remove_connection :: "app_id \<Rightarrow> socket_id \<Rightarrow> manager \<Rightarrow> manager" where
  "remove_connection aid sid mgr =
     (let slot = app_slot aid mgr
      in dput aid (slot\<lparr>ac_connections := ddel sid (ac_connections slot)\<rparr>) mgr)"

definition register_connection ::
  "application \<Rightarrow> connection_handle \<Rightarrow> manager \<Rightarrow> (channel_manager_error + unit) \<times> manager" where
  "register_connection app h mgr =
     (let mgr1 = insert_connection (app_id app) h mgr
      in if over_limit (max_connections app) (app_id app) mgr1
         then (Inl ConnectionLimitReached, remove_connection (app_id app) (h_socket_id h) mgr1)
         else (Inr (), mgr1))"

definition unregister_connection :: "app_id \<Rightarrow> socket_id \<Rightarrow> manager \<Rightarrow> manager" where
  "unregister_connection aid sid mgr =
     (case dget mgr aid of
        Some slot \<Rightarrow> dput aid (slot\<lparr>ac_connections := ddel sid (ac_connections slot)\<rparr>) mgr
      | None \<Rightarrow> mgr)"

definition connection_handles :: "app_id \<Rightarrow> manager \<Rightarrow> connection_handle list" where
  "connection_handles aid mgr =
     (case dget mgr aid of Some slot \<Rightarrow> map snd (ac_connections slot) | None \<Rightarrow> [])"

definition mgr_channel_count :: "app_id \<Rightarrow> manager \<Rightarrow> nat" where
  "mgr_channel_count aid mgr =
     (case dget mgr aid of Some slot \<Rightarrow> length (ac_channels slot) | None \<Rightarrow> 0)"

definition connection_count :: "app_id \<Rightarrow> manager \<Rightarrow> nat" where
  "connection_count aid mgr =
     (case dget mgr aid of Some slot \<Rightarrow> length (ac_connections slot) | None \<Rightarrow> 0)"

definition handle_for_socket :: "app_id \<Rightarrow> socket_id \<Rightarrow> manager \<Rightarrow> connection_handle option" where
  "handle_for_socket aid sid mgr =
     Option.bind (dget mgr aid) (\<lambda>slot. dget (ac_connections slot) sid)"

section \<open>Channels\<close>

text \<open>The test under which an entry of the channel map is dropped.\<close>

definition channel_idle :: "instant \<Rightarrow> channel \<Rightarrow> bool" where
  "channel_idle now ch \<longleftrightarrow> ch_is_empty ch \<and> fst (cached_payload now ch) = None"

definition app_cache_ttl :: "application \<Rightarrow> duration option" where
  "app_cache_ttl app = map_option from_secs (cache_ttl_seconds app)"

definition subscribe_with ::
  "instant \<Rightarrow> application \<Rightarrow> channel_name \<Rightarrow> socket_id \<Rightarrow> connection_handle \<Rightarrow>
   presence_member option \<Rightarrow> (channel \<Rightarrow> 's \<Rightarrow> bool \<times> 's) \<Rightarrow>
   (channel \<Rightarrow> subscribe_result \<Rightarrow> 's \<Rightarrow> 's) \<Rightarrow> manager \<Rightarrow> 's \<Rightarrow>
   subscribe_outcome option \<times> manager \<times> 's" where
  "subscribe_with now app name sid h p admit on_subscribed mgr s =
     (let slot = app_slot (app_id app) mgr;
          channels = dentry name (with_cache_ttl name (app_cache_ttl app)) (ac_channels slot);
          channel = (case dget channels name of Some ch \<Rightarrow> ch
                     | None \<Rightarrow> with_cache_ttl name (app_cache_ttl app));
          (ok, s1) = admit channel s
      in if \<not> ok
         then (None,
               dput (app_id app)
                 (slot\<lparr>ac_channels := dremove_if name (channel_idle now) channels\<rparr>) mgr,
               s1)
         else
           (let (r, ch1) = subscribe sid h p channel;
                snapshot = presence_snapshot ch1;
                s2 = on_subscribed ch1 r s1;
                (cached, ch2) = (if is_cache (ch_kind ch1) then cached_payload now ch1 else (None, ch1))
            in (Some \<lparr>so_was_new = sr_was_new r, so_user_added = sr_user_added r,
                      so_member_count = sr_member_count r, so_presence_snapshot = snapshot,
                      so_cached_payload = cached, so_kind = ch_kind ch2\<rparr>,
                dput (app_id app) (slot\<lparr>ac_channels := dput name ch2 channels\<rparr>) mgr,
                s2)))"

definition mgr_subscribe ::
  "instant \<Rightarrow> application \<Rightarrow> channel_name \<Rightarrow> socket_id \<Rightarrow> connection_handle \<Rightarrow>
   presence_member option \<Rightarrow> manager \<Rightarrow> subscribe_outcome option \<times> manager" where
  "mgr_subscribe now app name sid h p mgr =
     (case subscribe_with now app name sid h p (\<lambda>_ s. (True, s)) (\<lambda>_ _ s. s) mgr () of
        (out, mgr', _) \<Rightarrow> (out, mgr'))"

definition unsubscribe_with ::
  "instant \<Rightarrow> app_id \<Rightarrow> channel_name \<Rightarrow> socket_id \<Rightarrow>
   (channel \<Rightarrow> unsubscribe_outcome \<Rightarrow> 's \<Rightarrow> 's) \<Rightarrow> manager \<Rightarrow> 's \<Rightarrow>
   unsubscribe_outcome option \<times> manager \<times> 's" where
  "unsubscribe_with now aid name sid on_unsubscribed mgr s =
     (case dget mgr aid of
        None \<Rightarrow> (None, mgr, s)
      | Some slot \<Rightarrow>
          (case dget (ac_channels slot) name of
             None \<Rightarrow> (None, mgr, s)
           | Some channel \<Rightarrow>
               (let (outcome, ch1) = unsubscribe sid channel;
                    s1 = on_unsubscribed ch1 outcome s;
                    channels = dremove_if name (channel_idle now) (dput name ch1 (ac_channels slot))
                in (Some outcome, dput aid (slot\<lparr>ac_channels := channels\<rparr>) mgr, s1))))"

definition mgr_unsubscribe ::
  "instant \<Rightarrow> app_id \<Rightarrow> channel_name \<Rightarrow> socket_id \<Rightarrow> manager \<Rightarrow>
   unsubscribe_outcome option \<times> manager" where
  "mgr_unsubscribe now aid name sid mgr =
     (case unsubscribe_with now aid name sid (\<lambda>_ _ s. s) mgr () of (out, mgr', _) \<Rightarrow> (out, mgr'))"

definition find_channel :: "app_id \<Rightarrow> channel_name \<Rightarrow> manager \<Rightarrow> channel option" where
  "find_channel aid name mgr =
     Option.bind (dget mgr aid) (\<lambda>slot. dget (ac_channels slot) name)"

definition get_or_create_cache_channel ::
  "application \<Rightarrow> channel_name \<Rightarrow> manager \<Rightarrow> channel option \<times> manager" where
  "get_or_create_cache_channel app name mgr =
     (let kind = from_name name in
      if \<not> is_cache kind then (find_channel (app_id app) name mgr, mgr)
      else
        (let slot = app_slot (app_id app) mgr;
             channels = dentry name (with_cache_ttl name (app_cache_ttl app)) (ac_channels slot)
         in (dget channels name, dput (app_id app) (slot\<lparr>ac_channels := channels\<rparr>) mgr)))"

text \<open>
  Writing back a channel that was reached through the map: the channel is shared there, so an
  operation on it changes the entry.
\<close>

definition store_channel :: "app_id \<Rightarrow> channel \<Rightarrow> manager \<Rightarrow> manager" where
  "store_channel aid ch mgr =
     (case dget mgr aid of
        Some slot \<Rightarrow> dput aid (slot\<lparr>ac_channels := dput (ch_name ch) ch (ac_channels slot)\<rparr>) mgr
      | None \<Rightarrow> mgr)"

fun gc_names :: "instant \<Rightarrow> string list \<Rightarrow> nat \<Rightarrow> (string, channel) dmap \<Rightarrow>
    nat \<times> (string, channel) dmap" where
  "gc_names now [] removed chans = (removed, chans)"
| "gc_names now (name # names) removed chans =
     (let chans' = dremove_if name (channel_idle now) chans;
          gone = (case dget chans name of Some ch \<Rightarrow> channel_idle now ch | None \<Rightarrow> False)
      in gc_names now names (if gone then removed + 1 else removed) chans')"

fun gc_slots :: "instant \<Rightarrow> manager \<Rightarrow> nat \<Rightarrow> nat \<times> manager" where
  "gc_slots now [] removed = (removed, [])"
| "gc_slots now ((aid, slot) # rest) removed =
     (let names = map fst (filter (\<lambda>(_, ch). is_cache (ch_kind ch)) (ac_channels slot));
          (removed1, chans) = gc_names now names removed (ac_channels slot);
          (removed2, rest') = gc_slots now rest removed1
      in (removed2, (aid, slot\<lparr>ac_channels := chans\<rparr>) # rest'))"

definition gc_empty_cache_channels :: "instant \<Rightarrow> manager \<Rightarrow> nat \<times> manager" where
  "gc_empty_cache_channels now mgr = gc_slots now mgr 0"

definition mgr_channels :: "app_id \<Rightarrow> manager \<Rightarrow> channel list" where
  "mgr_channels aid mgr =
     (case dget mgr aid of Some slot \<Rightarrow> map snd (ac_channels slot) | None \<Rightarrow> [])"

definition mgr_channel_stats :: "instant \<Rightarrow> app_id \<Rightarrow> channel_name \<Rightarrow> manager \<Rightarrow> channel_stats option" where
  "mgr_channel_stats now aid name mgr = map_option (stats now) (find_channel aid name mgr)"

section \<open>Users and watchlists\<close>

text \<open>
  The two halves of \<open>with_user_transition\<close>: taking a clone of the user's lock, and giving it back.
  The number stored with a user is how many clones are outside the map.
\<close>

definition user_lock_enter :: "app_id \<Rightarrow> string \<Rightarrow> manager \<Rightarrow> manager" where
  "user_lock_enter aid uid mgr =
     (let slot = app_slot aid mgr;
          n = (case dget (ac_user_locks slot) uid of Some n \<Rightarrow> n | None \<Rightarrow> 0)
      in dput aid (slot\<lparr>ac_user_locks := dput uid (n + 1) (ac_user_locks slot)\<rparr>) mgr)"

definition user_lock_exit :: "app_id \<Rightarrow> string \<Rightarrow> manager \<Rightarrow> manager" where
  "user_lock_exit aid uid mgr =
     (let slot = app_slot aid mgr in
      case dget (ac_user_locks slot) uid of
        None \<Rightarrow> mgr
      | Some n \<Rightarrow>
          dput aid (slot\<lparr>ac_user_locks :=
            dremove_if uid (\<lambda>n. n = 0) (dput uid (n - 1) (ac_user_locks slot))\<rparr>) mgr)"

definition bind_user :: "app_id \<Rightarrow> string \<Rightarrow> socket_id \<Rightarrow> manager \<Rightarrow> bool \<times> manager" where
  "bind_user aid uid sid mgr =
     (let slot = app_slot aid mgr;
          entry = (case dget (ac_user_index slot) uid of Some l \<Rightarrow> l | None \<Rightarrow> []);
          was_empty = (entry = []);
          entry' = (if sid \<in> set entry then entry else entry @ [sid])
      in (was_empty, dput aid (slot\<lparr>ac_user_index := dput uid entry' (ac_user_index slot)\<rparr>) mgr))"

definition local_user_ids :: "app_id \<Rightarrow> manager \<Rightarrow> string list" where
  "local_user_ids aid mgr =
     (case dget mgr aid of
        Some slot \<Rightarrow> map fst (filter (\<lambda>(_, l). l \<noteq> []) (ac_user_index slot))
      | None \<Rightarrow> [])"

definition unbind_user :: "app_id \<Rightarrow> string \<Rightarrow> socket_id \<Rightarrow> manager \<Rightarrow> bool \<times> manager" where
  "unbind_user aid uid sid mgr =
     (case dget mgr aid of
        None \<Rightarrow> (False, mgr)
      | Some slot \<Rightarrow>
          (case dget (ac_user_index slot) uid of
             None \<Rightarrow> (False, mgr)
           | Some l \<Rightarrow>
               (let l' = filter (\<lambda>s. s \<noteq> sid) l in
                if l' = []
                then (True, dput aid (slot\<lparr>ac_user_index := ddel uid (ac_user_index slot)\<rparr>) mgr)
                else (False,
                      dput aid (slot\<lparr>ac_user_index := dput uid l' (ac_user_index slot)\<rparr>) mgr))))"

definition connections_for_user :: "app_id \<Rightarrow> string \<Rightarrow> manager \<Rightarrow> connection_handle list" where
  "connections_for_user aid uid mgr =
     (case dget mgr aid of
        None \<Rightarrow> []
      | Some slot \<Rightarrow>
          (case dget (ac_user_index slot) uid of
             None \<Rightarrow> []
           | Some sids \<Rightarrow> List.map_filter (dget (ac_connections slot)) sids))"

definition is_user_online :: "app_id \<Rightarrow> string \<Rightarrow> manager \<Rightarrow> bool" where
  "is_user_online aid uid mgr =
     (case Option.bind (dget mgr aid) (\<lambda>slot. dget (ac_user_index slot) uid) of
        Some l \<Rightarrow> l \<noteq> [] | None \<Rightarrow> False)"

definition add_watcher :: "app_id \<Rightarrow> string \<Rightarrow> string \<Rightarrow> manager \<Rightarrow> manager" where
  "add_watcher aid watched watcher mgr =
     (let slot = app_slot aid mgr;
          entry = (case dget (ac_watchers slot) watched of Some l \<Rightarrow> l | None \<Rightarrow> [])
      in dput aid (slot\<lparr>ac_watchers := dput watched (hs_insert watcher entry) (ac_watchers slot)\<rparr>) mgr)"

definition watchers_of :: "app_id \<Rightarrow> string \<Rightarrow> manager \<Rightarrow> string list" where
  "watchers_of aid watched mgr =
     (case Option.bind (dget mgr aid) (\<lambda>slot. dget (ac_watchers slot) watched) of
        Some l \<Rightarrow> l | None \<Rightarrow> [])"

text \<open>The loop over the watched users; it returns early when the watcher is found online.\<close>

fun drop_watches ::
  "string list \<Rightarrow> string \<Rightarrow> app_channels \<Rightarrow> app_channels" where
  "drop_watches [] watcher slot = slot"
| "drop_watches (watched # rest) watcher slot =
     (case dget (ac_watchers slot) watched of
        None \<Rightarrow> drop_watches rest watcher slot
      | Some l \<Rightarrow>
          (let online = (case dget (ac_user_index slot) watcher of
                           Some sockets \<Rightarrow> sockets \<noteq> [] | None \<Rightarrow> False) in
           if online then slot
           else
             (let l' = hs_remove watcher l;
                  ws = (if l' = [] then ddel watched (ac_watchers slot)
                        else dput watched l' (ac_watchers slot))
              in drop_watches rest watcher (slot\<lparr>ac_watchers := ws\<rparr>))))"

definition remove_all_watches_for :: "app_id \<Rightarrow> string \<Rightarrow> manager \<Rightarrow> manager" where
  "remove_all_watches_for aid watcher mgr =
     (case dget mgr aid of
        None \<Rightarrow> mgr
      | Some slot \<Rightarrow> dput aid (drop_watches (dkeys (ac_watchers slot)) watcher slot) mgr)"

section \<open>The registry's invariant\<close>

definition channel_entry_ok :: "string \<Rightarrow> channel \<Rightarrow> bool" where
  "channel_entry_ok k ch \<longleftrightarrow>
     ch_wf ch \<and> ch_name ch = k \<and> (\<not> is_cache (ch_kind ch) \<longrightarrow> \<not> ch_is_empty ch)"

definition slot_wf :: "app_channels \<Rightarrow> bool" where
  "slot_wf slot \<longleftrightarrow>
     dwf (ac_connections slot) \<and> dall (\<lambda>k h. h_socket_id h = k) (ac_connections slot) \<and>
     dwf (ac_channels slot) \<and> dall channel_entry_ok (ac_channels slot) \<and>
     dwf (ac_user_index slot) \<and> dall (\<lambda>_ l. l \<noteq> [] \<and> distinct l) (ac_user_index slot) \<and>
     dwf (ac_watchers slot) \<and> dall (\<lambda>_ l. l \<noteq> [] \<and> distinct l) (ac_watchers slot) \<and>
     dwf (ac_user_locks slot) \<and> dall (\<lambda>_ n. n \<noteq> 0) (ac_user_locks slot)"

definition mgr_wf :: "manager \<Rightarrow> bool" where
  "mgr_wf mgr \<longleftrightarrow> dwf mgr \<and> dall (\<lambda>_. slot_wf) mgr"

lemma slot_wf_default [simp, intro]: "slot_wf app_channels_default"
  by (simp add: slot_wf_def app_channels_default_def)

lemma mgr_wf_new [simp, intro]: "mgr_wf manager_new"
  by (simp add: mgr_wf_def manager_new_def)

lemma app_slot_put [simp]:
  "app_slot aid (dput a slot mgr) = (if aid = a then slot else app_slot aid mgr)"
  by (simp add: app_slot_def)

lemma mgr_wf_get: "mgr_wf mgr \<Longrightarrow> dget mgr aid = Some slot \<Longrightarrow> slot_wf slot"
  by (auto simp: mgr_wf_def dest: dall_get)

lemma slot_wf_app_slot [intro]: "mgr_wf mgr \<Longrightarrow> slot_wf (app_slot aid mgr)"
  by (auto simp: app_slot_def split: option.split dest: mgr_wf_get)

lemma mgr_wf_put [intro]: "mgr_wf mgr \<Longrightarrow> slot_wf slot \<Longrightarrow> mgr_wf (dput aid slot mgr)"
  by (auto simp: mgr_wf_def zwf)

lemma channel_entryD:
  "slot_wf slot \<Longrightarrow> dget (ac_channels slot) name = Some ch \<Longrightarrow> ch_wf ch \<and> ch_name ch = name"
  by (auto simp: slot_wf_def channel_entry_ok_def dest: dall_get)

lemma slot_wf_channels:
  "slot_wf slot \<Longrightarrow> dwf chans \<Longrightarrow> dall channel_entry_ok chans \<Longrightarrow>
     slot_wf (slot\<lparr>ac_channels := chans\<rparr>)"
  by (simp add: slot_wf_def)

lemma channel_idle_noncache:
  "ch_wf ch \<Longrightarrow> \<not> is_cache (ch_kind ch) \<Longrightarrow> channel_idle now ch \<longleftrightarrow> ch_is_empty ch"
  by (auto simp: channel_idle_def ch_wf_def cached_payload_def split: option.splits)

lemma ch_name_new [simp]: "ch_name (with_cache_ttl name ttl) = name"
  "ch_kind (with_cache_ttl name ttl) = from_name name"
  by (simp_all add: with_cache_ttl_def Let_def)

lemma subscribe_nonempty [simp]: "\<not> ch_is_empty (snd (subscribe sid h p ch))"
proof -
  have "sid \<in> set (dkeys (ch_members (snd (subscribe sid h p ch))))"
    by (simp add: members_subscribe dhas_iff [symmetric] del: set_map)
       (simp add: dhas_def)
  then show ?thesis by (auto simp: ch_is_empty_def)
qed

text \<open>What the entry call hands out: the channel stored under the name, or a fresh one.\<close>

definition channel_at :: "application \<Rightarrow> channel_name \<Rightarrow> manager \<Rightarrow> channel" where
  "channel_at app name mgr =
     (case dget (ac_channels (app_slot (app_id app) mgr)) name of
        Some ch \<Rightarrow> ch | None \<Rightarrow> with_cache_ttl name (app_cache_ttl app))"

lemma channel_at_wf: "mgr_wf mgr \<Longrightarrow> ch_wf (channel_at app name mgr) \<and> ch_name (channel_at app name mgr) = name"
  by (auto simp: channel_at_def split: option.split
        dest: channel_entryD [OF slot_wf_app_slot])

lemma dput_dentry [simp]: "dput k w (dentry k v m) = dput k w m"
  by (simp add: dentry_def split: option.split)

lemma dentry_eq_dput: "dentry k v m = dput k (case dget m k of Some w \<Rightarrow> w | None \<Rightarrow> v) m"
  by (auto simp: dentry_def dput_same split: option.split)

text \<open>The two outcomes of \<open>subscribe_with\<close>, each as one update of the application's channels.\<close>

lemma subscribe_with_cases:
  "subscribe_with now app name sid h p admit on_sub mgr s =
    (let ch = channel_at app name mgr; slot = app_slot (app_id app) mgr; (ok, s1) = admit ch s in
     if \<not> ok
     then (None, dput (app_id app) (slot\<lparr>ac_channels :=
             dremove_if name (channel_idle now) (dput name ch (ac_channels slot))\<rparr>) mgr, s1)
     else
       (let (r, ch1) = subscribe sid h p ch;
            (cached, ch2) = (if is_cache (ch_kind ch1) then cached_payload now ch1 else (None, ch1))
        in (Some \<lparr>so_was_new = sr_was_new r, so_user_added = sr_user_added r,
                  so_member_count = sr_member_count r,
                  so_presence_snapshot = presence_snapshot ch1,
                  so_cached_payload = cached, so_kind = ch_kind ch2\<rparr>,
            dput (app_id app) (slot\<lparr>ac_channels := dput name ch2 (ac_channels slot)\<rparr>) mgr,
            on_sub ch1 r s1)))"
proof -
  let ?m = "ac_channels (app_slot (app_id app) mgr)"
  have entry: "dentry name (with_cache_ttl name (app_cache_ttl app)) ?m =
      dput name (channel_at app name mgr) ?m"
    by (simp add: dentry_eq_dput channel_at_def)
  have read: "(case dget (dput name c ?m) name of Some ch \<Rightarrow> ch | None \<Rightarrow> d) = c" for c d
    by simp
  show ?thesis
    unfolding subscribe_with_def Let_def entry read dput_dput by (rule refl)
qed

lemma mgr_wf_subscribe_with [intro]:
  assumes "mgr_wf mgr"
  shows "mgr_wf (fst (snd (subscribe_with now app name sid h p admit on_sub mgr s)))"
proof -
  let ?ch = "channel_at app name mgr" and ?slot = "app_slot (app_id app) mgr"
  obtain r ch1 where sub: "subscribe sid h p ?ch = (r, ch1)" by (cases "subscribe sid h p ?ch")
  note ch = channel_at_wf [OF assms, of app name]
  have slot: "slot_wf ?slot" using assms by blast
  then have chans: "dwf (ac_channels ?slot)" "dall channel_entry_ok (ac_channels ?slot)"
    by (simp_all add: slot_wf_def)
  have ok1: "channel_entry_ok name ch1"
    using ch ch_wf_subscribe [of ?ch sid h p] kind_subscribe(2) [of sid h p ?ch]
      subscribe_nonempty [of sid h p ?ch]
    by (simp add: sub channel_entry_ok_def)
  then have ok2: "channel_entry_ok name (snd (cached_payload now ch1))"
    by (auto simp: channel_entry_ok_def ch_is_empty_def)
  have rej: "dall channel_entry_ok
      (dremove_if name (channel_idle now) (dput name ?ch (ac_channels ?slot)))"
    using chans ch by (intro dall_put_remove_if)
      (auto simp: channel_entry_ok_def channel_idle_noncache)
  show ?thesis
    unfolding subscribe_with_cases Let_def sub using assms slot chans rej ok1 ok2
    by (auto simp: case_prod_beta zwf intro!: mgr_wf_put slot_wf_channels)
qed

lemma mgr_wf_unsubscribe_with [intro]:
  assumes "mgr_wf mgr"
  shows "mgr_wf (fst (snd (unsubscribe_with now aid name sid on_unsub mgr s)))"
proof (cases "dget mgr aid")
  case (Some slot)
  note slot = mgr_wf_get [OF assms Some]
  show ?thesis
  proof (cases "dget (ac_channels slot) name")
    case (Some ch)
    from channel_entryD [OF slot Some] have ch: "ch_wf ch" "ch_name ch = name" by simp_all
    have "dall channel_entry_ok (dremove_if name (channel_idle now)
        (dput name (snd (unsubscribe sid ch)) (ac_channels slot)))"
      using slot ch ch_wf_unsubscribe [OF ch(1), of sid]
      by (intro dall_put_remove_if) (auto simp: slot_wf_def channel_entry_ok_def channel_idle_noncache)
    then show ?thesis
      using assms slot Some \<open>dget mgr aid = Some slot\<close>
      by (auto simp: unsubscribe_with_def Let_def case_prod_beta slot_wf_def zwf
            intro!: mgr_wf_put)
  qed (use assms Some in \<open>simp add: unsubscribe_with_def\<close>)
qed (use assms in \<open>simp add: unsubscribe_with_def\<close>)

lemma register_connection_eq:
  "register_connection app h mgr =
     (let slot = app_slot (app_id app) mgr;
          slot1 = slot\<lparr>ac_connections := dput (h_socket_id h) h (ac_connections slot)\<rparr>
      in case max_connections app of
           Some mx \<Rightarrow>
             if length (ac_connections slot1) mod 2 ^ 32 > mx
             then (Inl ConnectionLimitReached,
                   dput (app_id app) (slot1\<lparr>ac_connections := ddel (h_socket_id h) (ac_connections slot1)\<rparr>) mgr)
             else (Inr (), dput (app_id app) slot1 mgr)
         | None \<Rightarrow> (Inr (), dput (app_id app) slot1 mgr))"
  by (simp add: register_connection_def insert_connection_def over_limit_def remove_connection_def Let_def
        split: option.split)

lemma mgr_wf_register [intro]: "mgr_wf mgr \<Longrightarrow> mgr_wf (snd (register_connection app h mgr))"
  using slot_wf_app_slot [of mgr "app_id app"]
  by (auto simp: register_connection_eq Let_def slot_wf_def zwf split: option.split
        intro!: mgr_wf_put)

lemma mgr_wf_unregister [intro]: "mgr_wf mgr \<Longrightarrow> mgr_wf (unregister_connection aid sid mgr)"
  by (auto simp: unregister_connection_def slot_wf_def zwf split: option.split
        intro!: mgr_wf_put dest: mgr_wf_get)

lemma mgr_wf_cache_channel [intro]:
  assumes "mgr_wf mgr"
  shows "mgr_wf (snd (get_or_create_cache_channel app name mgr))"
proof (cases "is_cache (from_name name)")
  case True
  let ?slot = "app_slot (app_id app) mgr"
  have slot: "slot_wf ?slot" using assms by blast
  have "dall channel_entry_ok (dentry name (with_cache_ttl name (app_cache_ttl app)) (ac_channels ?slot))"
    using slot True by (auto simp: dentry_def slot_wf_def channel_entry_ok_def zwf split: option.split)
  with True slot assms show ?thesis
    by (auto simp: get_or_create_cache_channel_def Let_def slot_wf_def zwf intro!: mgr_wf_put)
qed (use assms in \<open>simp add: get_or_create_cache_channel_def\<close>)

lemma mgr_wf_store [intro]:
  "mgr_wf mgr \<Longrightarrow> channel_entry_ok (ch_name ch) ch \<Longrightarrow> mgr_wf (store_channel aid ch mgr)"
  by (auto simp: store_channel_def slot_wf_def zwf split: option.split
        intro!: mgr_wf_put dest: mgr_wf_get)

lemma mgr_wf_lock_enter [intro]: "mgr_wf mgr \<Longrightarrow> mgr_wf (user_lock_enter aid uid mgr)"
  using slot_wf_app_slot [of mgr aid]
  by (auto simp: user_lock_enter_def Let_def slot_wf_def zwf intro!: mgr_wf_put)

lemma mgr_wf_lock_exit [intro]:
  assumes "mgr_wf mgr"
  shows "mgr_wf (user_lock_exit aid uid mgr)"
proof (cases "dget (ac_user_locks (app_slot aid mgr)) uid")
  case (Some n)
  have "slot_wf (app_slot aid mgr)" using assms by blast
  then have "dall (\<lambda>_ n. n \<noteq> 0)
      (dremove_if uid (\<lambda>n. n = 0) (dput uid (n - 1) (ac_user_locks (app_slot aid mgr))))"
    by (intro dall_put_remove_if) (auto simp: slot_wf_def)
  with Some assms slot_wf_app_slot [of mgr aid] show ?thesis
    by (auto simp: user_lock_exit_def Let_def slot_wf_def zwf intro!: mgr_wf_put)
qed (use assms in \<open>simp add: user_lock_exit_def\<close>)

lemma index_entry:
  "slot_wf slot \<Longrightarrow> dget (ac_user_index slot) u = Some l \<Longrightarrow> l \<noteq> [] \<and> distinct l"
  unfolding slot_wf_def by (blast dest: dall_get)

lemma watch_entry:
  "slot_wf slot \<Longrightarrow> dget (ac_watchers slot) u = Some l \<Longrightarrow> l \<noteq> [] \<and> distinct l"
  unfolding slot_wf_def by (blast dest: dall_get)

lemma slot_wf_index:
  "slot_wf slot \<Longrightarrow> l \<noteq> [] \<Longrightarrow> distinct l \<Longrightarrow>
     slot_wf (slot\<lparr>ac_user_index := dput u l (ac_user_index slot)\<rparr>)"
  "slot_wf slot \<Longrightarrow> slot_wf (slot\<lparr>ac_user_index := ddel u (ac_user_index slot)\<rparr>)"
  by (auto simp: slot_wf_def zwf intro!: dall_dput)

lemma slot_wf_watchers:
  "slot_wf slot \<Longrightarrow> l \<noteq> [] \<Longrightarrow> distinct l \<Longrightarrow>
     slot_wf (slot\<lparr>ac_watchers := dput u l (ac_watchers slot)\<rparr>)"
  "slot_wf slot \<Longrightarrow> slot_wf (slot\<lparr>ac_watchers := ddel u (ac_watchers slot)\<rparr>)"
  by (auto simp: slot_wf_def zwf intro!: dall_dput)

lemma mgr_wf_bind [intro]:
  assumes "mgr_wf mgr"
  shows "mgr_wf (snd (bind_user aid uid sid mgr))"
proof -
  have slot: "slot_wf (app_slot aid mgr)" using assms by blast
  show ?thesis
  proof (cases "dget (ac_user_index (app_slot aid mgr)) uid")
    case (Some l)
    with index_entry [OF slot Some] assms slot show ?thesis
      by (simp add: bind_user_def Let_def mgr_wf_put slot_wf_index)
  qed (use assms slot in \<open>simp add: bind_user_def Let_def mgr_wf_put slot_wf_index\<close>)
qed

lemma mgr_wf_unbind [intro]:
  assumes "mgr_wf mgr"
  shows "mgr_wf (snd (unbind_user aid uid sid mgr))"
proof (cases "dget mgr aid")
  case (Some slot)
  note slot = mgr_wf_get [OF assms Some]
  show ?thesis
  proof (cases "dget (ac_user_index slot) uid")
    case (Some l)
    with index_entry [OF slot Some] assms slot \<open>dget mgr aid = Some slot\<close> show ?thesis
      by (simp add: unbind_user_def Let_def mgr_wf_put slot_wf_index)
  qed (use assms Some in \<open>simp add: unbind_user_def\<close>)
qed (use assms in \<open>simp add: unbind_user_def\<close>)

lemma mgr_wf_add_watcher [intro]:
  assumes "mgr_wf mgr"
  shows "mgr_wf (add_watcher aid watched watcher mgr)"
proof -
  have slot: "slot_wf (app_slot aid mgr)" using assms by blast
  show ?thesis
  proof (cases "dget (ac_watchers (app_slot aid mgr)) watched")
    case (Some l)
    with watch_entry [OF slot Some] assms slot show ?thesis
      by (simp add: add_watcher_def Let_def hs_insert_def mgr_wf_put slot_wf_watchers)
  qed (use assms slot in \<open>simp add: add_watcher_def Let_def hs_insert_def mgr_wf_put slot_wf_watchers\<close>)
qed

lemma slot_wf_drop_watches: "slot_wf slot \<Longrightarrow> slot_wf (drop_watches ws watcher slot)"
proof (induction ws watcher slot rule: drop_watches.induct)
  case (2 watched rest watcher slot)
  show ?case
  proof (cases "dget (ac_watchers slot) watched")
    case (Some l)
    from watch_entry [OF "2.prems" Some] have "slot_wf (slot\<lparr>ac_watchers := if hs_remove watcher l = [] then ddel watched (ac_watchers slot)
        else dput watched (hs_remove watcher l) (ac_watchers slot)\<rparr>)"
      using "2.prems" by (auto intro!: slot_wf_watchers)
    with Some 2 show ?thesis by (simp add: Let_def)
  qed (use 2 in simp)
qed simp

lemma mgr_wf_remove_watches [intro]:
  "mgr_wf mgr \<Longrightarrow> mgr_wf (remove_all_watches_for aid watcher mgr)"
  by (auto simp: remove_all_watches_for_def split: option.split
        intro!: mgr_wf_put slot_wf_drop_watches dest: mgr_wf_get)

section \<open>Garbage collection\<close>

lemma gc_names_spec:
  "dwf chans \<Longrightarrow> distinct names \<Longrightarrow>
   (case gc_names now names removed chans of (n, chans') \<Rightarrow>
      dwf chans' \<and> n + length chans' = removed + length chans \<and>
      (\<forall>k. dget chans' k = (case dget chans k of
           Some ch \<Rightarrow> if k \<in> set names \<and> channel_idle now ch then None else Some ch
         | None \<Rightarrow> None)))"
proof (induction names arbitrary: removed chans)
  case (Cons name names)
  let ?c = "dremove_if name (channel_idle now) chans"
  let ?gone = "case dget chans name of Some ch \<Rightarrow> channel_idle now ch | None \<Rightarrow> False"
  have len: "(if ?gone then 1 else 0) + length ?c = length chans"
    using length_ddel [OF Cons.prems(1), of name]
    by (auto simp: dremove_if_def dhas_def split: option.splits)
  have wf: "dwf ?c" using Cons.prems(1) by (rule dwf_dremove_if)
  show ?case
    using Cons.IH [OF wf, of "if ?gone then removed + 1 else removed"] Cons.prems(2) len
    by (auto simp: Let_def case_prod_beta split: option.splits if_splits)
qed (auto split: option.splits)

definition collectable :: "instant \<Rightarrow> channel \<Rightarrow> bool" where
  "collectable now ch \<longleftrightarrow> is_cache (ch_kind ch) \<and> channel_idle now ch"

lemma gc_slot_spec:
  assumes "slot_wf slot"
    and g: "gc_names now (map fst (filter (\<lambda>(_, ch). is_cache (ch_kind ch)) (ac_channels slot)))
              removed (ac_channels slot) = (n, chans)"
  shows "slot_wf (slot\<lparr>ac_channels := chans\<rparr>)"
    and "n + length chans = removed + length (ac_channels slot)"
    and "dget chans k = (case dget (ac_channels slot) k of
           Some ch \<Rightarrow> if collectable now ch then None else Some ch | None \<Rightarrow> None)"
proof -
  let ?names = "map fst (filter (\<lambda>(_, ch). is_cache (ch_kind ch)) (ac_channels slot))"
  have wf: "dwf (ac_channels slot)" "dall channel_entry_ok (ac_channels slot)"
    using assms(1) by (simp_all add: slot_wf_def)
  have d: "distinct ?names" using wf(1) unfolding dwf_def by (rule distinct_map_filter)
  have mem: "k \<in> set ?names \<longleftrightarrow> is_cache (ch_kind ch)"
    if "dget (ac_channels slot) k = Some ch" for k ch
  proof
    assume "k \<in> set ?names"
    then obtain ch' where "(k, ch') \<in> set (ac_channels slot)" "is_cache (ch_kind ch')" by auto
    with dget_of_in [OF wf(1)] that show "is_cache (ch_kind ch)" by fastforce
  next
    assume "is_cache (ch_kind ch)"
    with dget_in [OF that] show "k \<in> set ?names" by force
  qed
  note spec = gc_names_spec [OF wf(1) d, where now = now and removed = removed, unfolded g prod.case]
  show len: "n + length chans = removed + length (ac_channels slot)" using spec by blast
  have get: "dget chans k = (case dget (ac_channels slot) k of
      Some ch \<Rightarrow> if collectable now ch then None else Some ch | None \<Rightarrow> None)" for k
  proof (cases "dget (ac_channels slot) k")
    case (Some ch)
    with spec mem [OF Some] show ?thesis by (simp add: collectable_def)
  qed (use spec in simp)
  show "dget chans k = (case dget (ac_channels slot) k of
      Some ch \<Rightarrow> if collectable now ch then None else Some ch | None \<Rightarrow> None)" by (rule get)
  have "channel_entry_ok k v" if "dget chans k = Some v" for k v
    using that wf(2) by (auto simp: get split: option.splits if_splits dest: dall_get)
  then have "dall channel_entry_ok chans" using spec by (simp add: dall_iff)
  with spec assms(1) show "slot_wf (slot\<lparr>ac_channels := chans\<rparr>)"
    by (simp add: slot_wf_channels)
qed

lemma gc_slots_spec:
  "mgr_wf mgr \<Longrightarrow> gc_slots now mgr removed = (n, mgr') \<Longrightarrow>
     mgr_wf mgr' \<and> dkeys mgr' = dkeys mgr \<and>
     n + sum_list (map (\<lambda>(_, slot). length (ac_channels slot)) mgr') =
       removed + sum_list (map (\<lambda>(_, slot). length (ac_channels slot)) mgr) \<and>
     find_channel aid name mgr' =
       (case find_channel aid name mgr of
          Some ch \<Rightarrow> if collectable now ch then None else Some ch | None \<Rightarrow> None)"
proof (induction mgr arbitrary: removed n mgr')
  case Nil
  then show ?case by (simp add: find_channel_def)
next
  case (Cons p rest)
  obtain a slot where p: "p = (a, slot)" by (cases p)
  let ?names = "map fst (filter (\<lambda>(_, ch). is_cache (ch_kind ch)) (ac_channels slot))"
  obtain n1 chans where g: "gc_names now ?names removed (ac_channels slot) = (n1, chans)"
    by (cases "gc_names now ?names removed (ac_channels slot)")
  obtain n2 rest' where r: "gc_slots now rest n1 = (n2, rest')" by (cases "gc_slots now rest n1")
  have wf: "slot_wf slot" "mgr_wf rest" "a \<notin> fst ` set rest"
    using Cons.prems(1) by (auto simp: p mgr_wf_def dwf_def dall_def)
  note slot = gc_slot_spec [OF wf(1) g]
  note ih = Cons.IH [OF wf(2) r]
  have res: "mgr' = (a, slot\<lparr>ac_channels := chans\<rparr>) # rest'" "n = n2"
    using Cons.prems(2) by (simp_all add: p g r)
  have "mgr_wf mgr'"
    using ih slot(1) wf(3) by (auto simp: res mgr_wf_def dwf_def dall_def)
  moreover have "find_channel aid name mgr' =
      (case find_channel aid name (p # rest) of
         Some ch \<Rightarrow> if collectable now ch then None else Some ch | None \<Rightarrow> None)"
    using ih slot(3) [of name] by (simp add: res p find_channel_def)
  ultimately show ?case using ih slot(2) by (simp add: res p)
qed

section \<open>Histories of the registry\<close>

text \<open>
  Every operation that changes the registry. The closures of a subscription reach the registry
  only through the decision to admit.
\<close>

datatype manager_op =
    Register application connection_handle
  | Unregister app_id socket_id
  | Subscribe instant application channel_name socket_id connection_handle
      "presence_member option" bool
  | Unsubscribe instant app_id channel_name socket_id
  | CacheChannel application channel_name
  | BroadcastTo instant app_id channel_name string
  | CollectGarbage instant
  | LockUser app_id string
  | UnlockUser app_id string
  | BindUser app_id string socket_id
  | UnbindUser app_id string socket_id
  | Watch app_id string string
  | Unwatch app_id string

fun manager_do :: "manager_op \<Rightarrow> manager \<Rightarrow> manager" where
  "manager_do (Register app h) mgr = snd (register_connection app h mgr)"
| "manager_do (Unregister aid sid) mgr = unregister_connection aid sid mgr"
| "manager_do (Subscribe now app name sid h p ok) mgr =
     fst (snd (subscribe_with now app name sid h p (\<lambda>_ s. (ok, s)) (\<lambda>_ _ s. s) mgr ()))"
| "manager_do (Unsubscribe now aid name sid) mgr = snd (mgr_unsubscribe now aid name sid mgr)"
| "manager_do (CacheChannel app name) mgr = snd (get_or_create_cache_channel app name mgr)"
| "manager_do (BroadcastTo now aid name payload) mgr =
     (case find_channel aid name mgr of
        Some ch \<Rightarrow> store_channel aid (fst (broadcast now payload None ch [])) mgr
      | None \<Rightarrow> mgr)"
| "manager_do (CollectGarbage now) mgr = snd (gc_empty_cache_channels now mgr)"
| "manager_do (LockUser aid uid) mgr = user_lock_enter aid uid mgr"
| "manager_do (UnlockUser aid uid) mgr = user_lock_exit aid uid mgr"
| "manager_do (BindUser aid uid sid) mgr = snd (bind_user aid uid sid mgr)"
| "manager_do (UnbindUser aid uid sid) mgr = snd (unbind_user aid uid sid mgr)"
| "manager_do (Watch aid watched watcher) mgr = add_watcher aid watched watcher mgr"
| "manager_do (Unwatch aid watcher) mgr = remove_all_watches_for aid watcher mgr"

lemma mgr_wf_find:
  "mgr_wf mgr \<Longrightarrow> find_channel aid name mgr = Some ch \<Longrightarrow> channel_entry_ok name ch"
  by (auto simp: find_channel_def slot_wf_def bind_eq_Some_conv dest!: mgr_wf_get dest: dall_get)

lemma broadcast_entry_ok:
  "channel_entry_ok name ch \<Longrightarrow>
     channel_entry_ok name (fst (broadcast now payload except ch net)) \<and>
     ch_name (fst (broadcast now payload except ch net)) = name"
  by (auto simp: channel_entry_ok_def broadcast_def Let_def ch_is_empty_def)

lemma mgr_wf_do: "mgr_wf mgr \<Longrightarrow> mgr_wf (manager_do op mgr)"
proof (cases op)
  case (BroadcastTo now aid name payload)
  assume wf: "mgr_wf mgr"
  show ?thesis
  proof (cases "find_channel aid name mgr")
    case (Some ch)
    from broadcast_entry_ok [OF mgr_wf_find [OF wf Some], of now payload None "[]"] wf BroadcastTo Some
    show ?thesis by (simp add: mgr_wf_store)
  qed (use wf BroadcastTo in simp)
next
  case (CollectGarbage now)
  assume "mgr_wf mgr"
  from gc_slots_spec [OF this, of now 0 "fst (gc_slots now mgr 0)" "snd (gc_slots now mgr 0)"]
  show ?thesis by (simp add: CollectGarbage gc_empty_cache_channels_def)
next
  case (Unsubscribe now aid name sid)
  assume "mgr_wf mgr"
  with mgr_wf_unsubscribe_with [of mgr now aid name sid "\<lambda>_ _ s. s" "()"] Unsubscribe
  show ?thesis by (simp add: mgr_unsubscribe_def case_prod_beta)
qed auto

lemma mgr_wf_run: "mgr_wf mgr \<Longrightarrow> mgr_wf (fold manager_do ops mgr)"
  by (induction ops arbitrary: mgr) (auto intro: mgr_wf_do)

text \<open>A registry with one channel, for the examples.\<close>

definition sample_mgr :: manager where
  "sample_mgr = fold manager_do
     [Register sample_app (sample_handle 1),
      Subscribe 0 sample_app ''presence-a'' ''1.1'' (sample_handle 1) (Some sample_member) True,
      CacheChannel sample_app ''cache-a'', BindUser ''1'' ''u'' ''1.1''] manager_new"

lemma sample_mgr_wf: "mgr_wf sample_mgr"
  unfolding sample_mgr_def by (rule mgr_wf_run) blast

text \<open>
  C4: The registry stays well formed through every history of its operations: keys are unique,
  every channel is stored under its own name with the kind that name has and with correct
  reference counts, a channel that is not a cache channel exists only while it has members, and no
  user, watch list or user lock is kept for nobody.
\<close>

theorem registry_invariant: "mgr_wf (fold manager_do ops manager_new)"
  by (rule mgr_wf_run) blast

text \<open>
  C26: Garbage collection removes exactly the cache channels that have neither a subscriber nor a
  live payload, leaves every other channel as it was, and reports the number it removed.
\<close>

theorem gc_empty_cache_channels_spec:
  assumes "mgr_wf mgr"
  shows "let (n, mgr') = gc_empty_cache_channels now mgr in
           mgr_wf mgr' \<and>
           find_channel aid name mgr' =
             (case find_channel aid name mgr of
                Some ch \<Rightarrow> if is_cache (ch_kind ch) \<and> ch_is_empty ch \<and>
                               fst (cached_payload now ch) = None
                           then None else Some ch
              | None \<Rightarrow> None) \<and>
           n + sum_list (map (\<lambda>(_, slot). length (ac_channels slot)) mgr') =
             sum_list (map (\<lambda>(_, slot). length (ac_channels slot)) mgr)"
proof -
  obtain n mgr' where g: "gc_slots now mgr 0 = (n, mgr')" by (cases "gc_slots now mgr 0")
  from gc_slots_spec [OF assms g, of aid name] show ?thesis
    by (simp add: gc_empty_cache_channels_def g collectable_def channel_idle_def cong: option.case_cong)
qed

theorem gc_empty_cache_channels_spec_witness:
  "mgr_wf sample_mgr \<and> mgr_wf (snd (gc_empty_cache_channels 0 sample_mgr)) \<and>
   find_channel ''1'' ''presence-a'' (snd (gc_empty_cache_channels 0 sample_mgr)) =
     find_channel ''1'' ''presence-a'' sample_mgr"
proof -
  have "from_name ''presence-a'' = Presence"
    by (simp add: from_name_def starts_with_def)
  then have "\<not> is_cache (ch_kind ch)" if "find_channel ''1'' ''presence-a'' sample_mgr = Some ch" for ch
    using mgr_wf_find [OF sample_mgr_wf that] by (simp add: channel_entry_ok_def ch_wf_def)
  then show ?thesis
    using gc_empty_cache_channels_spec [OF sample_mgr_wf, of 0 "''1''" "''presence-a''"] sample_mgr_wf
    by (auto simp: case_prod_beta split: option.splits)
qed

section \<open>Membership through the registry\<close>

definition channel_sockets :: "app_id \<Rightarrow> channel_name \<Rightarrow> manager \<Rightarrow> string set" where
  "channel_sockets aid name mgr =
     (case find_channel aid name mgr of Some ch \<Rightarrow> set (dkeys (ch_members ch)) | None \<Rightarrow> {})"

lemma find_put:
  "find_channel aid name (dput a slot mgr) =
     (if aid = a then dget (ac_channels slot) name else find_channel aid name mgr)"
  by (simp add: find_channel_def)

lemma find_app_slot: "dget (ac_channels (app_slot aid mgr)) name = find_channel aid name mgr"
  by (simp add: find_channel_def app_slot_def app_channels_default_def split: option.split)

lemma channel_at_members:
  "set (dkeys (ch_members (channel_at app name mgr))) = channel_sockets (app_id app) name mgr"
  by (simp add: channel_at_def find_app_slot channel_sockets_def with_cache_ttl_def Let_def
        split: option.split)

lemma subscribe_sockets:
  assumes "fst (admit (channel_at app name mgr) s)"
  shows "channel_sockets aid n (fst (snd (subscribe_with now app name sid h p admit on_sub mgr s))) =
           (if aid = app_id app \<and> n = name then insert sid (channel_sockets aid n mgr)
            else channel_sockets aid n mgr)"
proof -
  have "set (dkeys (ch_members (snd (subscribe sid h p (channel_at app name mgr))))) =
      insert sid (channel_sockets (app_id app) name mgr)"
    unfolding channel_at_members [symmetric]
    by (auto simp: members_subscribe dkeys_dput dhas_iff simp del: set_map)
  with assms show ?thesis
    unfolding subscribe_with_cases Let_def case_prod_beta
    by (auto simp: channel_sockets_def find_put find_app_slot simp del: set_map)
qed

lemma unsubscribe_sockets:
  "channel_sockets aid n (fst (snd (unsubscribe_with now a name sid on_unsub mgr s))) =
     (if aid = a \<and> n = name then channel_sockets aid n mgr - {sid} else channel_sockets aid n mgr)"
proof (cases "find_channel a name mgr")
  case None
  then have "fst (snd (unsubscribe_with now a name sid on_unsub mgr s)) = mgr"
    by (auto simp: unsubscribe_with_def find_channel_def split: option.splits)
  with None show ?thesis by (simp add: channel_sockets_def)
next
  case (Some ch)
  then obtain slot where slot: "dget mgr a = Some slot" "dget (ac_channels slot) name = Some ch"
    by (auto simp: find_channel_def bind_eq_Some_conv)
  let ?ch = "snd (unsubscribe sid ch)"
  have mem: "set (dkeys (ch_members ?ch)) = set (dkeys (ch_members ch)) - {sid}"
    unfolding members_unsubscribe by (rule dkeys_ddel)
  have idle: "channel_idle now ?ch \<Longrightarrow> set (dkeys (ch_members ?ch)) = {}"
    by (simp add: channel_idle_def ch_is_empty_def)
  have res: "fst (snd (unsubscribe_with now a name sid on_unsub mgr s)) =
      dput a (slot\<lparr>ac_channels := dremove_if name (channel_idle now)
        (dput name ?ch (ac_channels slot))\<rparr>) mgr"
    by (simp add: unsubscribe_with_def slot Let_def case_prod_beta)
  have here: "find_channel a n (dput a (slot\<lparr>ac_channels := dremove_if name (channel_idle now)
        (dput name ?ch (ac_channels slot))\<rparr>) mgr) =
      (if n = name then if channel_idle now ?ch then None else Some ?ch
       else find_channel a n mgr)" for n
    by (simp add: find_put) (simp add: find_channel_def slot)
  show ?thesis
  proof (cases "aid = a \<and> n = name")
    case True
    then show ?thesis
      using idle mem Some unfolding res channel_sockets_def
      by (cases "channel_idle now ?ch") (simp_all add: here del: set_map)
  next
    case False
    have "find_channel aid n (fst (snd (unsubscribe_with now a name sid on_unsub mgr s))) =
        find_channel aid n mgr"
      using False here [of n] unfolding res by (cases "aid = a") (simp, simp add: find_put)
    with False show ?thesis by (auto simp: channel_sockets_def)
  qed
qed

interpretation registry: membership
  "\<lambda>sid mgr. snd (mgr_subscribe now app name sid (h sid) (p sid) mgr)"
  "\<lambda>sid mgr. snd (mgr_unsubscribe now (app_id app) name sid mgr)"
  "channel_sockets (app_id app) name" mgr_wf
  for now app name h p
  by unfold_locales
     (simp_all add: mgr_subscribe_def mgr_unsubscribe_def case_prod_beta subscribe_sockets
        unsubscribe_sockets mgr_wf_subscribe_with mgr_wf_unsubscribe_with)

text \<open>
  C24: Subscriptions are accurate. After a subscription is admitted the socket is a member of that
  channel, after it is withdrawn the socket is not, and no other channel of any application
  changes its members.
\<close>

theorem subscription_effect:
  "channel_sockets aid n (snd (mgr_subscribe now app name sid h p mgr)) =
     (if aid = app_id app \<and> n = name then insert sid (channel_sockets aid n mgr)
      else channel_sockets aid n mgr) \<and>
   channel_sockets aid n (snd (mgr_unsubscribe now (app_id app) name sid mgr)) =
     (if aid = app_id app \<and> n = name then channel_sockets aid n mgr - {sid}
      else channel_sockets aid n mgr)"
  by (simp add: mgr_subscribe_def mgr_unsubscribe_def case_prod_beta subscribe_sockets
        unsubscribe_sockets)

text \<open>
  C25: A rejected subscription changes no membership: every channel is found as before, except the
  named one when it has no members and nothing to replay, which is dropped. That is the channel
  created for the attempt, and also a cache channel that existed before with no members and no live
  cached payload.
\<close>

theorem rejected_subscription:
  assumes "mgr_wf mgr" "\<not> fst (admit (channel_at app name mgr) s)"
  shows "let (out, mgr', s') = subscribe_with now app name sid h p admit on_sub mgr s in
           out = None \<and> s' = snd (admit (channel_at app name mgr) s) \<and>
           find_channel aid n mgr' =
             (if aid = app_id app \<and> n = name
              then (case find_channel aid n mgr of
                      Some ch \<Rightarrow> if collectable now ch then None else Some ch
                    | None \<Rightarrow> None)
              else find_channel aid n mgr)"
proof -
  let ?slot = "app_slot (app_id app) mgr" and ?ch = "channel_at app name mgr"
  have res: "subscribe_with now app name sid h p admit on_sub mgr s =
      (None, dput (app_id app) (?slot\<lparr>ac_channels :=
         dremove_if name (channel_idle now) (dput name ?ch (ac_channels ?slot))\<rparr>) mgr,
       snd (admit ?ch s))"
    using assms(2) unfolding subscribe_with_cases Let_def by (simp add: case_prod_beta)
  show ?thesis
  proof (cases "find_channel (app_id app) name mgr")
    case None
    then have "channel_idle now ?ch"
      by (simp add: channel_at_def find_app_slot channel_idle_def with_cache_ttl_def Let_def
            ch_is_empty_def cached_payload_def)
    with None show ?thesis by (simp add: res find_put find_app_slot)
  next
    case (Some ch)
    have ch: "?ch = ch" using Some by (simp add: channel_at_def find_app_slot)
    have "channel_idle now ch \<longleftrightarrow> collectable now ch"
      using mgr_wf_find [OF assms(1) Some]
      by (auto simp: collectable_def channel_entry_ok_def channel_idle_def)
    with Some show ?thesis by (simp add: res find_put find_app_slot ch)
  qed
qed

theorem rejected_subscription_witness:
  "find_channel ''1'' ''private-x''
     (fst (snd (subscribe_with 0 sample_app ''private-x'' ''1.1'' (sample_handle 1) None
        (\<lambda>_ s. (False, s)) (\<lambda>_ _ s. s) manager_new ()))) = None"
  using rejected_subscription [OF mgr_wf_new, of "\<lambda>_ s. (False, s)" sample_app "''private-x''" "()" 0
      "''1.1''" "sample_handle 1" None "\<lambda>_ _ s. s" "''1''" "''private-x''"]
  by (simp add: case_prod_beta sample_app_def find_channel_def manager_new_def)

section \<open>Signed-in users\<close>

definition user_sockets :: "app_id \<Rightarrow> string \<Rightarrow> manager \<Rightarrow> string list" where
  "user_sockets aid uid mgr =
     (case Option.bind (dget mgr aid) (\<lambda>slot. dget (ac_user_index slot) uid) of
        Some l \<Rightarrow> l | None \<Rightarrow> [])"

lemma user_sockets_slot:
  "user_sockets aid uid mgr =
     (case dget (ac_user_index (app_slot aid mgr)) uid of Some l \<Rightarrow> l | None \<Rightarrow> [])"
  by (simp add: user_sockets_def app_slot_def app_channels_default_def split: option.split)

lemma user_sockets_put:
  "user_sockets aid uid (dput a slot mgr) =
     (if aid = a then case dget (ac_user_index slot) uid of Some l \<Rightarrow> l | None \<Rightarrow> []
      else user_sockets aid uid mgr)"
  by (simp add: user_sockets_def)

lemma is_user_online_iff: "is_user_online aid uid mgr \<longleftrightarrow> user_sockets aid uid mgr \<noteq> []"
  by (simp add: is_user_online_def user_sockets_def split: option.split)

lemma user_sockets_bind:
  "user_sockets aid u (snd (bind_user a uid sid mgr)) =
     (if aid = a \<and> u = uid then hs_insert sid (user_sockets aid u mgr) else user_sockets aid u mgr)"
  by (cases "dget (ac_user_index (app_slot a mgr)) uid")
     (auto simp: bind_user_def Let_def user_sockets_slot hs_insert_def)

lemma user_sockets_unbind:
  "user_sockets aid u (snd (unbind_user a uid sid mgr)) =
     (if aid = a \<and> u = uid then hs_remove sid (user_sockets aid u mgr) else user_sockets aid u mgr)"
proof (cases "dget mgr a")
  case None
  then show ?thesis by (auto simp: unbind_user_def user_sockets_def hs_remove_def)
next
  case (Some slot)
  then have slot: "user_sockets a v mgr =
      (case dget (ac_user_index slot) v of Some l \<Rightarrow> l | None \<Rightarrow> [])" for v
    by (simp add: user_sockets_def)
  show ?thesis
  proof (cases "dget (ac_user_index slot) uid")
    case None
    with Some slot show ?thesis by (auto simp: unbind_user_def hs_remove_def)
  next
    case (Some l)
    with \<open>dget mgr a = Some slot\<close> slot show ?thesis
      by (auto simp: unbind_user_def Let_def user_sockets_put hs_remove_def)
  qed
qed

lemma user_sockets_wf: "mgr_wf mgr \<Longrightarrow> distinct (user_sockets aid uid mgr)"
  by (auto simp: user_sockets_def bind_eq_Some_conv split: option.split
        dest!: mgr_wf_get dest: index_entry)

lemma unbind_reports:
  assumes "mgr_wf mgr"
  shows "fst (unbind_user aid uid sid mgr) \<longleftrightarrow> user_sockets aid uid mgr \<noteq> [] \<and>
           hs_remove sid (user_sockets aid uid mgr) = []"
proof (cases "dget mgr aid")
  case (Some slot)
  note slot = mgr_wf_get [OF assms Some]
  show ?thesis
  proof (cases "dget (ac_user_index slot) uid")
    case (Some l)
    with index_entry [OF slot Some] \<open>dget mgr aid = Some slot\<close> show ?thesis
      by (simp add: unbind_user_def Let_def hs_remove_def user_sockets_def)
  qed (simp add: unbind_user_def user_sockets_def Some)
qed (simp add: unbind_user_def user_sockets_def)

interpretation sessions: membership
  "\<lambda>sid mgr. snd (bind_user aid uid sid mgr)" "\<lambda>sid mgr. snd (unbind_user aid uid sid mgr)"
  "\<lambda>mgr. set (user_sockets aid uid mgr)" mgr_wf
  for aid uid
  by unfold_locales (simp_all add: user_sockets_bind user_sockets_unbind mgr_wf_bind mgr_wf_unbind)

text \<open>
  A user's sessions. Binding reports the first session and only that, unbinding reports the
  last one and only that: the reports are exactly the changes of the user between offline and
  online, for every user and socket.
\<close>

theorem session_transitions:
  assumes "mgr_wf mgr"
  shows "(fst (bind_user aid uid sid mgr) \<longleftrightarrow> \<not> is_user_online aid uid mgr) \<and>
         is_user_online aid uid (snd (bind_user aid uid sid mgr)) \<and>
         (fst (unbind_user aid uid sid mgr) \<longleftrightarrow>
            is_user_online aid uid mgr \<and>
            \<not> is_user_online aid uid (snd (unbind_user aid uid sid mgr))) \<and>
         set (user_sockets aid uid (snd (bind_user aid uid sid mgr))) =
           insert sid (set (user_sockets aid uid mgr)) \<and>
         set (user_sockets aid uid (snd (unbind_user aid uid sid mgr))) =
           set (user_sockets aid uid mgr) - {sid}"
proof -
  have first: "fst (bind_user aid uid sid mgr) \<longleftrightarrow> user_sockets aid uid mgr = []"
    by (simp add: bind_user_def Let_def user_sockets_slot split: option.split)
  have last: "fst (unbind_user aid uid sid mgr) \<longleftrightarrow> user_sockets aid uid mgr \<noteq> [] \<and>
      hs_remove sid (user_sockets aid uid mgr) = []"
    by (rule unbind_reports [OF assms])
  show ?thesis
    unfolding sessions.members_join [OF assms] sessions.members_leave [OF assms]
    by (auto simp: first last is_user_online_iff user_sockets_bind user_sockets_unbind hs_insert_def)
qed

theorem session_transitions_witness:
  "fst (bind_user ''1'' ''v'' ''1.1'' manager_new) \<and>
   is_user_online ''1'' ''v'' (snd (bind_user ''1'' ''v'' ''1.1'' manager_new))"
  using session_transitions [OF mgr_wf_new, of "''1''" "''v''" "''1.1''"]
  by (simp add: is_user_online_def manager_new_def)

section \<open>Watchlists\<close>

definition slot_watchers :: "app_channels \<Rightarrow> string \<Rightarrow> string set" where
  "slot_watchers slot w = (case dget (ac_watchers slot) w of Some l \<Rightarrow> set l | None \<Rightarrow> {})"

definition slot_online :: "app_channels \<Rightarrow> string \<Rightarrow> bool" where
  "slot_online slot u =
     (case dget (ac_user_index slot) u of Some sockets \<Rightarrow> sockets \<noteq> [] | None \<Rightarrow> False)"

lemma drop_watches_step:
  "slot_watchers (slot\<lparr>ac_watchers :=
      if hs_remove watcher l = [] then ddel watched (ac_watchers slot)
      else dput watched (hs_remove watcher l) (ac_watchers slot)\<rparr>) w =
     (if w = watched then set l - {watcher} else slot_watchers slot w)"
proof (cases "hs_remove watcher l = []")
  case True
  then have "set (hs_remove watcher l) = {}" by (simp only: list.set)
  with True show ?thesis unfolding set_hs_remove by (simp add: slot_watchers_def)
qed (simp add: slot_watchers_def)

lemma drop_watches_spec:
  "slot_watchers (drop_watches ws watcher slot) w =
     (if slot_online slot watcher \<or> w \<notin> set ws then slot_watchers slot w
      else slot_watchers slot w - {watcher})"
proof (induction ws watcher slot rule: drop_watches.induct)
  case (2 watched rest watcher slot)
  show ?case
  proof (cases "dget (ac_watchers slot) watched")
    case None
    with 2 show ?thesis by (auto simp: slot_watchers_def)
  next
    case (Some l)
    let ?slot = "slot\<lparr>ac_watchers :=
      if hs_remove watcher l = [] then ddel watched (ac_watchers slot)
      else dput watched (hs_remove watcher l) (ac_watchers slot)\<rparr>"
    show ?thesis
    proof (cases "slot_online slot watcher")
      case True
      with Some show ?thesis by (simp add: slot_online_def)
    next
      case False
      then have online: "\<not> slot_online ?slot watcher" by (simp add: slot_online_def)
      have "drop_watches (watched # rest) watcher slot = drop_watches rest watcher ?slot"
        using Some False by (simp add: slot_online_def Let_def)
      moreover have "slot_watchers (drop_watches rest watcher ?slot) w =
          (if slot_online ?slot watcher \<or> w \<notin> set rest then slot_watchers ?slot w
           else slot_watchers ?slot w - {watcher})"
        using 2(2) [OF Some refl] False Some by (simp add: slot_online_def)
      ultimately show ?thesis
        using False online Some unfolding drop_watches_step
        by (auto simp: slot_watchers_def)
    qed
  qed
qed simp

text \<open>
  Dropping a user's watches removes that user from every watch list and nobody else from any;
  if the user has signed in again meanwhile, nothing is dropped.
\<close>

theorem remove_all_watches_spec:
  "set (watchers_of aid w (remove_all_watches_for aid watcher mgr)) =
     (if is_user_online aid watcher mgr then set (watchers_of aid w mgr)
      else set (watchers_of aid w mgr) - {watcher})"
proof (cases "dget mgr aid")
  case None
  then show ?thesis by (simp add: remove_all_watches_for_def watchers_of_def)
next
  case (Some slot)
  have w: "set (watchers_of aid w m) = slot_watchers s w" if "dget m aid = Some s" for m s
    using that by (simp add: watchers_of_def slot_watchers_def split: option.split)
  have "is_user_online aid watcher mgr \<longleftrightarrow> slot_online slot watcher"
    using Some by (simp add: is_user_online_def slot_online_def)
  moreover have "slot_watchers slot w = {}" if "w \<notin> set (dkeys (ac_watchers slot))"
    using that by (simp add: slot_watchers_def map_of_eq_None_iff [THEN iffD2])
  ultimately show ?thesis
    using Some drop_watches_spec [of "dkeys (ac_watchers slot)" watcher slot w]
    by (auto simp: w remove_all_watches_for_def simp del: set_map)
qed

section \<open>Registration\<close>

text \<open>
  One registration without interference, when the count fits \<open>u32\<close>: a fresh connection is refused
  exactly when the application has its maximum or more, and a refusal leaves every connection as it
  was.
\<close>

lemma app_slot_connections:
  "connection_count aid mgr = length (ac_connections (app_slot aid mgr))"
  "handle_for_socket aid sid mgr = dget (ac_connections (app_slot aid mgr)) sid"
  by (simp_all add: connection_count_def handle_for_socket_def app_slot_def app_channels_default_def
        split: option.split)

lemma register_connection_alone:
  assumes "max_connections app = Some m" "connection_count (app_id app) mgr + 1 < 2 ^ 32"
    and "handle_for_socket (app_id app) (h_socket_id h) mgr = None"
  shows "let (r, mgr') = register_connection app h mgr in
           (r = Inl ConnectionLimitReached \<longleftrightarrow> connection_count (app_id app) mgr \<ge> m) \<and>
           handle_for_socket aid sid mgr' =
             (if r = Inr () \<and> aid = app_id app \<and> sid = h_socket_id h then Some h
              else handle_for_socket aid sid mgr)"
proof -
  let ?c = "ac_connections (app_slot (app_id app) mgr)"
  have fresh: "dget ?c (h_socket_id h) = None" using assms(3) by (simp add: app_slot_connections)
  then have "length (dput (h_socket_id h) h ?c) = length ?c + 1" by (simp add: length_dput dhas_def)
  moreover have "Suc (length ?c) mod 4294967296 = Suc (length ?c)"
    using assms(2) by (intro mod_less) (simp add: app_slot_connections)
  moreover have "ddel (h_socket_id h) ?c = ?c" using fresh by (rule ddel_absent)
  ultimately show ?thesis
    using assms(1) unfolding register_connection_eq Let_def
    by (auto simp: app_slot_connections fresh)
qed

text \<open>
  Registrations that interleave. Every registration of one application is entering (inserted, the
  count not read yet), refused (the count was above the limit, the connection not removed yet) or
  admitted (\<open>register_connection\<close> returned \<open>Ok\<close>); an admitted connection may depart. Socket ids are
  never reused while in use.
\<close>

record registrations =
  rg_mgr :: manager
  rg_entering :: "socket_id list"
  rg_refused :: "socket_id list"
  rg_admitted :: "socket_id list"

datatype registration_step =
    Enter connection_handle
  | Decide "nat option" socket_id
  | Withdraw socket_id
  | Depart socket_id

fun registration_do :: "app_id \<Rightarrow> registration_step \<Rightarrow> registrations \<Rightarrow> registrations" where
  "registration_do aid (Enter h) s =
     (if h_socket_id h \<in> set (rg_entering s @ rg_refused s @ rg_admitted s) then s
      else s\<lparr>rg_mgr := insert_connection aid h (rg_mgr s), rg_entering := h_socket_id h # rg_entering s\<rparr>)"
| "registration_do aid (Decide limit sid) s =
     (if sid \<notin> set (rg_entering s) then s
      else if over_limit limit aid (rg_mgr s)
      then s\<lparr>rg_entering := remove1 sid (rg_entering s), rg_refused := sid # rg_refused s\<rparr>
      else s\<lparr>rg_entering := remove1 sid (rg_entering s), rg_admitted := sid # rg_admitted s\<rparr>)"
| "registration_do aid (Withdraw sid) s =
     (if sid \<notin> set (rg_refused s) then s
      else s\<lparr>rg_mgr := remove_connection aid sid (rg_mgr s), rg_refused := remove1 sid (rg_refused s)\<rparr>)"
| "registration_do aid (Depart sid) s =
     (if sid \<notin> set (rg_admitted s) then s
      else s\<lparr>rg_mgr := unregister_connection aid sid (rg_mgr s), rg_admitted := remove1 sid (rg_admitted s)\<rparr>)"

definition registrations_of :: "app_id \<Rightarrow> manager \<Rightarrow> registrations" where
  "registrations_of aid mgr =
     \<lparr>rg_mgr = mgr, rg_entering = [], rg_refused = [], rg_admitted = dkeys (ac_connections (app_slot aid mgr))\<rparr>"

text \<open>A run in one go is \<open>register_connection\<close>.\<close>

lemma register_connection_runs:
  assumes "h_socket_id h \<notin> set (rg_entering s @ rg_refused s @ rg_admitted s)"
  shows "rg_mgr (fold (registration_do (app_id app))
           [Enter h, Decide (max_connections app) (h_socket_id h), Withdraw (h_socket_id h)] s) =
         snd (register_connection app h (rg_mgr s))"
  using assms by (simp add: register_connection_def Let_def)

definition registrations_ok :: "app_id \<Rightarrow> registrations \<Rightarrow> bool" where
  "registrations_ok aid s \<longleftrightarrow>
     distinct (rg_entering s @ rg_refused s @ rg_admitted s) \<and>
     dwf (ac_connections (app_slot aid (rg_mgr s))) \<and>
     set (dkeys (ac_connections (app_slot aid (rg_mgr s)))) = set (rg_entering s @ rg_refused s @ rg_admitted s)"

lemma registrations_connections:
  "ac_connections (app_slot aid (insert_connection aid h mgr)) =
     dput (h_socket_id h) h (ac_connections (app_slot aid mgr))"
  "ac_connections (app_slot aid (remove_connection aid sid mgr)) =
     ddel sid (ac_connections (app_slot aid mgr))"
  "ac_connections (app_slot aid (unregister_connection aid sid mgr)) =
     ddel sid (ac_connections (app_slot aid mgr))"
  by (simp_all add: insert_connection_def remove_connection_def unregister_connection_def Let_def
        app_slot_def app_channels_default_def split: option.split)

lemma registrations_ok_do:
  assumes "registrations_ok aid s"
  shows "registrations_ok aid (registration_do aid op s)"
proof (cases op)
  case (Enter h)
  with assms show ?thesis
    unfolding registrations_ok_def by (simp add: registrations_connections dkeys_dput zwf del: set_map)
next
  case (Decide limit sid)
  with assms show ?thesis
    unfolding registrations_ok_def by (auto simp: distinct_remove1 simp del: set_map)
next
  case (Withdraw sid)
  with assms show ?thesis
    unfolding registrations_ok_def
    by (auto simp: registrations_connections dkeys_ddel zwf distinct_remove1 simp del: set_map)
next
  case (Depart sid)
  with assms show ?thesis
    unfolding registrations_ok_def
    by (auto simp: registrations_connections dkeys_ddel zwf distinct_remove1 simp del: set_map)
qed

lemma registrations_ok_start: "mgr_wf mgr \<Longrightarrow> registrations_ok aid (registrations_of aid mgr)"
  using slot_wf_app_slot [of mgr aid]
  by (simp add: registrations_ok_def registrations_of_def slot_wf_def dwf_def)

lemma registrations_count:
  assumes "registrations_ok aid s"
  shows "connection_count aid (rg_mgr s) = length (rg_entering s) + length (rg_refused s) + length (rg_admitted s)"
proof -
  let ?c = "ac_connections (app_slot aid (rg_mgr s))" and ?l = "rg_entering s @ rg_refused s @ rg_admitted s"
  have "length ?c = card (set (dkeys ?c))"
    using assms distinct_card [of "dkeys ?c"] by (simp add: registrations_ok_def dwf_def)
  also have "\<dots> = length ?l" using assms distinct_card [of ?l] by (simp add: registrations_ok_def)
  finally show ?thesis by (simp add: app_slot_connections)
qed

text \<open>Once the limit is \<open>m\<close>, a decision admits exactly while everything registered, itself included, is within it.\<close>

lemma decide_admits:
  assumes "registrations_ok aid s" "sid \<in> set (rg_entering s)" "connection_count aid (rg_mgr s) < 2 ^ 32"
  shows "registration_do aid (Decide (Some m) sid) s =
           (if length (rg_entering s) + length (rg_refused s) + length (rg_admitted s) \<le> m
            then s\<lparr>rg_entering := remove1 sid (rg_entering s), rg_admitted := sid # rg_admitted s\<rparr>
            else s\<lparr>rg_entering := remove1 sid (rg_entering s), rg_refused := sid # rg_refused s\<rparr>)"
proof -
  have "over_limit (Some m) aid (rg_mgr s) \<longleftrightarrow> connection_count aid (rg_mgr s) > m"
    using assms(3) by (simp add: over_limit_def app_slot_connections)
  then show ?thesis using assms(2) registrations_count [OF assms(1)] by simp
qed

lemma registration_bound:
  assumes "registrations_ok aid s" "length (rg_admitted s) \<le> m" "connection_count aid (rg_mgr s) < 2 ^ 32"
    and "\<And>limit sid. op = Decide limit sid \<Longrightarrow> limit = Some m"
  shows "length (rg_admitted (registration_do aid op s)) \<le> m \<and>
         connection_count aid (rg_mgr (registration_do aid op s)) \<le> connection_count aid (rg_mgr s) + 1"
proof (cases op)
  case (Decide limit sid)
  then have m: "op = Decide (Some m) sid" using assms(4) by simp
  show ?thesis
  proof (cases "sid \<in> set (rg_entering s)")
    case True
    then have "length (rg_admitted s) + 1 \<le> length (rg_entering s) + length (rg_refused s) + length (rg_admitted s)"
      by (cases "rg_entering s") auto
    with assms(2) show ?thesis unfolding m decide_admits [OF assms(1) True assms(3)] by simp
  qed (use assms(2) m in simp)
qed (use assms(2) in \<open>auto simp: app_slot_connections registrations_connections length_dput length_remove1
       intro: le_trans [OF length_delete_le]\<close>)

lemma registration_run:
  assumes "registrations_ok aid s" "length (rg_admitted s) \<le> m"
    and "connection_count aid (rg_mgr s) + length ops < 2 ^ 32"
    and "\<And>limit sid. Decide limit sid \<in> set ops \<Longrightarrow> limit = Some m"
  defines "s' \<equiv> fold (registration_do aid) ops s"
  shows "registrations_ok aid s' \<and> length (rg_admitted s') \<le> m \<and> connection_count aid (rg_mgr s') < 2 ^ 32"
  unfolding s'_def using assms(1-4)
proof (induction ops arbitrary: s)
  case (Cons op ops)
  have "length (rg_admitted (registration_do aid op s)) \<le> m \<and>
      connection_count aid (rg_mgr (registration_do aid op s)) \<le> connection_count aid (rg_mgr s) + 1"
    by (rule registration_bound) (use Cons.prems in auto)
  with Cons.prems show ?case
    unfolding fold_Cons o_apply by (intro Cons.IH registrations_ok_do) auto
qed simp

text \<open>
  C27: The connection limit holds under every interleaving of registrations and departures, although
  a registration inserts first and reads the count afterwards without a lock. From a registry within
  the limit, at every moment at most the maximum number of connections is admitted; a registration
  is admitted exactly when all connections then in the map (admitted, entering and refused but not
  yet removed, itself included) are within the maximum, so that without concurrent registrations it
  is refused exactly when the maximum is already admitted; and once no registration is in progress
  the connections in the map are exactly the admitted ones.
\<close>

theorem connection_limit:
  assumes "mgr_wf mgr" "connection_count aid mgr \<le> m" "m + length ops < 2 ^ 32"
    and "\<And>limit sid. Decide limit sid \<in> set ops \<Longrightarrow> limit = Some m"
  shows "let s = fold (registration_do aid) ops (registrations_of aid mgr) in
           length (rg_admitted s) \<le> m \<and>
           (\<forall>sid\<in>set (rg_entering s).
              sid \<in> set (rg_admitted (registration_do aid (Decide (Some m) sid) s)) \<longleftrightarrow>
              length (rg_entering s) + length (rg_refused s) + length (rg_admitted s) \<le> m) \<and>
           (rg_entering s = [] \<and> rg_refused s = [] \<longrightarrow>
              (\<forall>sid. handle_for_socket aid sid (rg_mgr s) \<noteq> None \<longleftrightarrow> sid \<in> set (rg_admitted s)))"
proof -
  define s where "s = fold (registration_do aid) ops (registrations_of aid mgr)"
  have "registrations_ok aid s \<and> length (rg_admitted s) \<le> m \<and> connection_count aid (rg_mgr s) < 2 ^ 32"
    unfolding s_def
    by (rule registration_run [OF registrations_ok_start [OF assms(1)]])
       (use assms(2-4) in \<open>auto simp: registrations_of_def app_slot_connections\<close>)
  then have ok: "registrations_ok aid s" and m: "length (rg_admitted s) \<le> m"
    and small: "connection_count aid (rg_mgr s) < 2 ^ 32" by blast+
  have "sid \<notin> set (rg_admitted s)" if "sid \<in> set (rg_entering s)" for sid
    using ok that by (auto simp: registrations_ok_def)
  then have admit: "sid \<in> set (rg_admitted (registration_do aid (Decide (Some m) sid) s)) \<longleftrightarrow>
      length (rg_entering s) + length (rg_refused s) + length (rg_admitted s) \<le> m"
    if "sid \<in> set (rg_entering s)" for sid
    using that unfolding decide_admits [OF ok that small] by simp
  have "handle_for_socket aid sid (rg_mgr s) \<noteq> None \<longleftrightarrow> sid \<in> set (rg_admitted s)"
    if "rg_entering s = []" "rg_refused s = []" for sid
    using ok that dhas_iff [of "ac_connections (app_slot aid (rg_mgr s))" sid]
    by (simp add: registrations_ok_def app_slot_connections dhas_def del: set_map)
  with admit m show ?thesis unfolding s_def [symmetric] Let_def by blast
qed

text \<open>Two clients race for the last place: both are in the map when the first decides, and it is refused.\<close>

theorem connection_limit_witness:
  "let s = fold (registration_do ''1'')
             [Enter \<lparr>h_socket_id = ''1.1'', h_tx = 1\<rparr>, Decide (Some 2) ''1.1'', Enter \<lparr>h_socket_id = ''2.2'', h_tx = 2\<rparr>,
              Enter \<lparr>h_socket_id = ''3.3'', h_tx = 3\<rparr>, Decide (Some 2) ''3.3''] (registrations_of ''1'' manager_new)
   in length (rg_admitted s) \<le> 2 \<and> rg_admitted s = [''1.1''] \<and> rg_entering s = [''2.2''] \<and> rg_refused s = [''3.3'']"
proof -
  let ?ops = "[Enter \<lparr>h_socket_id = ''1.1'', h_tx = 1\<rparr>, Decide (Some 2) ''1.1'', Enter \<lparr>h_socket_id = ''2.2'', h_tx = 2\<rparr>,
    Enter \<lparr>h_socket_id = ''3.3'', h_tx = 3\<rparr>, Decide (Some 2) ''3.3'']"
  have "connection_count ''1'' manager_new \<le> 2" by (simp add: connection_count_def manager_new_def)
  moreover have "2 + length ?ops < 2 ^ 32" by simp
  moreover have "limit = Some 2" if "Decide limit sid \<in> set ?ops" for limit sid using that by auto
  ultimately have "length (rg_admitted (fold (registration_do ''1'') ?ops (registrations_of ''1'' manager_new))) \<le> 2"
    by (rule connection_limit [OF mgr_wf_new, unfolded Let_def, THEN conjunct1])
  moreover have "let s = fold (registration_do ''1'') ?ops (registrations_of ''1'' manager_new)
     in rg_admitted s = [''1.1''] \<and> rg_entering s = [''2.2''] \<and> rg_refused s = [''3.3'']"
    by (simp add: registrations_of_def insert_connection_def over_limit_def app_slot_def manager_new_def
          app_channels_default_def)
  ultimately show ?thesis unfolding Let_def by blast
qed

text \<open>Taking a user's lock and giving it back restores the application's state.\<close>

lemma user_lock_exit_enter:
  assumes "mgr_wf mgr"
  shows "app_slot a (user_lock_exit aid uid (user_lock_enter aid uid mgr)) = app_slot a mgr"
proof -
  have "dget (ac_user_locks (app_slot aid mgr)) uid \<noteq> Some 0"
    using slot_wf_app_slot [OF assms, of aid] by (auto simp: slot_wf_def dest: dall_get)
  then show ?thesis
    by (cases "dget (ac_user_locks (app_slot aid mgr)) uid")
       (auto simp: user_lock_exit_def user_lock_enter_def Let_def dremove_if_def dput_same ddel_absent)
qed

end
