(* ===== verification/Auth_Signing.thy ===== *)
theory Auth_Signing
  imports Sample_Ext "HOL-Library.Multiset"
begin

text \<open>
  Who may do what: the tokens of private channels and of sign-in (\<open>zatat-protocol/src/auth.rs\<close>), the
  signature of an HTTP request (\<open>http_sign.rs\<close>) and its verification (\<open>zatat-http/src/sign.rs\<close>), and
  the payloads of encrypted channels (\<open>encryption.rs\<close>). The locale \<open>token_scheme\<close> is the contract
  the two kinds of token share; it is interpreted on both.
\<close>

section \<open>Channel and user tokens\<close>

datatype channel_auth_error = BadFormat | KeyMismatch | Mismatch

definition ct_eq_bytes :: "string \<Rightarrow> string \<Rightarrow> bool" where
  "ct_eq_bytes a b \<longleftrightarrow> a = b"

definition hmac_hex :: "ext \<Rightarrow> string \<Rightarrow> string \<Rightarrow> string" where
  "hmac_hex E key msg = x_hex E (x_hmac E key msg)"

definition canonical_channel_string :: "string \<Rightarrow> string \<Rightarrow> string option \<Rightarrow> string" where
  "canonical_channel_string sid channel channel_data =
     (case channel_data of
        Some d \<Rightarrow> sid @ '':'' @ channel @ '':'' @ d
      | None \<Rightarrow> sid @ '':'' @ channel)"

definition sign_channel_auth ::
  "ext \<Rightarrow> string \<Rightarrow> string \<Rightarrow> string \<Rightarrow> string option \<Rightarrow> string \<Rightarrow> string" where
  "sign_channel_auth E key sid channel channel_data secret =
     (let canonical = canonical_channel_string sid channel channel_data;
          sig = hmac_hex E secret canonical
      in key @ '':'' @ sig)"

definition verify_channel_auth ::
  "ext \<Rightarrow> string \<Rightarrow> string \<Rightarrow> string \<Rightarrow> string option \<Rightarrow> string \<Rightarrow> string \<Rightarrow>
   channel_auth_error + unit" where
  "verify_channel_auth E expected_key sid channel channel_data auth secret =
     (case split_once '':'' auth of
        None \<Rightarrow> Inl BadFormat
      | Some (given_key, given_sig) \<Rightarrow>
          (let canonical = canonical_channel_string sid channel channel_data;
               expected = hmac_hex E secret canonical;
               key_ok = ct_eq_bytes given_key expected_key;
               sig_ok = ct_eq_bytes given_sig expected
           in if key_ok \<and> sig_ok then Inr ()
              else if \<not> key_ok then Inl KeyMismatch else Inl Mismatch))"

definition canonical_user_string :: "string \<Rightarrow> string \<Rightarrow> string" where
  "canonical_user_string sid user_data = sid @ ''::user::'' @ user_data"

definition sign_user_auth :: "ext \<Rightarrow> string \<Rightarrow> string \<Rightarrow> string \<Rightarrow> string \<Rightarrow> string" where
  "sign_user_auth E key sid user_data secret =
     (let canonical = canonical_user_string sid user_data;
          sig = hmac_hex E secret canonical
      in key @ '':'' @ sig)"

definition verify_user_auth ::
  "ext \<Rightarrow> string \<Rightarrow> string \<Rightarrow> string \<Rightarrow> string \<Rightarrow> string \<Rightarrow> channel_auth_error + unit" where
  "verify_user_auth E expected_key sid user_data auth secret =
     (case split_once '':'' auth of
        None \<Rightarrow> Inl BadFormat
      | Some (given_key, given_sig) \<Rightarrow>
          (let canonical = canonical_user_string sid user_data;
               expected = hmac_hex E secret canonical;
               key_ok = ct_eq_bytes given_key expected_key;
               sig_ok = ct_eq_bytes given_sig expected
           in if key_ok \<and> sig_ok then Inr ()
              else if \<not> key_ok then Inl KeyMismatch else Inl Mismatch))"

section \<open>Encrypted payloads\<close>

datatype encryption_error =
    InvalidMasterKey | WrongMasterKeyLength | EncryptFailed | DecryptFailed | BadEnvelope

definition looks_encrypted :: "ext \<Rightarrow> string \<Rightarrow> bool" where
  "looks_encrypted E data =
     (case x_from_str E data of
        None \<Rightarrow> False
      | Some v \<Rightarrow> json_get v ''nonce'' \<noteq> None \<and> json_get v ''ciphertext'' \<noteq> None)"

definition decode_master_key :: "ext \<Rightarrow> string \<Rightarrow> encryption_error + string" where
  "decode_master_key E b64 =
     (case x_b64_decode E b64 of
        None \<Rightarrow> Inl InvalidMasterKey
      | Some bytes \<Rightarrow> if length bytes = 32 then Inr bytes else Inl WrongMasterKeyLength)"

definition derive_shared_secret :: "ext \<Rightarrow> string \<Rightarrow> string \<Rightarrow> string" where
  "derive_shared_secret E channel master = x_sha256 E (channel @ master)"

text \<open>The nonce \<open>generate_nonce\<close> draws is an argument.\<close>

definition encrypt_payload :: "ext \<Rightarrow> string \<Rightarrow> string \<Rightarrow> string \<Rightarrow> encryption_error + string" where
  "encrypt_payload E nonce plaintext secret =
     (case x_seal E secret nonce plaintext of
        None \<Rightarrow> Inl EncryptFailed
      | Some ct \<Rightarrow> Inr (x_to_string E (JObject
          [(''nonce'', JString (x_b64_encode E nonce)),
           (''ciphertext'', JString (x_b64_encode E ct))])))"

definition decrypt_payload :: "ext \<Rightarrow> string \<Rightarrow> string \<Rightarrow> encryption_error + string" where
  "decrypt_payload E envelope_json secret =
     (case x_envelope E envelope_json of
        None \<Rightarrow> Inl BadEnvelope
      | Some (nonce, ciphertext) \<Rightarrow>
          (case x_b64_decode E nonce of
             None \<Rightarrow> Inl BadEnvelope
           | Some nonce_bytes \<Rightarrow>
               if length nonce_bytes \<noteq> 24 then Inl BadEnvelope
               else (case x_b64_decode E ciphertext of
                       None \<Rightarrow> Inl BadEnvelope
                     | Some ct_bytes \<Rightarrow>
                         (case x_open E secret nonce_bytes ct_bytes of
                            None \<Rightarrow> Inl DecryptFailed
                          | Some pt \<Rightarrow> Inr pt))))"

section \<open>HTTP signatures\<close>

definition body_md5_hex :: "ext \<Rightarrow> string \<Rightarrow> string" where
  "body_md5_hex E body = x_md5 E body"

definition EXCLUDED :: "string list" where
  "EXCLUDED = [''auth_signature'', ''body_md5'', ''appId'', ''appKey'', ''channelName'']"

fun join_with :: "string \<Rightarrow> string list \<Rightarrow> string" where
  "join_with sep [] = []"
| "join_with sep [x] = x"
| "join_with sep (x # y # xs) = x @ sep @ join_with sep (y # xs)"

definition signed_params :: "ext \<Rightarrow> string \<Rightarrow> (string \<times> string) list \<Rightarrow> (string \<times> string) list" where
  "signed_params E body query_params =
     (let filtered = filter (\<lambda>(k, _). k \<notin> set EXCLUDED) query_params;
          filtered = (if body \<noteq> [] then filtered @ [(''body_md5'', body_md5_hex E body)]
                      else filtered);
          filtered = map (\<lambda>(k, v). (to_ascii_lowercase k, v)) filtered
      in sort_key fst filtered)"

definition canonical_http_string ::
  "ext \<Rightarrow> string \<Rightarrow> string \<Rightarrow> string \<Rightarrow> (string \<times> string) list \<Rightarrow> string" where
  "canonical_http_string E meth path body query_params =
     (let qs = join_with ''&'' (map (\<lambda>(k, v). k @ ''='' @ v) (signed_params E body query_params))
      in meth @ [CHR 0x0A] @ path @ [CHR 0x0A] @ qs)"

definition sign_http ::
  "ext \<Rightarrow> string \<Rightarrow> string \<Rightarrow> string \<Rightarrow> (string \<times> string) list \<Rightarrow> string \<Rightarrow> string" where
  "sign_http E meth path body query_params secret =
     x_hex E (x_hmac E secret (canonical_http_string E meth path body query_params))"

definition verify_http ::
  "ext \<Rightarrow> string \<Rightarrow> string \<Rightarrow> string \<Rightarrow> (string \<times> string) list \<Rightarrow> string \<Rightarrow> string \<Rightarrow> bool" where
  "verify_http E meth path body query_params given_signature secret =
     (let expected = sign_http E meth path body query_params secret
      in ct_eq_bytes expected given_signature)"

definition trim_end_slashes :: "string \<Rightarrow> string" where
  "trim_end_slashes s = rev (dropWhile (\<lambda>c. c = CHR ''/'') (rev s))"

definition strip_path_prefix :: "string \<Rightarrow> string \<Rightarrow> string" where
  "strip_path_prefix path pre =
     (if pre = [] then path
      else (let trimmed = trim_end_slashes pre in
            if trimmed = [] then path
            else (case strip_prefix path trimmed of
                    Some rest \<Rightarrow> if rest = [] then ''/''
                                 else if starts_with rest ''/'' then rest else path
                  | None \<Rightarrow> path)))"

section \<open>Verifying a request\<close>

text \<open>The byte sequences \<open>String::from_utf8\<close> accepts.\<close>

definition in_range :: "nat \<Rightarrow> nat \<Rightarrow> char \<Rightarrow> bool" where
  "in_range lo hi c \<longleftrightarrow> lo \<le> of_char c \<and> of_char c \<le> hi"

fun utf8_valid :: "string \<Rightarrow> bool" where
  "utf8_valid [] = True"
| "utf8_valid (a # s) =
     (if in_range 0 0x7F a then utf8_valid s
      else (case s of
        [] \<Rightarrow> False
      | b # s2 \<Rightarrow>
          if in_range 0xC2 0xDF a then in_range 0x80 0xBF b \<and> utf8_valid s2
          else (case s2 of
            [] \<Rightarrow> False
          | c # s3 \<Rightarrow>
              if in_range 0xE0 0xEF a then
                in_range (if in_range 0xE0 0xE0 a then 0xA0 else 0x80)
                         (if in_range 0xED 0xED a then 0x9F else 0xBF) b \<and>
                in_range 0x80 0xBF c \<and> utf8_valid s3
              else (case s3 of
                [] \<Rightarrow> False
              | d # s4 \<Rightarrow>
                  in_range 0xF0 0xF4 a \<and>
                  in_range (if in_range 0xF0 0xF0 a then 0x90 else 0x80)
                           (if in_range 0xF4 0xF4 a then 0x8F else 0xBF) b \<and>
                  in_range 0x80 0xBF c \<and> in_range 0x80 0xBF d \<and> utf8_valid s4))))"

declare utf8_valid.simps(2) [simp del]

fun pct_loop :: "string \<Rightarrow> string" where
  "pct_loop [] = []"
| "pct_loop (c # cs) =
     (if c = CHR ''%'' then
        (case cs of
           h # l # rest \<Rightarrow>
             (case (hex_value h, hex_value l) of
                (Some i, Some j) \<Rightarrow> char_of (i * 16 + j) # pct_loop rest
              | _ \<Rightarrow> c # pct_loop cs)
         | _ \<Rightarrow> c # pct_loop cs)
      else c # pct_loop cs)"

definition pct_decode :: "string \<Rightarrow> string" where
  "pct_decode s =
     (let replaced = map (\<lambda>c. if c = CHR ''+'' then CHR '' '' else c) s;
          out = pct_loop replaced
      in if utf8_valid out then out else [])"

definition parse_query :: "string option \<Rightarrow> (string \<times> string) list" where
  "parse_query query =
     (case query of
        None \<Rightarrow> []
      | Some q \<Rightarrow>
          map (\<lambda>pair. let (k, v) = (case split_once ''='' pair of Some kv \<Rightarrow> kv | None \<Rightarrow> (pair, []))
                       in (pct_decode k, pct_decode v))
            (filter (\<lambda>pair. pair \<noteq> []) (split_on (CHR ''&'') q)))"

definition AUTH_TIMESTAMP_GRACE_SECONDS :: nat where
  "AUTH_TIMESTAMP_GRACE_SECONDS = 600"

text \<open>\<open>str::parse::<i64>\<close>: an optional sign, then digits, within the range of the type.\<close>

definition parse_i64 :: "string \<Rightarrow> int option" where
  "parse_i64 s =
     (let (neg, digits) = (case s of
            c # cs \<Rightarrow> if c = CHR ''-'' then (True, cs) else if c = CHR ''+'' then (False, cs)
                     else (False, s)
          | [] \<Rightarrow> (False, []))
      in case parse_nat digits of
           None \<Rightarrow> None
         | Some n \<Rightarrow>
             (let i = (if neg then - int n else int n)
              in if - (2 ^ 63) \<le> i \<and> i < 2 ^ 63 then Some i else None))"

record verify_error =
  ve_code :: nat
  ve_message :: string

definition unauthorized :: "string \<Rightarrow> verify_error" where
  "unauthorized msg = \<lparr>ve_code = 401, ve_message = msg\<rparr>"

definition from_pusher :: "pusher_error \<Rightarrow> verify_error" where
  "from_pusher err = \<lparr>ve_code = 401, ve_message = message err\<rparr>"

definition show_int :: "int \<Rightarrow> string" where
  "show_int i = (if i < 0 then CHR ''-'' # show_nat (nat (- i)) else show_nat (nat i))"

definition query_param :: "(string \<times> string) list \<Rightarrow> string \<Rightarrow> string option" where
  "query_param pairs name = map_option snd (find (\<lambda>(k, _). eq_ignore_ascii_case k name) pairs)"

definition verify_request ::
  "ext \<Rightarrow> int \<Rightarrow> application \<Rightarrow> string \<Rightarrow> string \<Rightarrow> string option \<Rightarrow> string \<Rightarrow> string \<Rightarrow>
   verify_error + unit" where
  "verify_request E now app meth uri_path uri_query server_path_prefix body =
     (let pairs = parse_query uri_query in
      if \<not> distinct (map (\<lambda>(k, _). to_ascii_lowercase k) pairs)
      then Inl (unauthorized ''Duplicate query parameter'')
      else (case find (\<lambda>(k, _). k = ''auth_signature'') pairs of
        None \<Rightarrow> Inl (from_pusher InvalidAuthSignature)
      | Some (_, given_sig) \<Rightarrow>
      (case Option.bind (find (\<lambda>(k, _). k = ''auth_timestamp'') pairs) (\<lambda>(_, v). parse_i64 v) of
        None \<Rightarrow> Inl (unauthorized ''Timestamp required'')
      | Some ts \<Rightarrow>
          if nat \<bar>now - ts\<bar> > AUTH_TIMESTAMP_GRACE_SECONDS
          then Inl (unauthorized (''Timestamp expired: given timestamp '' @ show_int ts @
                 '' is more than '' @ show_nat AUTH_TIMESTAMP_GRACE_SECONDS @ '' seconds old''))
          else if (case query_param pairs ''auth_key'' of Some key \<Rightarrow> key \<noteq> app_key app | None \<Rightarrow> False)
          then Inl (unauthorized ''Invalid auth_key for this application'')
          else if (case query_param pairs ''auth_version'' of Some v \<Rightarrow> v \<noteq> ''1.0'' | None \<Rightarrow> False)
          then Inl (unauthorized ''Unsupported auth_version; expected 1.0'')
          else if (case query_param pairs ''body_md5'' of
                     Some md5 \<Rightarrow> \<not> eq_ignore_ascii_case md5 (body_md5_hex E body) | None \<Rightarrow> False)
          then Inl (unauthorized ''body_md5 does not match the request body'')
          else (let path = strip_path_prefix uri_path server_path_prefix in
                if \<not> verify_http E meth path body pairs given_sig (app_secret app)
                then Inl (unauthorized ''Authentication signature invalid.'')
                else Inr ()))))"

section \<open>The contract of a token\<close>

text \<open>
  A token is the app key, a colon and a tag of the message; accepting one means that the text
  before the first colon is the expected key and the rest is the tag.
\<close>

locale token_scheme =
  fixes sign :: "string \<Rightarrow> 'm \<Rightarrow> string \<Rightarrow> string"
    and verify :: "string \<Rightarrow> 'm \<Rightarrow> string \<Rightarrow> string \<Rightarrow> channel_auth_error + unit"
    and tag :: "string \<Rightarrow> 'm \<Rightarrow> string"
  assumes sign_eq: "sign key m secret = key @ CHR '':'' # tag secret m"
    and verify_ok: "verify key m auth secret = Inr () \<longleftrightarrow>
          split_once '':'' auth = Some (key, tag secret m)"
    and verify_bad_format: "verify key m auth secret = Inl BadFormat \<longleftrightarrow> CHR '':'' \<notin> set auth"
begin

lemma accepts_own: "CHR '':'' \<notin> set key \<Longrightarrow> verify key m (sign key m secret) secret = Inr ()"
  by (simp add: sign_eq verify_ok split_once_char)

lemma accepted_is_signed: "verify key m auth secret = Inr () \<Longrightarrow> auth = sign key m secret"
  by (auto simp: sign_eq verify_ok dest: split_once_Some)

lemma accepted_iff:
  "CHR '':'' \<notin> set key \<Longrightarrow> verify key m auth secret = Inr () \<longleftrightarrow> auth = sign key m secret"
  using accepts_own accepted_is_signed by blast

lemma colon_key_never_accepted: "CHR '':'' \<in> set key \<Longrightarrow> verify key m auth secret \<noteq> Inr ()"
  by (auto simp: verify_ok dest: split_once_char_first)

end

interpretation channel_token: token_scheme
  "\<lambda>key (sid, channel, d) secret. sign_channel_auth E key sid channel d secret"
  "\<lambda>key (sid, channel, d) auth secret. verify_channel_auth E key sid channel d auth secret"
  "\<lambda>secret (sid, channel, d). hmac_hex E secret (canonical_channel_string sid channel d)"
  for E
  by unfold_locales
     (auto simp: sign_channel_auth_def verify_channel_auth_def ct_eq_bytes_def Let_def
        split_once_char_None [symmetric] split: option.splits if_splits)

interpretation user_token: token_scheme
  "\<lambda>key (sid, d) secret. sign_user_auth E key sid d secret"
  "\<lambda>key (sid, d) auth secret. verify_user_auth E key sid d auth secret"
  "\<lambda>secret (sid, d). hmac_hex E secret (canonical_user_string sid d)"
  for E
  by unfold_locales
     (auto simp: sign_user_auth_def verify_user_auth_def ct_eq_bytes_def Let_def
        split_once_char_None [symmetric] split: option.splits if_splits)

text \<open>
  C8: A channel token is accepted exactly when the app key has no colon and the token is the one the
  app's secret signs for this socket, channel and channel data: the key, a colon and the keyed hash
  of the canonical string, in hexadecimal. With a colon in the key no token is accepted.
\<close>

theorem verify_channel_auth_iff:
  "verify_channel_auth E key sid channel d auth secret = Inr () \<longleftrightarrow>
     CHR '':'' \<notin> set key \<and> auth = sign_channel_auth E key sid channel d secret"
proof (cases "CHR '':'' \<in> set key")
  case True
  from channel_token.colon_key_never_accepted [OF this, of E "(sid, channel, d)"] True show ?thesis by simp
next
  case False
  from channel_token.accepted_iff [OF this, of E "(sid, channel, d)"] False show ?thesis by simp
qed

text \<open>
  C34: An app key with a colon locks its clients out: no channel token and no sign-in token is ever
  accepted, not even the one the server's own signer produces, because the verifier splits at the
  first colon.
\<close>

theorem colon_key_rejects_all:
  assumes "CHR '':'' \<in> set key"
  shows "verify_channel_auth E key sid channel d auth secret \<noteq> Inr () \<and>
         verify_user_auth E key sid user_data auth secret \<noteq> Inr ()"
  using channel_token.colon_key_never_accepted [OF assms, of E "(sid, channel, d)"]
    user_token.colon_key_never_accepted [OF assms, of E "(sid, user_data)"] by simp

theorem colon_key_rejects_all_witness:
  "verify_channel_auth sample_ext ''a:b'' ''1.2'' ''private-a'' None
     (sign_channel_auth sample_ext ''a:b'' ''1.2'' ''private-a'' None ''s'') ''s'' \<noteq> Inr ()"
  using colon_key_rejects_all [of "''a:b''" sample_ext "''1.2''" "''private-a''" None _ "''s''"]
  by simp

section \<open>Tokens for different purposes\<close>

lemma valid_name_no_colon: "is_valid_channel_name c \<Longrightarrow> CHR '':'' \<notin> set c"
  by (auto simp: is_valid_channel_name_def list_all_iff valid_name_byte_def split: if_splits)

lemma valid_name_nonempty: "is_valid_channel_name c \<Longrightarrow> c \<noteq> []"
  by (auto simp: is_valid_channel_name_def)

lemma split_at_colon:
  assumes "CHR '':'' \<notin> set a" "CHR '':'' \<notin> set b" "a @ CHR '':'' # x = b @ CHR '':'' # y"
  shows "a = b \<and> x = y"
proof -
  have "Some (a, x) = split_once '':'' (b @ CHR '':'' # y)"
    unfolding assms(3) [symmetric] by (rule split_once_char [OF assms(1), symmetric])
  also have "\<dots> = Some (b, y)" by (rule split_once_char [OF assms(2)])
  finally show ?thesis by simp
qed

text \<open>What follows the socket id in the text signed for a subscription.\<close>

definition channel_text :: "string \<Rightarrow> string option \<Rightarrow> string" where
  "channel_text channel d = channel @ (case d of Some x \<Rightarrow> CHR '':'' # x | None \<Rightarrow> [])"

lemma canonical_channel_text:
  "canonical_channel_string sid channel d = sid @ CHR '':'' # channel_text channel d"
  by (simp add: canonical_channel_string_def channel_text_def split: option.split)

lemma channel_text_inj:
  assumes "CHR '':'' \<notin> set c" "CHR '':'' \<notin> set c'" "channel_text c d = channel_text c' d'"
  shows "c = c' \<and> d = d'"
proof (cases d)
  case None
  with assms show ?thesis by (cases d') (auto simp: channel_text_def)
next
  case (Some x)
  then have "CHR '':'' \<in> set (channel_text c d)" by (simp add: channel_text_def)
  then have "CHR '':'' \<in> set (channel_text c' d')" by (simp only: assms(3))
  with assms(2) obtain y where "d' = Some y" by (cases d') (auto simp: channel_text_def)
  with assms(3) Some have "c @ CHR '':'' # x = c' @ CHR '':'' # y"
    by (simp add: channel_text_def)
  from split_at_colon [OF assms(1,2) this] Some \<open>d' = Some y\<close> show ?thesis by simp
qed

lemma channel_text_head:
  assumes "is_valid_channel_name c"
  shows "channel_text c d \<noteq> CHR '':'' # rest"
  using valid_name_nonempty [OF assms] valid_name_no_colon [OF assms]
  by (cases c) (auto simp: channel_text_def)

text \<open>
  C29: Domain separation. For socket ids and channel names as the server admits them, the texts
  signed for two subscriptions are equal only when socket, channel and channel data all are, and
  the text signed for a subscription is never the text signed for a sign-in: a token issued for one
  purpose covers no other.
\<close>

theorem canonical_strings_separate:
  assumes "CHR '':'' \<notin> set sid" "CHR '':'' \<notin> set sid'"
    and "is_valid_channel_name channel" "is_valid_channel_name channel'"
  shows "(canonical_channel_string sid channel d = canonical_channel_string sid' channel' d' \<longleftrightarrow>
            sid = sid' \<and> channel = channel' \<and> d = d') \<and>
         canonical_channel_string sid channel d \<noteq> canonical_user_string sid' user_data"
proof
  note no = valid_name_no_colon [OF assms(3)] valid_name_no_colon [OF assms(4)]
  note sep = split_at_colon [OF assms(1,2)]
  show "canonical_channel_string sid channel d = canonical_channel_string sid' channel' d' \<longleftrightarrow>
          sid = sid' \<and> channel = channel' \<and> d = d'"
  proof
    assume eq: "canonical_channel_string sid channel d = canonical_channel_string sid' channel' d'"
    note parts = sep [OF eq [unfolded canonical_channel_text]]
    with channel_text_inj [OF no parts [THEN conjunct2]]
    show "sid = sid' \<and> channel = channel' \<and> d = d'" by simp
  qed simp
  show "canonical_channel_string sid channel d \<noteq> canonical_user_string sid' user_data"
  proof
    assume eq: "canonical_channel_string sid channel d = canonical_user_string sid' user_data"
    have "sid @ CHR '':'' # channel_text channel d =
        sid' @ CHR '':'' # (CHR '':'' # ''user::'' @ user_data)"
      using eq unfolding canonical_channel_text canonical_user_string_def by simp
    from sep [OF this] channel_text_head [OF assms(3)] show False by blast
  qed
qed

theorem canonical_strings_separate_witness:
  "canonical_channel_string ''1.2'' ''private-a'' None \<noteq> canonical_user_string ''1.2'' ''x'' \<and>
   canonical_channel_string ''1.2'' ''private-a'' None \<noteq>
     canonical_channel_string ''1.3'' ''private-a'' None"
  using canonical_strings_separate [of "''1.2''" "''1.3''" "''private-a''" "''private-a''" None None]
    canonical_strings_separate [of "''1.2''" "''1.2''" "''private-a''" "''private-a''" None None "''x''"]
  by (simp add: is_valid_channel_name_def MAX_CHANNEL_NAME_LEN_def valid_name_byte_def)

section \<open>The canonical string of a request\<close>

lemma filter_key_singleton:
  "distinct (map f xs) \<Longrightarrow> mset xs = mset ys \<Longrightarrow> filter (\<lambda>x. f x = k) xs = filter (\<lambda>x. f x = k) ys"
proof -
  assume d: "distinct (map f xs)" and m: "mset xs = mset ys"
  have le: "length (filter (\<lambda>x. f x = k) zs) \<le> 1" if "distinct (map f zs)" for zs
    using that
  proof (induction zs)
    case (Cons z zs)
    then show ?case
      by (cases "f z = k") (auto simp: filter_empty_conv dest: rev_image_eqI [OF _ sym])
  qed simp
  have e: "mset (filter (\<lambda>x. f x = k) ys) = mset (filter (\<lambda>x. f x = k) xs)" using m by simp
  from le [OF d] consider "filter (\<lambda>x. f x = k) xs = []" | x where "filter (\<lambda>x. f x = k) xs = [x]"
    by (cases "filter (\<lambda>x. f x = k) xs") auto
  then show ?thesis
    using e by cases (metis mset_zero_iff, metis mset_single_iff mset.simps)
qed

lemma sort_key_by_class:
  assumes "mset xs = mset ys" and "\<And>k. filter (\<lambda>x. f x = k) xs = filter (\<lambda>x. f x = k) ys"
  shows "sort_key f xs = sort_key f ys"
proof (rule properties_for_sort_key)
  show "mset (sort_key f ys) = mset xs" using assms(1) by simp
  show "filter (\<lambda>x. f k = f x) (sort_key f ys) = filter (\<lambda>x. f k = f x) xs" for k
    using assms(2) [of "f k"] by (simp add: sort_key_stable eq_commute [of "f k"])
qed simp

lemma signed_params_perm:
  assumes "mset ps = mset qs" and "distinct (map (\<lambda>(k, _). to_ascii_lowercase k) ps)"
  shows "signed_params E body ps = signed_params E body qs"
proof -
  let ?low = "\<lambda>(k, v). (to_ascii_lowercase k, v)"
  let ?keep = "filter (\<lambda>(k, _). k \<notin> set EXCLUDED)"
  have m: "mset (map ?low (?keep ps)) = mset (map ?low (?keep qs))" using assms(1) by simp
  have d: "distinct (map fst (map ?low (?keep ps)))"
    using distinct_map_filter [OF assms(2), of "\<lambda>(k, _). k \<notin> set EXCLUDED"]
    by (simp add: comp_def case_prod_unfold)
  have "sort_key fst (map ?low (?keep ps) @ xs) = sort_key fst (map ?low (?keep qs) @ xs)" for xs
    using m filter_key_singleton [OF d m] by (intro sort_key_by_class) simp_all
  from this [of "[]"] this [of "[(''body_md5'', body_md5_hex E body)]"] show ?thesis
    by (auto simp: signed_params_def Let_def to_ascii_lowercase_def ascii_lower_char_def)
qed

text \<open>
  The signature of a request does not depend on the order of its query parameters, as long as
  no parameter is repeated up to case.
\<close>

theorem sign_http_order_independent:
  assumes "mset ps = mset qs" and "distinct (map (\<lambda>(k, _). to_ascii_lowercase k) ps)"
  shows "sign_http E meth path body ps secret = sign_http E meth path body qs secret"
  by (simp add: sign_http_def canonical_http_string_def signed_params_perm [OF assms])

theorem sign_http_order_independent_witness:
  "sign_http sample_ext ''GET'' ''/x'' [] [(''b'', ''1''), (''a'', ''2'')] ''s'' =
   sign_http sample_ext ''GET'' ''/x'' [] [(''a'', ''2''), (''b'', ''1'')] ''s''"
  by (rule sign_http_order_independent)
     (simp_all add: to_ascii_lowercase_def ascii_lower_char_def)

lemma canonical_http_ignores_signature:
  "canonical_http_string E meth path body (ps @ [(''auth_signature'', s)]) =
     canonical_http_string E meth path body ps"
  by (simp add: canonical_http_string_def signed_params_def EXCLUDED_def)

section \<open>Query strings\<close>

text \<open>
  A client's encoder: every byte outside \<open>safe\<close> is written as a percent sign and two hexadecimal
  digits.
\<close>

definition pct_encode :: "(char \<Rightarrow> bool) \<Rightarrow> string \<Rightarrow> string" where
  "pct_encode safe s = concat (map (\<lambda>c. if safe c then [c]
     else [CHR ''%'', hex_digit (of_char c div 16), hex_digit (of_char c mod 16)]) s)"

definition encode_query :: "(char \<Rightarrow> bool) \<Rightarrow> (string \<times> string) list \<Rightarrow> string" where
  "encode_query safe ps =
     join_with ''&'' (map (\<lambda>(k, v). pct_encode safe k @ ''='' @ pct_encode safe v) ps)"

lemma high_digit: "(of_char c :: nat) div 16 < 16"
  using nat_of_char_less_256 [of c] by (simp add: div_less_iff_less_mult)

lemma hex_digit_plain:
  "d < 16 \<Longrightarrow> hex_digit d \<notin> {CHR ''%'', CHR ''+'', CHR ''&'', CHR ''=''}"
  by (auto simp: hex_digit_def dest!: arg_cong [where f = "of_char :: char \<Rightarrow> nat"]
        simp: of_char_char_of_nat)

lemma pct_encode_chars:
  "safe c = False \<Longrightarrow> c \<in> {CHR ''+'', CHR ''&'', CHR ''=''} \<Longrightarrow> c \<notin> set (pct_encode safe s)"
  using hex_digit_plain [OF high_digit] hex_digit_plain [of "of_char _ mod 16"]
  by (fastforce simp: pct_encode_def split: if_splits)

lemma pct_loop_encode:
  assumes "\<not> safe (CHR ''%'')"
  shows "pct_loop (pct_encode safe s) = s"
proof (induction s)
  case (Cons c s)
  then show ?case
    using assms high_digit [of c] by (auto simp: pct_encode_def hex_digit_value)
qed (simp add: pct_encode_def)

lemma pct_decode_encode:
  assumes "\<not> safe (CHR ''%'')" "\<not> safe (CHR ''+'')" "utf8_valid s"
  shows "pct_decode (pct_encode safe s) = s"
proof -
  have "map (\<lambda>c. if c = CHR ''+'' then CHR '' '' else c) (pct_encode safe s) = pct_encode safe s"
    using pct_encode_chars [of safe "CHR ''+''"] assms(2) by (intro map_idI) auto
  with assms show ?thesis by (simp add: pct_decode_def pct_loop_encode Let_def)
qed

lemma split_on_join:
  "\<forall>x\<in>set xs. c \<notin> set x \<Longrightarrow> xs \<noteq> [] \<Longrightarrow> split_on c (join_with [c] xs) = xs"
  by (induction "[c]" xs rule: join_with.induct)
     (auto simp: split_on_no_sep split_on_append_sep)

lemma parse_query_encode:
  assumes "\<And>c. c \<in> set ''%+&='' \<Longrightarrow> \<not> safe c"
    and "\<And>k v. (k, v) \<in> set ps \<Longrightarrow> utf8_valid k \<and> utf8_valid v"
  shows "parse_query (Some (encode_query safe ps)) = ps"
proof (cases "ps = []")
  case True
  then show ?thesis by (simp add: parse_query_def encode_query_def)
next
  case False
  let ?f = "\<lambda>(k, v). pct_encode safe k @ ''='' @ pct_encode safe v"
  have eq: "CHR ''='' \<notin> set (pct_encode safe s)" and amp: "CHR ''&'' \<notin> set (pct_encode safe s)" for s
    using pct_encode_chars [of safe] assms(1) by auto
  have "split_on (CHR ''&'') (encode_query safe ps) = map ?f ps"
    unfolding encode_query_def using amp False by (subst split_on_join) auto
  moreover have "filter (\<lambda>pair. pair \<noteq> []) (map ?f ps) = map ?f ps"
    by (rule filter_True) auto
  moreover have "(let (k, v) = (case split_once ''='' (?f p) of Some kv \<Rightarrow> kv | None \<Rightarrow> (?f p, []))
      in (pct_decode k, pct_decode v)) = p" if "p \<in> set ps" for p
    using split_once_char [OF eq] assms that by (cases p) (auto simp: pct_decode_encode)
  ultimately show ?thesis
    by (simp add: parse_query_def map_idI comp_def del: append.simps)
qed

section \<open>Accepted requests\<close>

lemma find_key: "find (\<lambda>(k, _). k = x) ps = map_option (Pair x) (map_of ps x)"
  by (induction ps) auto

lemma bind_map_option [simp]: "Option.bind (map_option f x) g = Option.bind x (\<lambda>y. g (f y))"
  by (cases x) simp_all

text \<open>What an accepted request guarantees; \<open>ps\<close> are its parsed parameters.\<close>

definition request_ok ::
  "ext \<Rightarrow> int \<Rightarrow> application \<Rightarrow> string \<Rightarrow> string \<Rightarrow> (string \<times> string) list \<Rightarrow> string \<Rightarrow> int \<Rightarrow> bool" where
  "request_ok E now app meth path ps body ts \<longleftrightarrow>
     distinct (map (\<lambda>(k, _). to_ascii_lowercase k) ps) \<and>
     Option.bind (map_of ps ''auth_timestamp'') parse_i64 = Some ts \<and> \<bar>now - ts\<bar> \<le> 600 \<and>
     query_param ps ''auth_key'' \<in> {None, Some (app_key app)} \<and>
     query_param ps ''auth_version'' \<in> {None, Some ''1.0''} \<and>
     (\<forall>md5. query_param ps ''body_md5'' = Some md5 \<longrightarrow>
        eq_ignore_ascii_case md5 (body_md5_hex E body)) \<and>
     map_of ps ''auth_signature'' = Some (sign_http E meth path body ps (app_secret app))"

lemma verify_request_iff:
  "verify_request E now app meth uri_path q pre body = Inr () \<longleftrightarrow>
     (\<exists>ts. request_ok E now app meth (strip_path_prefix uri_path pre) (parse_query q) body ts)"
  unfolding verify_request_def request_ok_def find_key Let_def
  by (cases "map_of (parse_query q) ''auth_signature''";
      cases "Option.bind (map_of (parse_query q) ''auth_timestamp'') parse_i64")
     (auto simp: AUTH_TIMESTAMP_GRACE_SECONDS_def verify_http_def ct_eq_bytes_def
        split: option.splits)

lemma query_param_append:
  "query_param (ps @ qs) n =
     (case query_param ps n of Some v \<Rightarrow> Some v | None \<Rightarrow> query_param qs n)"
  by (induction ps) (auto simp: query_param_def split: option.split)

lemma query_param_other:
  "to_ascii_lowercase k \<noteq> to_ascii_lowercase n \<Longrightarrow> query_param [(k, v)] n = None"
  by (simp add: query_param_def eq_ignore_ascii_case_def)

lemma signature_not_declared:
  "query_param [(''auth_signature'', s)] ''auth_key'' = None"
  "query_param [(''auth_signature'', s)] ''auth_version'' = None"
  "query_param [(''auth_signature'', s)] ''body_md5'' = None"
  by (rule query_param_other; simp add: to_ascii_lowercase_def ascii_lower_char_def)+

lemma request_ok_signed:
  assumes "distinct (map (\<lambda>(k, _). to_ascii_lowercase k) ps)"
    and "query_param ps ''auth_signature'' = None"
    and "Option.bind (map_of ps ''auth_timestamp'') parse_i64 = Some ts" and "\<bar>now - ts\<bar> \<le> 600"
    and "query_param ps ''auth_key'' \<in> {None, Some (app_key app)}"
    and "query_param ps ''auth_version'' \<in> {None, Some ''1.0''}"
    and "query_param ps ''body_md5'' \<in> {None, Some (body_md5_hex E body)}"
  shows "request_ok E now app meth path
           (ps @ [(''auth_signature'', sign_http E meth path body ps (app_secret app))]) body ts"
proof -
  define sig where "sig = sign_http E meth path body ps (app_secret app)"
  define qs where "qs = ps @ [(''auth_signature'', sig)]"
  have fresh: "to_ascii_lowercase ''auth_signature'' \<notin> (\<lambda>(k, _). to_ascii_lowercase k) ` set ps"
    using assms(2) by (auto simp: query_param_def find_None_iff eq_ignore_ascii_case_def)
  then have "''auth_signature'' \<notin> fst ` set ps" by auto
  then have "map_of ps ''auth_signature'' = None" by (simp add: map_of_eq_None_iff)
  then have sig: "map_of qs ''auth_signature'' = Some sig"
    by (simp add: qs_def map_add_def)
  have ts: "map_of qs ''auth_timestamp'' = map_of ps ''auth_timestamp''"
    by (simp add: qs_def map_add_def split: option.split)
  have params: "query_param qs ''auth_key'' = query_param ps ''auth_key''"
    "query_param qs ''auth_version'' = query_param ps ''auth_version''"
    "query_param qs ''body_md5'' = query_param ps ''body_md5''"
    by (simp_all add: qs_def query_param_append signature_not_declared split: option.split)
  have signed: "sign_http E meth path body qs (app_secret app) = sig"
    by (simp add: qs_def sig_def sign_http_def canonical_http_ignores_signature)
  have "distinct (map (\<lambda>(k, _). to_ascii_lowercase k) qs)"
    using fresh assms(1) by (simp add: qs_def)
  then have "request_ok E now app meth path qs body ts"
    using assms(3-7) unfolding request_ok_def sig ts signed params
    by (intro conjI) (auto simp: eq_ignore_ascii_case_def)
  then show ?thesis by (simp add: qs_def sig_def)
qed

lemma utf8_ascii: "list_all (in_range 0 0x7F) s \<Longrightarrow> utf8_valid s"
  by (induction s) (simp_all add: utf8_valid.simps(2))

lemma utf8_auth_signature: "utf8_valid ''auth_signature''"
  by (rule utf8_ascii) (simp add: in_range_def)

lemma sign_and_send:
  assumes "\<And>c. c \<in> set ''%+&='' \<Longrightarrow> \<not> safe c"
    and "\<And>k v. (k, v) \<in> set ps \<Longrightarrow> utf8_valid k \<and> utf8_valid v"
    and "\<And>b. utf8_valid (x_hex E b)"
    and "distinct (map (\<lambda>(k, _). to_ascii_lowercase k) ps)"
    and "query_param ps ''auth_signature'' = None"
    and "Option.bind (map_of ps ''auth_timestamp'') parse_i64 = Some ts" and "\<bar>now - ts\<bar> \<le> 600"
    and "query_param ps ''auth_key'' \<in> {None, Some (app_key app)}"
    and "query_param ps ''auth_version'' \<in> {None, Some ''1.0''}"
    and "query_param ps ''body_md5'' \<in> {None, Some (body_md5_hex E body)}"
  shows "verify_request E now app meth uri_path
           (Some (encode_query safe (ps @ [(''auth_signature'',
              sign_http E meth (strip_path_prefix uri_path pre) body ps (app_secret app))])))
           pre body = Inr ()"
proof -
  let ?qs = "ps @ [(''auth_signature'',
    sign_http E meth (strip_path_prefix uri_path pre) body ps (app_secret app))]"
  have "parse_query (Some (encode_query safe ?qs)) = ?qs"
  proof (rule parse_query_encode [OF assms(1)])
    show "utf8_valid k \<and> utf8_valid v" if "(k, v) \<in> set ?qs" for k v
      using that assms(2) [of k v] assms(3) utf8_auth_signature by (auto simp: sign_http_def)
  qed
  then show ?thesis
    unfolding verify_request_iff using request_ok_signed [OF assms(4-10)] by auto
qed

definition letters_only :: "char \<Rightarrow> bool" where
  "letters_only c \<longleftrightarrow> in_range 97 122 c"

lemma letters_only_safe: "c \<in> set ''%+&='' \<Longrightarrow> \<not> letters_only c"
  by (auto simp: letters_only_def in_range_def)

lemma sample_hex_utf8: "utf8_valid (x_hex sample_ext b)"
proof -
  have "in_range 0 127 (hex_digit d)" if "d < 16" for d
    using that by (auto simp: hex_digit_def in_range_def of_char_char_of_nat)
  then have "list_all (in_range 0 127) (hex_encode b)"
    using high_digit by (auto simp: hex_encode_def list_all_iff)
  then show ?thesis by (simp add: sample_ext_def utf8_ascii)
qed

definition sample_query :: string where
  "sample_query = encode_query letters_only ([(''auth_timestamp'', ''7'')] @ [(''auth_signature'',
     sign_http sample_ext ''GET'' (strip_path_prefix ''/x'' []) [] [(''auth_timestamp'', ''7'')]
       (app_secret sample_app))])"

lemma sample_params:
  "(k, v) \<in> set [(''auth_timestamp'', ''7'')] \<Longrightarrow> utf8_valid k \<and> utf8_valid v"
  "distinct (map (\<lambda>(k, _). to_ascii_lowercase k) [(''auth_timestamp'', ''7'')])"
  "query_param [(''auth_timestamp'', ''7'')] ''auth_signature'' = None"
  "Option.bind (map_of [(''auth_timestamp'', ''7'')] ''auth_timestamp'') parse_i64 = Some 7"
  "query_param [(''auth_timestamp'', ''7'')] ''auth_key'' \<in> {None, Some (app_key sample_app)}"
  "query_param [(''auth_timestamp'', ''7'')] ''auth_version'' \<in> {None, Some ''1.0''}"
  "query_param [(''auth_timestamp'', ''7'')] ''body_md5'' \<in> {None, Some (body_md5_hex sample_ext [])}"
  by (simp_all add: utf8_ascii in_range_def query_param_def eq_ignore_ascii_case_def to_ascii_lowercase_def
        ascii_lower_char_def parse_i64_def parse_nat_def digit_value_def)

lemma sample_request:
  "verify_request sample_ext 9 sample_app ''GET'' ''/x'' (Some sample_query) [] [] = Inr ()"
  unfolding sample_query_def
  by (rule sign_and_send [where ts = 7,
        OF letters_only_safe sample_params(1) sample_hex_utf8 sample_params(2-4) _ sample_params(5-7)])
     simp_all

text \<open>
  C30: A request is accepted only when no parameter repeats up to case, its timestamp is within ten
  minutes of the server's clock, the key, version and body digest it declares are the right ones,
  and its signature is the one the app's secret gives for this method, path, body and parameters.
  It follows that a captured request cannot be replayed after twenty minutes.
\<close>

theorem verify_request_sound:
  assumes "verify_request E now app meth uri_path q pre body = Inr ()"
  shows "(\<exists>ts. request_ok E now app meth (strip_path_prefix uri_path pre) (parse_query q) body ts) \<and>
         (verify_request E later app meth uri_path q pre body = Inr () \<longrightarrow> \<bar>later - now\<bar> \<le> 1200)"
  using assms unfolding verify_request_iff by (auto simp: request_ok_def)

theorem verify_request_sound_witness:
  "\<exists>ts. request_ok sample_ext 9 sample_app ''GET'' ''/x'' (parse_query (Some sample_query)) [] ts"
  using verify_request_sound [OF sample_request] by (simp add: strip_path_prefix_def)

text \<open>
  C31: A request built as the SDKs build it is accepted: sign the parameters, append the signature,
  percent-encode the whole, and send it within ten minutes.
\<close>

theorem signed_request_accepted:
  assumes "\<And>c. c \<in> set ''%+&='' \<Longrightarrow> \<not> safe c"
    and "\<And>k v. (k, v) \<in> set ps \<Longrightarrow> utf8_valid k \<and> utf8_valid v"
    and "\<And>b. utf8_valid (x_hex E b)"
    and "distinct (map (\<lambda>(k, _). to_ascii_lowercase k) ps)"
    and "query_param ps ''auth_signature'' = None"
    and "Option.bind (map_of ps ''auth_timestamp'') parse_i64 = Some ts" and "\<bar>now - ts\<bar> \<le> 600"
    and "query_param ps ''auth_key'' \<in> {None, Some (app_key app)}"
    and "query_param ps ''auth_version'' \<in> {None, Some ''1.0''}"
    and "query_param ps ''body_md5'' \<in> {None, Some (body_md5_hex E body)}"
  shows "verify_request E now app meth uri_path
           (Some (encode_query safe (ps @ [(''auth_signature'',
              sign_http E meth (strip_path_prefix uri_path pre) body ps (app_secret app))])))
           pre body = Inr ()"
  by (rule sign_and_send [OF assms])

theorem signed_request_accepted_witness:
  "verify_request sample_ext 9 sample_app ''GET'' ''/x'' (Some sample_query) [] [] = Inr ()"
  unfolding sample_query_def
  by (rule signed_request_accepted [where ts = 7,
        OF letters_only_safe sample_params(1) sample_hex_utf8 sample_params(2-4) _ sample_params(5-7)])
     simp_all

text \<open>
  Round trip of a query string. Whatever a client percent-encodes (at least the bytes that
  carry meaning in a query), the server's parser recovers the parameters exactly, in order, for
  every list of UTF-8 names and values.
\<close>

theorem parse_query_round_trip:
  assumes "\<And>c. c \<in> set ''%+&='' \<Longrightarrow> \<not> safe c"
    and "\<And>k v. (k, v) \<in> set ps \<Longrightarrow> utf8_valid k \<and> utf8_valid v"
  shows "parse_query (Some (encode_query safe ps)) = ps"
  by (rule parse_query_encode [OF assms])

theorem parse_query_round_trip_witness:
  "parse_query (Some (encode_query letters_only [(''auth_timestamp'', ''7'')])) =
     [(''auth_timestamp'', ''7'')]"
  by (rule parse_query_round_trip [OF letters_only_safe sample_params(1)]) simp_all

section \<open>Encrypted channels\<close>

text \<open>
  What is encrypted for a channel decrypts, under the key derived from the same channel and
  master key, to the text that was published. The hypotheses are the documented laws of base64, of
  the envelope's serialisation and of the authenticated cipher.
\<close>

theorem decrypt_encrypt:
  assumes b64: "\<And>s. x_b64_decode E (x_b64_encode E s) = Some s"
    and print: "\<And>n c. x_envelope E (x_to_string E
          (JObject [(''nonce'', JString n), (''ciphertext'', JString c)])) = Some (n, c)"
    and cipher: "\<And>k n p c. x_seal E k n p = Some c \<Longrightarrow> x_open E k n c = Some p"
    and "length nonce = 24" and "decode_master_key E b64key = Inr master"
    and "encrypt_payload E nonce plaintext (derive_shared_secret E channel master) = Inr out"
  shows "decrypt_payload E out (derive_shared_secret E channel master) = Inr plaintext \<and>
         length master = 32"
proof -
  let ?k = "derive_shared_secret E channel master"
  from assms(6) obtain ct where ct: "x_seal E ?k nonce plaintext = Some ct"
    and out: "out = x_to_string E (JObject [(''nonce'', JString (x_b64_encode E nonce)),
        (''ciphertext'', JString (x_b64_encode E ct))])"
    by (auto simp: encrypt_payload_def split: option.splits)
  have "decrypt_payload E out ?k = Inr plaintext"
    using assms(4) by (simp add: decrypt_payload_def out print b64 cipher [OF ct])
  moreover have "length master = 32"
    using assms(5) by (auto simp: decode_master_key_def split: option.splits if_splits)
  ultimately show ?thesis ..
qed

definition sample_key :: string where
  "sample_key = replicate 32 (CHR ''m'')"

lemma sample_encrypted:
  "\<exists>out. encrypt_payload sample_ext (replicate 24 (CHR ''n'')) ''hi''
            (derive_shared_secret sample_ext ''private-encrypted-a'' sample_key) = Inr out"
  unfolding encrypt_payload_def sample_seal by simp

lemma sample_key_decodes: "decode_master_key sample_ext sample_key = Inr sample_key"
  by (simp add: decode_master_key_def sample_decode) (simp add: sample_key_def)

theorem decrypt_encrypt_witness:
  "\<exists>out. encrypt_payload sample_ext (replicate 24 (CHR ''n'')) ''hi''
            (derive_shared_secret sample_ext ''private-encrypted-a'' sample_key) = Inr out \<and>
         decrypt_payload sample_ext out
            (derive_shared_secret sample_ext ''private-encrypted-a'' sample_key) = Inr ''hi''"
proof -
  from sample_encrypted obtain out
    where out: "encrypt_payload sample_ext (replicate 24 (CHR ''n'')) ''hi''
      (derive_shared_secret sample_ext ''private-encrypted-a'' sample_key) = Inr out" ..
  have "length (replicate 24 (CHR ''n'')) = 24" by (rule length_replicate)
  from decrypt_encrypt [OF sample_b64 sample_envelope_print sample_open_seal this
      sample_key_decodes out] out
  show ?thesis by blast
qed

end
