(* ===== verification/Dispatcher.thy ===== *)
theory Dispatcher
  imports Publish_Pipeline Peer_Caches Channel_Manager Auth_Signing
begin

text \<open>
  The event dispatcher of a node (\<open>zatat-scaling/src/dispatcher.rs\<close>): what it sends to local
  subscribers and to the scaling bus, and how it applies what its peers send. The outbound half is
  \<open>Publish_Pipeline\<close>, the peer caches are \<open>Peer_Caches\<close>. The mailboxes that the handles kept in the
  registry point to are part of the state, since every delivery writes to them, and so is the list
  of fleet transitions given to the transition sink. An operation reads the clock once, as an
  argument.
\<close>

section \<open>State\<close>

datatype publish_error = MissingMasterKey | InvalidPublishKey string | EncryptionFailed string

datatype fleet_transition = MemberGone string string | ChannelVacated string

type_synonym withheld_key = "string \<times> string \<times> string option"
type_synonym seq_map = "(string \<times> string \<times> string, 64 word \<times> instant) dmap"
type_synonym metrics_reply = "string \<times> channel_metric list \<times> nat"

definition WITHHELD_WINDOW :: duration where
  "WITHHELD_WINDOW = from_secs 60"

record dispatcher =
  d_channels :: manager
  d_net :: net
  d_scaling_enabled :: bool
  d_node_id :: string
  d_presence_cache :: presence_cache
  d_peer_channel_counts :: peer_channel_counts
  d_peer_user_sessions :: peer_user_sessions
  d_peers_seen :: "(string, instant) dmap"
  d_metrics_inflight :: "(string, metrics_reply list) dmap"
  d_publisher :: publisher
  d_last_future_version_warn :: "instant option"
  d_future_version_drops :: "64 word"
  d_withheld :: "(withheld_key, instant) dmap"
  d_transition_sink :: bool
  d_reported :: "(application \<times> fleet_transition) list"
  d_peer_seqs :: seq_map

definition dispatcher_new :: "string \<Rightarrow> bool \<Rightarrow> publish_overflow \<Rightarrow> dispatcher" where
  "dispatcher_new node_id scaling_enabled overflow =
     \<lparr>d_channels = manager_new, d_net = [], d_scaling_enabled = scaling_enabled,
      d_node_id = node_id, d_presence_cache = [], d_peer_channel_counts = [],
      d_peer_user_sessions = [], d_peers_seen = [], d_metrics_inflight = [],
      d_publisher = publisher_new scaling_enabled overflow,
      d_last_future_version_warn = None, d_future_version_drops = 0, d_withheld = [],
      d_transition_sink = False, d_reported = [], d_peer_seqs = []\<rparr>"

section \<open>Encrypted channels\<close>

fun encryption_error_text :: "encryption_error \<Rightarrow> string" where
  "encryption_error_text InvalidMasterKey = ''master key is not valid base64''"
| "encryption_error_text WrongMasterKeyLength = ''master key must be 32 bytes''"
| "encryption_error_text EncryptFailed = ''encryption failed''"
| "encryption_error_text DecryptFailed = ''decryption failed''"
| "encryption_error_text BadEnvelope = ''bad encrypted envelope''"

fun publish_error_text :: "publish_error \<Rightarrow> string" where
  "publish_error_text MissingMasterKey =
     ''plaintext data for an encrypted channel and no encryption_master_key is configured''"
| "publish_error_text (InvalidPublishKey e) = ''invalid encryption_master_key: '' @ e"
| "publish_error_text (EncryptionFailed e) = ''encryption failed: '' @ e"

definition maybe_encrypt ::
  "ext \<Rightarrow> string \<Rightarrow> application \<Rightarrow> channel_kind \<Rightarrow> string \<Rightarrow> string \<Rightarrow> publish_error + string" where
  "maybe_encrypt E nonce app kind channel data =
     (if \<not> is_encrypted kind \<or> looks_encrypted E data then Inr data
      else case encryption_master_key app of
        None \<Rightarrow> Inl MissingMasterKey
      | Some b64 \<Rightarrow>
          (case decode_master_key E b64 of
             Inl err \<Rightarrow> Inl (InvalidPublishKey (encryption_error_text err))
           | Inr master \<Rightarrow>
               (case encrypt_payload E nonce data (derive_shared_secret E channel master) of
                  Inl err \<Rightarrow> Inl (EncryptionFailed (encryption_error_text err))
                | Inr out \<Rightarrow> Inr out)))"

definition validate_publish :: "ext \<Rightarrow> application \<Rightarrow> string \<Rightarrow> string \<Rightarrow> publish_error + unit" where
  "validate_publish E app channel data =
     (let kind = from_name channel in
      if \<not> is_encrypted kind \<or> looks_encrypted E data then Inr ()
      else case encryption_master_key app of
        None \<Rightarrow> Inl MissingMasterKey
      | Some b64 \<Rightarrow>
          (case decode_master_key E b64 of
             Inl err \<Rightarrow> Inl (InvalidPublishKey (encryption_error_text err))
           | Inr _ \<Rightarrow> Inr ()))"

section \<open>Bookkeeping\<close>

fun payload_node_id :: "scaling_payload \<Rightarrow> string option" where
  "payload_node_id (Message origin _ _ _ _) = Some origin"
| "payload_node_id (TerminateUser origin _) = Some origin"
| "payload_node_id (ClientEvent origin _ _ _ _ _) = Some origin"
| "payload_node_id (UserEvent origin _ _ _) = Some origin"
| "payload_node_id (MemberAdded origin _ _ _) = Some origin"
| "payload_node_id (MemberRemoved origin _ _ _ _) = Some origin"
| "payload_node_id (SubscriptionCount origin _ _ _) = Some origin"
| "payload_node_id (UserOnline origin _) = Some origin"
| "payload_node_id (UserOffline origin _) = Some origin"
| "payload_node_id (PresenceSnapshot node _ _) = Some node"
| "payload_node_id (MetricsResponse _ node _ _) = Some node"
| "payload_node_id (ChannelCountSnapshot node _) = Some node"
| "payload_node_id (UserSessionSnapshot node _) = Some node"
| "payload_node_id (MetricsRequest _ requester _) = Some requester"
| "payload_node_id (Terminate _) = None"

definition accept_in :: "instant \<Rightarrow> string \<Rightarrow> string \<Rightarrow> string \<Rightarrow> 64 word \<Rightarrow> seq_map \<Rightarrow> bool \<times> seq_map" where
  "accept_in now node aid key seq m =
     (if seq = 0 then (True, m)
      else
        (let k = (node, aid, key);
             m1 = dentry k (0, now) m;
             last = (case dget m1 k of Some (n, _) \<Rightarrow> n | None \<Rightarrow> 0)
         in if seq \<le> last then (False, m1) else (True, dput k (seq, now) m1)))"

definition accept_seq ::
  "instant \<Rightarrow> string \<Rightarrow> application \<Rightarrow> string \<Rightarrow> 64 word \<Rightarrow> dispatcher \<Rightarrow> bool \<times> dispatcher" where
  "accept_seq now node app key seq d =
     (let (ok, m) = accept_in now node (app_id app) key seq (d_peer_seqs d)
      in (ok, d\<lparr>d_peer_seqs := m\<rparr>))"

definition gc_peer_sequences :: "instant \<Rightarrow> dispatcher \<Rightarrow> dispatcher" where
  "gc_peer_sequences now d =
     d\<lparr>d_peer_seqs := filter (\<lambda>(_, _, at). now - at < SNAPSHOT_TTL * 4) (d_peer_seqs d)\<rparr>"

definition report_transition :: "application \<Rightarrow> fleet_transition \<Rightarrow> dispatcher \<Rightarrow> dispatcher" where
  "report_transition app t d =
     (if d_transition_sink d then d\<lparr>d_reported := d_reported d @ [(app, t)]\<rparr> else d)"

definition note_withheld ::
  "instant \<Rightarrow> application \<Rightarrow> string \<Rightarrow> string option \<Rightarrow> dispatcher \<Rightarrow> dispatcher" where
  "note_withheld now app channel uid d =
     d\<lparr>d_withheld :=
         dput (app_id app, channel, uid) now
           (filter (\<lambda>(_, at). now - at < WITHHELD_WINDOW) (d_withheld d))\<rparr>"

definition claim_withheld ::
  "instant \<Rightarrow> application \<Rightarrow> string \<Rightarrow> string option \<Rightarrow> dispatcher \<Rightarrow> bool \<times> dispatcher" where
  "claim_withheld now app channel uid d =
     (let k = (app_id app, channel, uid)
      in (case dget (d_withheld d) k of Some at \<Rightarrow> now - at < WITHHELD_WINDOW | None \<Rightarrow> False,
          d\<lparr>d_withheld := ddel k (d_withheld d)\<rparr>))"

definition is_fleet_leader :: "instant \<Rightarrow> dispatcher \<Rightarrow> bool" where
  "is_fleet_leader now d =
     list_all (\<lambda>(node, at). now - at > SNAPSHOT_TTL \<or> node > d_node_id d) (d_peers_seen d)"

definition log_future_version :: "instant \<Rightarrow> dispatcher \<Rightarrow> dispatcher" where
  "log_future_version now d =
     (let should_warn = (case d_last_future_version_warn d of
            None \<Rightarrow> True | Some t \<Rightarrow> now - t \<ge> from_secs 30);
          d1 = d\<lparr>d_future_version_drops := d_future_version_drops d + 1\<rparr>
      in if should_warn then d1\<lparr>d_last_future_version_warn := Some now\<rparr> else d1)"

definition live_peer_count :: "instant \<Rightarrow> dispatcher \<Rightarrow> nat" where
  "live_peer_count now d = length (filter (\<lambda>(_, at). now - at \<le> SNAPSHOT_TTL) (d_peers_seen d))"

section \<open>Local delivery\<close>

definition d_send :: "string \<Rightarrow> connection_handle list \<Rightarrow> dispatcher \<Rightarrow> dispatcher" where
  "d_send frame hs d = d\<lparr>d_net := send_all (Text frame) hs (d_net d)\<rparr>"

definition d_broadcast_protocol :: "string \<Rightarrow> channel \<Rightarrow> dispatcher \<Rightarrow> dispatcher" where
  "d_broadcast_protocol frame ch d = d\<lparr>d_net := broadcast_protocol frame None ch (d_net d)\<rparr>"

definition SERVER_TO_USER :: string where
  "SERVER_TO_USER = ''#server-to-user-''"

definition deliver_user_event_locally ::
  "app_id \<Rightarrow> string \<Rightarrow> string \<Rightarrow> string \<Rightarrow> dispatcher \<Rightarrow> dispatcher" where
  "deliver_user_event_locally aid uid event data d =
     d_send (encode_envelope_raw_data event (Some data) (Some (SERVER_TO_USER @ uid)))
       (connections_for_user aid uid (d_channels d)) d"

definition broadcast_locally_with_app ::
  "instant \<Rightarrow> app_id \<Rightarrow> application option \<Rightarrow> string \<Rightarrow> string \<Rightarrow> string \<Rightarrow> socket_id option \<Rightarrow>
   dispatcher \<Rightarrow> dispatcher" where
  "broadcast_locally_with_app now aid app channel event data except d =
     (case strip_prefix channel SERVER_TO_USER of
        Some uid \<Rightarrow> deliver_user_event_locally aid uid event data d
      | None \<Rightarrow>
          (let (ch, mgr) = (case app of
                 Some a \<Rightarrow>
                   (case get_or_create_cache_channel a channel (d_channels d) of
                      (Some ch, mgr) \<Rightarrow> (Some ch, mgr)
                    | (None, mgr) \<Rightarrow> (find_channel aid channel mgr, mgr))
               | None \<Rightarrow> (find_channel aid channel (d_channels d), d_channels d))
           in case ch of
                None \<Rightarrow> d\<lparr>d_channels := mgr\<rparr>
              | Some ch \<Rightarrow>
                  (let frame = encode_envelope_raw_data event (Some data) (Some channel);
                       (ch', net) = broadcast now frame except ch (d_net d)
                   in d\<lparr>d_channels := store_channel aid ch' mgr, d_net := net\<rparr>)))"

definition broadcast_locally ::
  "instant \<Rightarrow> app_id \<Rightarrow> string \<Rightarrow> string \<Rightarrow> string \<Rightarrow> socket_id option \<Rightarrow> dispatcher \<Rightarrow> dispatcher" where
  "broadcast_locally now aid channel event data except d =
     broadcast_locally_with_app now aid None channel event data except d"

definition watchlist_frame :: "ext \<Rightarrow> string \<Rightarrow> string \<Rightarrow> string" where
  "watchlist_frame E event uid =
     encode_envelope E ''pusher_internal:watchlist_events''
       (Some (JObject [(''events'', JArray [JObject
          [(''name'', JString event), (''user_ids'', JArray [JString uid])]])])) None"

definition emit_local_watchlist_event ::
  "ext \<Rightarrow> app_id \<Rightarrow> string \<Rightarrow> string \<Rightarrow> dispatcher \<Rightarrow> dispatcher" where
  "emit_local_watchlist_event E aid uid event d =
     (let watchers = watchers_of aid uid (d_channels d) in
      if watchers = [] then d
      else
        (let frame = watchlist_frame E event uid
         in fold (\<lambda>watcher. d_send frame (connections_for_user aid watcher (d_channels d))) watchers d))"

section \<open>Outgoing envelopes\<close>

definition app_envelope :: "application \<Rightarrow> 64 word \<Rightarrow> scaling_payload \<Rightarrow> scaling_envelope" where
  "app_envelope app seq payload =
     \<lparr>env_version = SCALING_VERSION, env_seq = seq,
      env_app = \<lparr>ar_id = app_id app, ar_key = app_key app\<rparr>, env_payload = payload\<rparr>"

definition d_spawn_publish :: "ext \<Rightarrow> instant \<Rightarrow> scaling_envelope \<Rightarrow> dispatcher \<Rightarrow> dispatcher" where
  "d_spawn_publish E now env d = d\<lparr>d_publisher := spawn_publish E now env (d_publisher d)\<rparr>"

definition d_next_seq :: "dispatcher \<Rightarrow> 64 word \<times> dispatcher" where
  "d_next_seq d = (let (seq, p) = next_seq (d_publisher d) in (seq, d\<lparr>d_publisher := p\<rparr>))"

text \<open>The guard and the envelope that all publishing functions share.\<close>

definition publish_payload ::
  "ext \<Rightarrow> instant \<Rightarrow> application \<Rightarrow> 64 word \<Rightarrow> scaling_payload \<Rightarrow> dispatcher \<Rightarrow> dispatcher" where
  "publish_payload E now app seq payload d =
     (if \<not> d_scaling_enabled d then d else d_spawn_publish E now (app_envelope app seq payload) d)"

definition dispatch_message ::
  "ext \<Rightarrow> instant \<Rightarrow> string \<Rightarrow> application \<Rightarrow> string \<Rightarrow> string \<Rightarrow> string \<Rightarrow> socket_id option \<Rightarrow>
   dispatcher \<Rightarrow> (publish_error + unit) \<times> dispatcher" where
  "dispatch_message E now nonce app channel event data except d =
     (case maybe_encrypt E nonce app (from_name channel) channel data of
        Inl err \<Rightarrow> (Inl err, d)
      | Inr data' \<Rightarrow>
          (let d1 = broadcast_locally_with_app now (app_id app) (Some app) channel event data' except d
           in (Inr (),
               publish_payload E now app 0 (Message (d_node_id d1) channel event data' except) d1)))"

definition publish_client_event ::
  "ext \<Rightarrow> instant \<Rightarrow> application \<Rightarrow> string \<Rightarrow> string \<Rightarrow> string \<Rightarrow> socket_id \<Rightarrow> string option \<Rightarrow>
   dispatcher \<Rightarrow> dispatcher" where
  "publish_client_event E now app channel event data sid uid d =
     publish_payload E now app 0 (ClientEvent (d_node_id d) channel event data sid uid) d"

definition dispatch_user_event ::
  "ext \<Rightarrow> instant \<Rightarrow> application \<Rightarrow> string \<Rightarrow> string \<Rightarrow> string \<Rightarrow> dispatcher \<Rightarrow> dispatcher" where
  "dispatch_user_event E now app uid event data d =
     (let d1 = deliver_user_event_locally (app_id app) uid event data d
      in publish_payload E now app 0 (UserEvent (d_node_id d1) uid event data) d1)"

definition publish_terminate ::
  "ext \<Rightarrow> instant \<Rightarrow> application \<Rightarrow> socket_id \<Rightarrow> dispatcher \<Rightarrow> dispatcher" where
  "publish_terminate E now app sid d = publish_payload E now app 0 (Terminate sid) d"

definition publish_terminate_user ::
  "ext \<Rightarrow> instant \<Rightarrow> application \<Rightarrow> string \<Rightarrow> dispatcher \<Rightarrow> dispatcher" where
  "publish_terminate_user E now app uid d =
     publish_payload E now app 0 (TerminateUser (d_node_id d) uid) d"

definition publish_presence_snapshot ::
  "ext \<Rightarrow> instant \<Rightarrow> application \<Rightarrow> string \<Rightarrow> presence_snapshot_member list \<Rightarrow> 64 word \<Rightarrow>
   dispatcher \<Rightarrow> dispatcher" where
  "publish_presence_snapshot E now app channel members seq d =
     publish_payload E now app seq (PresenceSnapshot (d_node_id d) channel members) d"

definition publish_member_added ::
  "ext \<Rightarrow> instant \<Rightarrow> application \<Rightarrow> string \<Rightarrow> string \<Rightarrow> json option \<Rightarrow> dispatcher \<Rightarrow> dispatcher" where
  "publish_member_added E now app channel uid info d =
     publish_payload E now app 0 (MemberAdded (d_node_id d) channel uid info) d"

definition publish_member_removed ::
  "ext \<Rightarrow> instant \<Rightarrow> application \<Rightarrow> string \<Rightarrow> string \<Rightarrow> bool \<Rightarrow> bool \<Rightarrow> dispatcher \<Rightarrow> dispatcher" where
  "publish_member_removed E now app channel uid webhook_withheld vacated_withheld d =
     publish_payload E now app 0
       (MemberRemoved (d_node_id d) channel uid webhook_withheld vacated_withheld) d"

definition publish_subscription_count ::
  "ext \<Rightarrow> instant \<Rightarrow> application \<Rightarrow> string \<Rightarrow> nat \<Rightarrow> bool \<Rightarrow> dispatcher \<Rightarrow> dispatcher" where
  "publish_subscription_count E now app channel n vacated_withheld d =
     publish_payload E now app 0 (SubscriptionCount (d_node_id d) channel n vacated_withheld) d"

definition publish_user_online ::
  "ext \<Rightarrow> instant \<Rightarrow> application \<Rightarrow> string \<Rightarrow> dispatcher \<Rightarrow> dispatcher" where
  "publish_user_online E now app uid d =
     publish_payload E now app 0 (UserOnline (d_node_id d) uid) d"

definition publish_user_offline ::
  "ext \<Rightarrow> instant \<Rightarrow> application \<Rightarrow> string \<Rightarrow> dispatcher \<Rightarrow> dispatcher" where
  "publish_user_offline E now app uid d =
     publish_payload E now app 0 (UserOffline (d_node_id d) uid) d"

definition publish_channel_count_snapshot ::
  "ext \<Rightarrow> instant \<Rightarrow> application \<Rightarrow> channel_count list \<Rightarrow> 64 word \<Rightarrow> dispatcher \<Rightarrow> dispatcher" where
  "publish_channel_count_snapshot E now app counts seq d =
     publish_payload E now app seq (ChannelCountSnapshot (d_node_id d) counts) d"

definition publish_user_session_snapshot ::
  "ext \<Rightarrow> instant \<Rightarrow> application \<Rightarrow> string list \<Rightarrow> 64 word \<Rightarrow> dispatcher \<Rightarrow> dispatcher" where
  "publish_user_session_snapshot E now app user_ids seq d =
     publish_payload E now app seq (UserSessionSnapshot (d_node_id d) user_ids) d"

section \<open>Applying what peers send\<close>

definition locally_present :: "channel option \<Rightarrow> string \<Rightarrow> bool" where
  "locally_present local uid = (case local of Some ch \<Rightarrow> has_user_id uid ch | None \<Rightarrow> False)"

definition locally_empty :: "channel option \<Rightarrow> bool" where
  "locally_empty local = (case local of Some ch \<Rightarrow> ch_is_empty ch | None \<Rightarrow> True)"

definition apply_remote_member_added ::
  "ext \<Rightarrow> instant \<Rightarrow> application \<Rightarrow> string \<Rightarrow> string \<Rightarrow> string \<Rightarrow> json option \<Rightarrow>
   dispatcher \<Rightarrow> dispatcher" where
  "apply_remote_member_added E now app origin channel uid info d =
     (let local = find_channel (app_id app) channel (d_channels d);
          remote_present = pc_is_present_excluding now (app_id app) channel uid (Some origin)
                             (d_presence_cache d);
          d1 = d\<lparr>d_presence_cache :=
                   snd (add_live now (app_id app) channel origin uid info (d_presence_cache d))\<rparr>
      in if \<not> (locally_present local uid \<or> remote_present)
         then case local of
                Some ch \<Rightarrow> d_broadcast_protocol (member_added E channel uid info) ch d1
              | None \<Rightarrow> d1
         else d1)"

definition claim_and_report ::
  "instant \<Rightarrow> application \<Rightarrow> string \<Rightarrow> string option \<Rightarrow> fleet_transition \<Rightarrow> dispatcher \<Rightarrow> dispatcher" where
  "claim_and_report now app channel uid t d =
     (let (claimed, d1) = claim_withheld now app channel uid d
      in if claimed then report_transition app t d1 else d1)"

definition apply_remote_member_removed ::
  "ext \<Rightarrow> instant \<Rightarrow> application \<Rightarrow> string \<Rightarrow> string \<Rightarrow> string \<Rightarrow> bool \<Rightarrow> bool \<Rightarrow>
   dispatcher \<Rightarrow> dispatcher" where
  "apply_remote_member_removed E now app origin channel uid webhook_withheld vacated_withheld d =
     (let local = find_channel (app_id app) channel (d_channels d);
          d1 = d\<lparr>d_presence_cache :=
                   snd (remove_live now (app_id app) channel origin uid (d_presence_cache d))\<rparr>;
          still_remotely = pc_is_present_excluding now (app_id app) channel uid None
                             (d_presence_cache d1);
          gone = (\<not> locally_present local uid \<and> \<not> still_remotely);
          d2 = (if gone
                then case local of
                       Some ch \<Rightarrow> d_broadcast_protocol (member_removed E channel uid) ch d1
                     | None \<Rightarrow> d1
                else d1);
          empty = (locally_empty local \<and>
                   remote_members_for now (app_id app) channel (d_presence_cache d2) = []);
          tie_break = (d_node_id d2 < origin);
          d3 = (if gone \<and> webhook_withheld \<and> tie_break
                then claim_and_report now app channel (Some uid) (MemberGone channel uid) d2 else d2)
      in if empty \<and> vacated_withheld \<and> tie_break
         then claim_and_report now app channel None (ChannelVacated channel) d3 else d3)"

definition fleet_total :: "instant \<Rightarrow> application \<Rightarrow> string \<Rightarrow> channel \<Rightarrow> dispatcher \<Rightarrow> nat" where
  "fleet_total now app channel ch d =
     ch_len ch + pcc_sum now (app_id app) channel (d_peer_channel_counts d)"

definition apply_remote_subscription_count ::
  "ext \<Rightarrow> instant \<Rightarrow> application \<Rightarrow> string \<Rightarrow> string \<Rightarrow> nat \<Rightarrow> bool \<Rightarrow> dispatcher \<Rightarrow> dispatcher" where
  "apply_remote_subscription_count E now app origin channel n vacated_withheld d =
     (let d1 = d\<lparr>d_peer_channel_counts :=
                   snd (pcc_set now (app_id app) channel origin n (d_peer_channel_counts d))\<rparr>;
          local = find_channel (app_id app) channel (d_channels d1);
          d2 = (if n = 0 \<and> vacated_withheld \<and> d_node_id d1 < origin
                then
                  (let fleet_empty = (pcc_sum now (app_id app) channel (d_peer_channel_counts d1) = 0)
                   in if locally_empty local \<and> fleet_empty
                      then claim_and_report now app channel None (ChannelVacated channel) d1 else d1)
                else d1)
      in case local of
           None \<Rightarrow> d2
         | Some ch \<Rightarrow>
             if is_presence (ch_kind ch) \<or> \<not> emit_subscription_count app then d2
             else d_broadcast_protocol
                    (subscription_count E channel (fleet_total now app channel ch d2)) ch d2)"

text \<open>\<open>with_user_transition\<close>: the body runs while the user's lock is held.\<close>

definition with_user_transition ::
  "app_id \<Rightarrow> string \<Rightarrow> (dispatcher \<Rightarrow> dispatcher) \<Rightarrow> dispatcher \<Rightarrow> dispatcher" where
  "with_user_transition aid uid body d =
     (let d1 = body (d\<lparr>d_channels := user_lock_enter aid uid (d_channels d)\<rparr>)
      in d1\<lparr>d_channels := user_lock_exit aid uid (d_channels d1)\<rparr>)"

definition apply_remote_user_online ::
  "ext \<Rightarrow> instant \<Rightarrow> application \<Rightarrow> string \<Rightarrow> string \<Rightarrow> dispatcher \<Rightarrow> dispatcher" where
  "apply_remote_user_online E now app origin uid d =
     with_user_transition (app_id app) uid (\<lambda>d.
       let was_globally_online =
             (is_user_online (app_id app) uid (d_channels d) \<or>
              pus_is_present_excluding now (app_id app) uid (Some origin) (d_peer_user_sessions d));
           d1 = d\<lparr>d_peer_user_sessions :=
                    snd (pus_add now (app_id app) origin uid (d_peer_user_sessions d))\<rparr>
       in if \<not> was_globally_online
          then emit_local_watchlist_event E (app_id app) uid ''online'' d1 else d1) d"

definition apply_remote_user_offline ::
  "ext \<Rightarrow> instant \<Rightarrow> application \<Rightarrow> string \<Rightarrow> string \<Rightarrow> dispatcher \<Rightarrow> dispatcher" where
  "apply_remote_user_offline E now app origin uid d =
     with_user_transition (app_id app) uid (\<lambda>d.
       let d1 = d\<lparr>d_peer_user_sessions :=
                    snd (pus_remove now (app_id app) origin uid (d_peer_user_sessions d))\<rparr>;
           still_locally = is_user_online (app_id app) uid (d_channels d1);
           still_remotely = pus_is_present_excluding now (app_id app) uid None (d_peer_user_sessions d1)
       in if \<not> still_locally \<and> \<not> still_remotely
          then emit_local_watchlist_event E (app_id app) uid ''offline'' d1 else d1) d"

text \<open>
  A peer's full roster of one channel. The frames are computed from what clients were told before
  and what they should know after, expired peers included.
\<close>

definition announce_removed ::
  "ext \<Rightarrow> string \<Rightarrow> channel \<Rightarrow> string list \<Rightarrow> dispatcher \<Rightarrow> dispatcher" where
  "announce_removed E channel ch uids d =
     fold (\<lambda>uid d. if \<not> has_user_id uid ch
                   then d_broadcast_protocol (member_removed E channel uid) ch d else d) uids d"

definition announce_added ::
  "ext \<Rightarrow> string \<Rightarrow> channel \<Rightarrow> (string, json option) dmap \<Rightarrow> string list \<Rightarrow> dispatcher \<Rightarrow> dispatcher" where
  "announce_added E channel ch info_by_user uids d =
     fold (\<lambda>uid d. if \<not> has_user_id uid ch
                   then d_broadcast_protocol
                          (member_added E channel uid
                             (case dget info_by_user uid of Some info \<Rightarrow> info | None \<Rightarrow> None)) ch d
                   else d) uids d"

definition hs_difference :: "string list \<Rightarrow> string list \<Rightarrow> string list" where
  "hs_difference xs ys = filter (\<lambda>x. x \<notin> set ys) xs"

definition apply_remote_presence_snapshot ::
  "ext \<Rightarrow> instant \<Rightarrow> application \<Rightarrow> string \<Rightarrow> string \<Rightarrow> presence_snapshot_member list \<Rightarrow> 64 word \<Rightarrow>
   dispatcher \<Rightarrow> dispatcher" where
  "apply_remote_presence_snapshot E now app node channel members seq d =
     (case accept_seq now node app (''p:'' @ channel) seq d of
        (False, d1) \<Rightarrow>
          d1\<lparr>d_presence_cache := pc_touch now (app_id app) channel node (d_presence_cache d1)\<rparr>
      | (True, d1) \<Rightarrow>
          (let local = find_channel (app_id app) channel (d_channels d1);
               before = announced_user_ids (app_id app) channel (d_presence_cache d1);
               info_by_user = fold (\<lambda>m acc. dput (psm_user_id m) (psm_user_info m) acc) members [];
               d2 = d1\<lparr>d_presence_cache :=
                         insert_snapshot now (app_id app) channel node members (d_presence_cache d1)\<rparr>
           in case local of
                None \<Rightarrow> d2
              | Some ch \<Rightarrow>
                  (let after = announced_user_ids (app_id app) channel (d_presence_cache d2)
                   in announce_added E channel ch info_by_user (hs_difference after before)
                        (announce_removed E channel ch (hs_difference before after) d2))))"

text \<open>The loop over the counts of a snapshot, and the frames with the new totals.\<close>

definition apply_count ::
  "instant \<Rightarrow> application \<Rightarrow> string \<Rightarrow> 64 word \<Rightarrow> channel_count \<Rightarrow> dispatcher \<Rightarrow> dispatcher" where
  "apply_count now app node seq c d =
     (case accept_seq now node app (''c:'' @ cc_channel c) seq d of
        (True, d1) \<Rightarrow>
          d1\<lparr>d_peer_channel_counts :=
              snd (pcc_set now (app_id app) (cc_channel c) node (cc_count c) (d_peer_channel_counts d1))\<rparr>
      | (False, d1) \<Rightarrow>
          d1\<lparr>d_peer_channel_counts :=
              pcc_touch now (app_id app) (cc_channel c) node (d_peer_channel_counts d1)\<rparr>)"

definition emit_count :: "ext \<Rightarrow> instant \<Rightarrow> application \<Rightarrow> string \<Rightarrow> dispatcher \<Rightarrow> dispatcher" where
  "emit_count E now app channel d =
     (case find_channel (app_id app) channel (d_channels d) of
        None \<Rightarrow> d
      | Some ch \<Rightarrow>
          if is_presence (ch_kind ch) then d
          else d_broadcast_protocol
                 (subscription_count E channel (fleet_total now app channel ch d)) ch d)"

definition apply_remote_channel_count_snapshot ::
  "ext \<Rightarrow> instant \<Rightarrow> application \<Rightarrow> string \<Rightarrow> channel_count list \<Rightarrow> 64 word \<Rightarrow> dispatcher \<Rightarrow> dispatcher" where
  "apply_remote_channel_count_snapshot E now app node counts seq d =
     (let present = fold (\<lambda>c. hs_insert (cc_channel c)) counts [];
          d1 = fold (apply_count now app node seq) counts d;
          (dropped, pcc, seqs) =
            retain_node_channels (app_id app) node present
              (\<lambda>channel. accept_in now node (app_id app) (''c:'' @ channel) seq)
              (d_peer_channel_counts d1) (d_peer_seqs d1);
          d2 = d1\<lparr>d_peer_channel_counts := pcc, d_peer_seqs := seqs\<rparr>
      in if \<not> emit_subscription_count app then d2
         else fold (emit_count E now app) (map cc_channel counts @ dropped) d2)"

definition apply_user_change ::
  "instant \<Rightarrow> application \<Rightarrow> string \<Rightarrow> 64 word \<Rightarrow> (string \<Rightarrow> dispatcher \<Rightarrow> dispatcher) \<Rightarrow> string \<Rightarrow>
   dispatcher \<Rightarrow> dispatcher" where
  "apply_user_change now app node seq change uid d =
     (case accept_seq now node app (''u:'' @ uid) seq d of
        (True, d1) \<Rightarrow> change uid d1
      | (False, d1) \<Rightarrow> d1)"

definition apply_remote_user_session_snapshot ::
  "ext \<Rightarrow> instant \<Rightarrow> application \<Rightarrow> string \<Rightarrow> string list \<Rightarrow> 64 word \<Rightarrow> dispatcher \<Rightarrow> dispatcher" where
  "apply_remote_user_session_snapshot E now app node user_ids seq d =
     (let d1 = d\<lparr>d_peer_user_sessions := pus_touch now (app_id app) node (d_peer_user_sessions d)\<rparr>;
          reported = fold hs_insert user_ids [];
          previous = users_of (app_id app) node (d_peer_user_sessions d1);
          d2 = fold (apply_user_change now app node seq (apply_remote_user_online E now app node))
                 (hs_difference reported previous) d1
      in fold (apply_user_change now app node seq (apply_remote_user_offline E now app node))
           (hs_difference previous reported) d2)"

section \<open>Asking the fleet\<close>

definition channel_metric_of :: "instant \<Rightarrow> channel \<Rightarrow> channel_metric" where
  "channel_metric_of now ch =
     (let st = stats now ch in
      \<lparr>cm_name = ch_name ch, cm_occupied = st_occupied st,
       cm_subscription_count = st_subscription_count st, cm_user_count = st_user_count st,
       cm_has_cached_payload = st_has_cached_payload st,
       cm_presence_user_ids =
         (if is_presence (ch_kind ch)
          then bs_of (List.map_filter (\<lambda>(_, _, pm). map_option pm_user_id pm) (members_iter ch))
          else [])\<rparr>)"

definition respond_to_metrics_request ::
  "ext \<Rightarrow> instant \<Rightarrow> application \<Rightarrow> string \<Rightarrow> metrics_query \<Rightarrow> dispatcher \<Rightarrow> dispatcher" where
  "respond_to_metrics_request E now app request_id query d =
     (let channels = (if mq_connections_only query then [] else mgr_channels (app_id app) (d_channels d));
          metrics = map (channel_metric_of now)
            (filter (\<lambda>ch. case mq_filter_by_prefix query of
                            Some p \<Rightarrow> starts_with (ch_name ch) p | None \<Rightarrow> True) channels)
      in d_spawn_publish E now
           (app_envelope app 0 (MetricsResponse request_id (d_node_id d) metrics
              (connection_count (app_id app) (d_channels d)))) d)"

text \<open>
  Asking has three parts: registering the request and publishing it, collecting replies until
  every live peer has answered or the deadline passes, and unregistering. A reply is paired with the
  instant at which the loop receives it.
\<close>

definition ask_fleet_begin ::
  "ext \<Rightarrow> instant \<Rightarrow> string \<Rightarrow> application \<Rightarrow> metrics_query \<Rightarrow> dispatcher \<Rightarrow> (nat \<times> dispatcher) option" where
  "ask_fleet_begin E now request_id app query d =
     (if \<not> d_scaling_enabled d then None
      else
        (let d1 = d\<lparr>d_metrics_inflight := dput request_id [] (d_metrics_inflight d)\<rparr>
         in Some (live_peer_count now d,
                  d_spawn_publish E now
                    (app_envelope app 0 (MetricsRequest request_id (d_node_id d) query)) d1)))"

fun ask_fleet_loop ::
  "nat \<Rightarrow> instant \<Rightarrow> string list \<Rightarrow> (instant \<times> metrics_reply) list \<Rightarrow> channel_metric list \<Rightarrow> nat \<Rightarrow>
   channel_metric list \<times> nat" where
  "ask_fleet_loop expected deadline responders [] out connections = (out, connections)"
| "ask_fleet_loop expected deadline responders ((at, node, metrics, peer_connections) # replies) out connections =
     (if deadline - at = 0 then (out, connections)
      else
        (let responders' = hs_insert node responders in
         if expected > 0 \<and> length responders' \<ge> expected
         then (out @ metrics, connections + peer_connections)
         else ask_fleet_loop expected deadline responders' replies (out @ metrics)
                (connections + peer_connections)))"

definition ask_fleet_end :: "string \<Rightarrow> dispatcher \<Rightarrow> dispatcher" where
  "ask_fleet_end request_id d = d\<lparr>d_metrics_inflight := ddel request_id (d_metrics_inflight d)\<rparr>"

text \<open>The whole of \<open>ask_fleet\<close> when nothing else runs on the node while it waits.\<close>

definition ask_fleet ::
  "ext \<Rightarrow> instant \<Rightarrow> string \<Rightarrow> application \<Rightarrow> metrics_query \<Rightarrow> duration \<Rightarrow>
   (instant \<times> metrics_reply) list \<Rightarrow> dispatcher \<Rightarrow> (channel_metric list \<times> nat) option \<times> dispatcher" where
  "ask_fleet E now request_id app query wait replies d =
     (case ask_fleet_begin E now request_id app query d of
        None \<Rightarrow> (None, d)
      | Some (expected, d1) \<Rightarrow>
          (Some (ask_fleet_loop expected (now + wait) [] replies [] 0), ask_fleet_end request_id d1))"

definition ask_fleet_for_channels ::
  "ext \<Rightarrow> instant \<Rightarrow> string \<Rightarrow> application \<Rightarrow> metrics_query \<Rightarrow> duration \<Rightarrow>
   (instant \<times> metrics_reply) list \<Rightarrow> dispatcher \<Rightarrow> channel_metric list option \<times> dispatcher" where
  "ask_fleet_for_channels E now request_id app query wait replies d =
     apfst (map_option fst) (ask_fleet E now request_id app query wait replies d)"

definition ask_fleet_for_connections ::
  "ext \<Rightarrow> instant \<Rightarrow> string \<Rightarrow> application \<Rightarrow> duration \<Rightarrow> (instant \<times> metrics_reply) list \<Rightarrow>
   dispatcher \<Rightarrow> nat option \<times> dispatcher" where
  "ask_fleet_for_connections E now request_id app wait replies d =
     apfst (map_option snd)
       (ask_fleet E now request_id app
          \<lparr>mq_filter_by_prefix = None, mq_info = None, mq_connections_only = True\<rparr> wait replies d)"

section \<open>Incoming envelopes\<close>

definition d_terminate :: "connection_handle list \<Rightarrow> dispatcher \<Rightarrow> dispatcher" where
  "d_terminate hs d = d\<lparr>d_net := send_all (Close 4009 ''terminated'') hs (d_net d)\<rparr>"

definition forward_client_event ::
  "application \<Rightarrow> string \<Rightarrow> string \<Rightarrow> string \<Rightarrow> socket_id \<Rightarrow> string option \<Rightarrow> dispatcher \<Rightarrow> dispatcher" where
  "forward_client_event app channel event data sid uid d =
     (case find_channel (app_id app) channel (d_channels d) of
        None \<Rightarrow> d
      | Some ch \<Rightarrow>
          (let uid' = (if is_presence (ch_kind ch) then uid else None);
               frame = encode_client_event event data channel uid'
           in d\<lparr>d_net := broadcast_client_event frame (Some sid) ch (d_net d)\<rparr>))"

text \<open>Runs the body only if the sequence number is new for the key.\<close>

definition if_accepted ::
  "instant \<Rightarrow> string \<Rightarrow> application \<Rightarrow> string \<Rightarrow> 64 word \<Rightarrow> (dispatcher \<Rightarrow> dispatcher) \<Rightarrow>
   dispatcher \<Rightarrow> dispatcher" where
  "if_accepted now node app key seq body d =
     (case accept_seq now node app key seq d of (ok, d1) \<Rightarrow> if ok then body d1 else d1)"

fun apply_payload ::
  "ext \<Rightarrow> instant \<Rightarrow> application \<Rightarrow> 64 word \<Rightarrow> scaling_payload \<Rightarrow> dispatcher \<Rightarrow> dispatcher" where
  "apply_payload E now app seq (Message origin channel event data except) d =
     (if origin = d_node_id d then d
      else broadcast_locally_with_app now (app_id app) (Some app) channel event data except d)"
| "apply_payload E now app seq (ClientEvent origin channel event data sid uid) d =
     (if origin = d_node_id d then d else forward_client_event app channel event data sid uid d)"
| "apply_payload E now app seq (Terminate sid) d =
     (case handle_for_socket (app_id app) sid (d_channels d) of
        Some h \<Rightarrow> d_terminate [h] d | None \<Rightarrow> d)"
| "apply_payload E now app seq (TerminateUser origin uid) d =
     (if origin = d_node_id d then d
      else d_terminate (connections_for_user (app_id app) uid (d_channels d)) d)"
| "apply_payload E now app seq (PresenceSnapshot node channel members) d =
     (if node = d_node_id d then d
      else apply_remote_presence_snapshot E now app node channel members seq d)"
| "apply_payload E now app seq (UserEvent origin uid event data) d =
     (if origin = d_node_id d then d
      else deliver_user_event_locally (app_id app) uid event data d)"
| "apply_payload E now app seq (MetricsRequest request_id requester query) d =
     (if requester = d_node_id d then d else respond_to_metrics_request E now app request_id query d)"
| "apply_payload E now app seq (MetricsResponse request_id node metrics connections) d =
     (case dget (d_metrics_inflight d) request_id of
        Some replies \<Rightarrow>
          d\<lparr>d_metrics_inflight :=
              dput request_id (replies @ [(node, metrics, connections)]) (d_metrics_inflight d)\<rparr>
      | None \<Rightarrow> d)"
| "apply_payload E now app seq (MemberAdded origin channel uid info) d =
     (if origin = d_node_id d then d
      else if_accepted now origin app (''p:'' @ channel) seq
             (apply_remote_member_added E now app origin channel uid info) d)"
| "apply_payload E now app seq (MemberRemoved origin channel uid webhook_withheld vacated_withheld) d =
     (if origin = d_node_id d then d
      else if_accepted now origin app (''p:'' @ channel) seq
             (apply_remote_member_removed E now app origin channel uid webhook_withheld
                vacated_withheld) d)"
| "apply_payload E now app seq (SubscriptionCount origin channel n vacated_withheld) d =
     (if origin = d_node_id d then d
      else if_accepted now origin app (''c:'' @ channel) seq
             (apply_remote_subscription_count E now app origin channel n vacated_withheld) d)"
| "apply_payload E now app seq (UserOnline origin uid) d =
     (if origin = d_node_id d then d
      else if_accepted now origin app (''u:'' @ uid) seq
             (apply_remote_user_online E now app origin uid) d)"
| "apply_payload E now app seq (UserOffline origin uid) d =
     (if origin = d_node_id d then d
      else if_accepted now origin app (''u:'' @ uid) seq
             (apply_remote_user_offline E now app origin uid) d)"
| "apply_payload E now app seq (ChannelCountSnapshot node counts) d =
     (if node = d_node_id d then d
      else apply_remote_channel_count_snapshot E now app node counts seq d)"
| "apply_payload E now app seq (UserSessionSnapshot node user_ids) d =
     (if node = d_node_id d then d
      else apply_remote_user_session_snapshot E now app node user_ids seq d)"

definition note_peer :: "instant \<Rightarrow> scaling_payload \<Rightarrow> dispatcher \<Rightarrow> dispatcher" where
  "note_peer now payload d =
     (case payload_node_id payload of
        Some node \<Rightarrow>
          if node \<noteq> d_node_id d then d\<lparr>d_peers_seen := dput node now (d_peers_seen d)\<rparr> else d
      | None \<Rightarrow> d)"

definition handle_incoming ::
  "ext \<Rightarrow> instant \<Rightarrow> (app_id \<Rightarrow> application option) \<Rightarrow> scaling_envelope \<Rightarrow> dispatcher \<Rightarrow> dispatcher" where
  "handle_incoming E now apps_by_id env d =
     (if env_version env > SCALING_VERSION then log_future_version now d
      else
        (let d1 = note_peer now (env_payload env) d in
         case apps_by_id (ar_id (env_app env)) of
           None \<Rightarrow> d1
         | Some app \<Rightarrow> apply_payload E now app (env_seq env) (env_payload env) d1))"

end
