(* ===== verification/Registry_View.thy ===== *)
theory Registry_View
  imports Channel_Manager
begin

text \<open>
  The abstract registry: per application, who is in which channel, which sockets a user has and
  which handle a socket has. Every operation of the registry is an update of this view or leaves it
  as it is, whatever it does to caches, watch lists, locks and the channels kept for replay. The
  mailboxes have a view of their own: which exist and which have lost their receiver.
\<close>

section \<open>The view\<close>

record registry_view =
  vw_members :: "channel_name \<Rightarrow> string set"
  vw_users :: "string \<Rightarrow> string set"
  vw_handles :: "string \<Rightarrow> connection_handle option"

definition slot_view :: "app_channels \<Rightarrow> registry_view" where
  "slot_view slot =
     \<lparr>vw_members = (\<lambda>n. case dget (ac_channels slot) n of
          Some ch \<Rightarrow> set (dkeys (ch_members ch)) | None \<Rightarrow> {}),
      vw_users = (\<lambda>u. case dget (ac_user_index slot) u of Some l \<Rightarrow> set l | None \<Rightarrow> {}),
      vw_handles = (\<lambda>s. dget (ac_connections slot) s)\<rparr>"

definition reg_view :: "manager \<Rightarrow> app_id \<Rightarrow> registry_view" where
  "reg_view mgr aid = slot_view (app_slot aid mgr)"

definition boxes :: "net \<Rightarrow> nat \<Rightarrow> bool option" where
  "boxes net tx = map_option mb_closed (dget net tx)"

lemma boxes_try_send [simp]: "boxes (snd (try_send h msg net)) = boxes net"
  by (auto simp: boxes_def fun_eq_iff dget_try_send deliver_def option.map_comp comp_def
        intro!: map_option_cong)

lemma boxes_send_all [simp]: "boxes (send_all msg hs net) = boxes net"
  by (induction hs arbitrary: net) (simp_all add: send_all_def)

lemma boxes_broadcast [simp]:
  "boxes (send_to_members payload except ch net) = boxes net"
  "boxes (broadcast_protocol payload except ch net) = boxes net"
  "boxes (broadcast_client_event payload except ch net) = boxes net"
  "boxes (snd (broadcast now payload except ch net)) = boxes net"
  by (simp_all add: send_to_members_def broadcast_protocol_def broadcast_client_event_def
        broadcast_def Let_def)

lemma reg_view_simps:
  "vw_members (reg_view mgr aid) n = channel_sockets aid n mgr"
  "vw_users (reg_view mgr aid) u = set (user_sockets aid u mgr)"
  "vw_handles (reg_view mgr aid) s = handle_for_socket aid s mgr"
proof -
  show "vw_members (reg_view mgr aid) n = channel_sockets aid n mgr"
    by (simp add: reg_view_def slot_view_def channel_sockets_def find_app_slot)
  show "vw_users (reg_view mgr aid) u = set (user_sockets aid u mgr)"
    by (simp add: reg_view_def slot_view_def user_sockets_slot split: option.split)
  show "vw_handles (reg_view mgr aid) s = handle_for_socket aid s mgr"
    by (simp add: reg_view_def slot_view_def handle_for_socket_def app_slot_def
          app_channels_default_def split: option.split)
qed

lemma registry_view_eqI:
  "vw_members v = vw_members w \<Longrightarrow> vw_users v = vw_users w \<Longrightarrow> vw_handles v = vw_handles w \<Longrightarrow>
     v = (w :: registry_view)"
  by simp

lemma reg_view_put: "reg_view (dput a slot mgr) = (reg_view mgr)(a := slot_view slot)"
  by (simp add: fun_eq_iff reg_view_def)

lemma reg_view_put_same: "slot_view slot = reg_view mgr a \<Longrightarrow> reg_view (dput a slot mgr) = reg_view mgr"
  by (simp add: reg_view_put fun_upd_idem)

lemma slot_view_update:
  "slot_view (slot\<lparr>ac_user_locks := l\<rparr>) = slot_view slot"
  "slot_view (slot\<lparr>ac_watchers := w\<rparr>) = slot_view slot"
  by (simp_all add: slot_view_def)

lemma app_slot_get: "dget mgr aid = Some slot \<Longrightarrow> app_slot aid mgr = slot"
  by (simp add: app_slot_def)

section \<open>Operations the view does not see\<close>

lemma reg_view_lock_enter [simp]: "reg_view (user_lock_enter aid uid mgr) = reg_view mgr"
  by (simp add: user_lock_enter_def Let_def reg_view_put_same slot_view_update reg_view_def)

lemma reg_view_lock_exit [simp]: "reg_view (user_lock_exit aid uid mgr) = reg_view mgr"
  by (simp add: user_lock_exit_def Let_def reg_view_put_same slot_view_update reg_view_def
        split: option.split)

lemma reg_view_add_watcher [simp]: "reg_view (add_watcher aid watched watcher mgr) = reg_view mgr"
  by (simp add: add_watcher_def Let_def reg_view_put_same slot_view_update reg_view_def)

lemma slot_view_drop_watches: "slot_view (drop_watches ws watcher slot) = slot_view slot"
  by (induction ws watcher slot rule: drop_watches.induct)
     (auto simp: Let_def slot_view_update split: option.split)

lemma reg_view_remove_watches [simp]: "reg_view (remove_all_watches_for aid watcher mgr) = reg_view mgr"
  by (auto simp: remove_all_watches_for_def reg_view_def slot_view_drop_watches app_slot_get
        split: option.split intro!: reg_view_put_same)

lemma reg_view_cache_channel [simp]:
  "reg_view (snd (get_or_create_cache_channel app name mgr)) = reg_view mgr"
proof -
  have "slot_view (slot\<lparr>ac_channels := dentry name (with_cache_ttl name ttl) (ac_channels slot)\<rparr>) =
      slot_view slot" for slot ttl
    by (auto simp: slot_view_def dentry_def fun_eq_iff with_cache_ttl_def Let_def split: option.split)
  then show ?thesis
    by (simp add: get_or_create_cache_channel_def Let_def reg_view_put_same reg_view_def)
qed

lemma reg_view_store:
  assumes "find_channel aid (ch_name ch) mgr = Some ch0" "dkeys (ch_members ch) = dkeys (ch_members ch0)"
  shows "reg_view (store_channel aid ch mgr) = reg_view mgr"
proof -
  obtain slot where slot: "dget mgr aid = Some slot" "dget (ac_channels slot) (ch_name ch) = Some ch0"
    using assms(1) by (auto simp: find_channel_def bind_eq_Some_conv)
  have "slot_view (slot\<lparr>ac_channels := dput (ch_name ch) ch (ac_channels slot)\<rparr>) = slot_view slot"
    using slot(2) by (simp add: slot_view_def fun_eq_iff assms(2) del: set_map)
  with slot show ?thesis
    by (simp add: store_channel_def reg_view_put_same reg_view_def app_slot_get)
qed

lemma reg_view_gc [simp]:
  assumes "mgr_wf mgr"
  shows "reg_view (snd (gc_empty_cache_channels now mgr)) = reg_view mgr"
proof
  fix aid
  let ?m = "snd (gc_slots now mgr 0)"
  have rest: "ac_user_index (app_slot aid (snd (gc_slots now m r))) = ac_user_index (app_slot aid m) \<and>
      ac_connections (app_slot aid (snd (gc_slots now m r))) = ac_connections (app_slot aid m)" for m r
    by (induction m arbitrary: r) (auto simp: app_slot_def Let_def case_prod_beta)
  have "find_channel aid n ?m = (case find_channel aid n mgr of
      Some ch \<Rightarrow> if collectable now ch then None else Some ch | None \<Rightarrow> None)" for n
    using gc_slots_spec [OF assms, of now 0 "fst (gc_slots now mgr 0)" ?m aid n] by simp
  then have "channel_sockets aid n ?m = channel_sockets aid n mgr" for n
    by (auto simp: channel_sockets_def collectable_def channel_idle_def ch_is_empty_def
          split: option.split)
  with rest [of mgr 0] show "reg_view (snd (gc_empty_cache_channels now mgr)) aid = reg_view mgr aid"
    by (intro registry_view_eqI)
       (simp add: fun_eq_iff reg_view_simps gc_empty_cache_channels_def,
        simp_all add: reg_view_def slot_view_def gc_empty_cache_channels_def)
qed

section \<open>Operations that update the view\<close>

definition view_join :: "channel_name \<Rightarrow> string \<Rightarrow> registry_view \<Rightarrow> registry_view" where
  "view_join n sid v = v\<lparr>vw_members := (vw_members v)(n := insert sid (vw_members v n))\<rparr>"

definition view_leave :: "channel_name \<Rightarrow> string \<Rightarrow> registry_view \<Rightarrow> registry_view" where
  "view_leave n sid v = v\<lparr>vw_members := (vw_members v)(n := vw_members v n - {sid})\<rparr>"

definition view_bind :: "string \<Rightarrow> string \<Rightarrow> registry_view \<Rightarrow> registry_view" where
  "view_bind uid sid v = v\<lparr>vw_users := (vw_users v)(uid := insert sid (vw_users v uid))\<rparr>"

definition view_unbind :: "string \<Rightarrow> string \<Rightarrow> registry_view \<Rightarrow> registry_view" where
  "view_unbind uid sid v = v\<lparr>vw_users := (vw_users v)(uid := vw_users v uid - {sid})\<rparr>"

definition view_handle :: "string \<Rightarrow> connection_handle option \<Rightarrow> registry_view \<Rightarrow> registry_view" where
  "view_handle sid h v = v\<lparr>vw_handles := (vw_handles v)(sid := h)\<rparr>"

lemma reg_view_register:
  "reg_view (snd (register_connection app h mgr)) =
     (reg_view mgr)(app_id app := view_handle (h_socket_id h)
        (case fst (register_connection app h mgr) of Inr _ \<Rightarrow> Some h | Inl _ \<Rightarrow> None)
        (reg_view mgr (app_id app)))"
  by (auto simp: register_connection_eq Let_def reg_view_put view_handle_def reg_view_def slot_view_def
        fun_eq_iff split: option.split)

lemma reg_view_unregister:
  "reg_view (unregister_connection aid sid mgr) =
     (reg_view mgr)(aid := view_handle sid None (reg_view mgr aid))"
  by (auto simp: unregister_connection_def reg_view_put view_handle_def reg_view_def slot_view_def
        app_slot_def app_channels_default_def fun_eq_iff split: option.split)

lemma reg_view_bind:
  "reg_view (snd (bind_user aid uid sid mgr)) =
     (reg_view mgr)(aid := view_bind uid sid (reg_view mgr aid))"
  by (auto simp: bind_user_def Let_def reg_view_put view_bind_def reg_view_def slot_view_def
        fun_eq_iff insert_absorb split: option.split)

lemma reg_view_unbind:
  "reg_view (snd (unbind_user aid uid sid mgr)) =
     (reg_view mgr)(aid := view_unbind uid sid (reg_view mgr aid))" (is "reg_view ?m = _")
proof -
  have others: "ac_channels (app_slot a ?m) = ac_channels (app_slot a mgr) \<and>
      ac_connections (app_slot a ?m) = ac_connections (app_slot a mgr)" for a
    by (auto simp: unbind_user_def Let_def app_slot_get split: option.split)
  have "reg_view ?m a = (if a = aid then view_unbind uid sid (reg_view mgr a) else reg_view mgr a)" for a
  proof (rule registry_view_eqI)
    show "vw_users (reg_view ?m a) =
        vw_users (if a = aid then view_unbind uid sid (reg_view mgr a) else reg_view mgr a)"
      by (auto simp: fun_eq_iff view_unbind_def reg_view_simps user_sockets_unbind)
  qed (use others [of a] in \<open>simp_all add: reg_view_def slot_view_def view_unbind_def\<close>)
  then show ?thesis by (auto simp: fun_eq_iff)
qed

lemma reg_view_subscribe:
  "reg_view (fst (snd (subscribe_with now app name sid h p admit on_sub mgr s))) =
     (if fst (admit (channel_at app name mgr) s)
      then (reg_view mgr)(app_id app := view_join name sid (reg_view mgr (app_id app)))
      else reg_view mgr)" (is "reg_view ?m = _")
proof -
  let ?slot = "app_slot (app_id app) mgr"
  let ?ch = "channel_at app name mgr"
  have others: "ac_user_index (app_slot aid ?m) = ac_user_index (app_slot aid mgr) \<and>
      ac_connections (app_slot aid ?m) = ac_connections (app_slot aid mgr)" for aid
    unfolding subscribe_with_cases Let_def case_prod_beta by simp
  have reject: "channel_sockets aid n ?m = channel_sockets aid n mgr"
    if "\<not> fst (admit ?ch s)" for aid n
  proof -
    have res: "?m = dput (app_id app) (?slot\<lparr>ac_channels :=
        dremove_if name (channel_idle now) (dput name ?ch (ac_channels ?slot))\<rparr>) mgr"
      using that unfolding subscribe_with_cases Let_def case_prod_beta by simp
    have "channel_idle now ?ch \<Longrightarrow> channel_sockets (app_id app) name mgr = {}"
      unfolding channel_at_members [symmetric] by (simp add: channel_idle_def ch_is_empty_def)
    then show ?thesis
      unfolding res channel_sockets_def
      using channel_at_members [of app name mgr]
      by (auto simp: find_put find_app_slot channel_sockets_def simp del: set_map split: option.splits)
  qed
  have "reg_view ?m aid = (if fst (admit ?ch s) \<and> aid = app_id app then view_join name sid (reg_view mgr aid)
      else reg_view mgr aid)" for aid
  proof (rule registry_view_eqI)
    show "vw_members (reg_view ?m aid) = vw_members (if fst (admit ?ch s) \<and> aid = app_id app
        then view_join name sid (reg_view mgr aid) else reg_view mgr aid)"
      using reject subscribe_sockets [of admit app name mgr s aid _ now sid h p on_sub]
      by (cases "fst (admit ?ch s)") (auto simp: fun_eq_iff view_join_def reg_view_simps)
  qed (use others [of aid] in \<open>simp_all add: reg_view_def slot_view_def view_join_def\<close>)
  then show ?thesis by (auto simp: fun_eq_iff)
qed

lemma reg_view_unsubscribe:
  "reg_view (fst (snd (unsubscribe_with now aid name sid on_unsub mgr s))) =
     (reg_view mgr)(aid := view_leave name sid (reg_view mgr aid))" (is "reg_view ?m = _")
proof -
  have others: "ac_user_index (app_slot a ?m) = ac_user_index (app_slot a mgr) \<and>
      ac_connections (app_slot a ?m) = ac_connections (app_slot a mgr)" for a
    by (auto simp: unsubscribe_with_def Let_def case_prod_beta app_slot_get split: option.split)
  have "reg_view ?m a = (if a = aid then view_leave name sid (reg_view mgr a) else reg_view mgr a)" for a
  proof (rule registry_view_eqI)
    show "vw_members (reg_view ?m a) =
        vw_members (if a = aid then view_leave name sid (reg_view mgr a) else reg_view mgr a)"
      by (auto simp: fun_eq_iff view_leave_def reg_view_simps unsubscribe_sockets)
  qed (use others [of a] in \<open>simp_all add: reg_view_def slot_view_def view_leave_def\<close>)
  then show ?thesis by (auto simp: fun_eq_iff)
qed

end
