(* ===== verification/Fleet_Sync.thy ===== *)
theory Fleet_Sync
  imports Dispatcher Registry_View
begin

text \<open>
  The laws of the dispatcher: its invariant, the order in which a peer's updates take effect, the
  frames local clients see when a peer's state changes, and the agreements between nodes of a
  fleet (one leader, one reporter of a withheld webhook).
\<close>

section \<open>Operations that only deliver\<close>

text \<open>
  A change of the dispatcher that touches nothing but what is queued in the mailboxes.
\<close>

definition net_only :: "(dispatcher \<Rightarrow> dispatcher) \<Rightarrow> bool" where
  "net_only f \<longleftrightarrow> (\<forall>d. f d = d\<lparr>d_net := d_net (f d)\<rparr> \<and> boxes (d_net (f d)) = boxes (d_net d))"

lemma net_onlyE:
  assumes "net_only f"
  obtains net where "f d = d\<lparr>d_net := net\<rparr>" "boxes net = boxes (d_net d)"
  using assms unfolding net_only_def by blast

lemma net_only_id [intro, simp]: "net_only (\<lambda>d. d)"
  by (simp add: net_only_def)

lemma net_only_send [intro, simp]: "net_only (d_send frame hs)"
  by (simp add: net_only_def d_send_def)

lemma net_only_broadcast [intro, simp]: "net_only (d_broadcast_protocol frame ch)"
  by (simp add: net_only_def d_broadcast_protocol_def)

lemma net_only_terminate [intro, simp]: "net_only (d_terminate hs)"
  by (simp add: net_only_def d_terminate_def)

lemma net_only_comp:
  assumes "net_only f" "net_only g"
  shows "net_only (\<lambda>d. g (f d))"
proof -
  have "g (f d) = d\<lparr>d_net := d_net (g (f d))\<rparr> \<and> boxes (d_net (g (f d))) = boxes (d_net d)" for d
  proof (rule net_onlyE [OF assms(1), of d])
    fix n1 assume f: "f d = d\<lparr>d_net := n1\<rparr>" and n1: "boxes n1 = boxes (d_net d)"
    show ?thesis by (rule net_onlyE [OF assms(2), of "f d"]) (simp add: f n1)
  qed
  then show ?thesis by (simp add: net_only_def)
qed

lemma net_only_fold: "(\<And>x. net_only (f x)) \<Longrightarrow> net_only (fold f xs)"
proof (induction xs)
  case Nil
  then show ?case by (simp add: id_def)
next
  case (Cons x xs)
  from net_only_comp [OF Cons.prems Cons.IH [OF Cons.prems]] show ?case by (simp add: comp_def)
qed

lemma net_only_if: "net_only f \<Longrightarrow> net_only g \<Longrightarrow> net_only (\<lambda>d. if b then f d else g d)"
  by (cases b) simp_all

lemma net_only_fields:
  assumes "net_only f"
  shows "d_channels (f d) = d_channels d" "d_scaling_enabled (f d) = d_scaling_enabled d"
    "d_node_id (f d) = d_node_id d" "d_presence_cache (f d) = d_presence_cache d"
    "d_peer_channel_counts (f d) = d_peer_channel_counts d"
    "d_peer_user_sessions (f d) = d_peer_user_sessions d" "d_peers_seen (f d) = d_peers_seen d"
    "d_metrics_inflight (f d) = d_metrics_inflight d" "d_publisher (f d) = d_publisher d"
    "d_withheld (f d) = d_withheld d" "d_transition_sink (f d) = d_transition_sink d"
    "d_reported (f d) = d_reported d" "d_peer_seqs (f d) = d_peer_seqs d"
  by (rule net_onlyE [OF assms, of d]; simp)+

lemma net_only_emit [intro, simp]: "net_only (emit_local_watchlist_event E aid uid event)"
proof -
  have "emit_local_watchlist_event E aid uid event d = d\<lparr>d_net := d_net (emit_local_watchlist_event E aid uid event d)\<rparr> \<and>
      boxes (d_net (emit_local_watchlist_event E aid uid event d)) = boxes (d_net d)" for d
  proof -
    let ?f = "\<lambda>watcher. d_send (watchlist_frame E event uid) (connections_for_user aid watcher (d_channels d))"
    have "net_only (fold ?f (watchers_of aid uid (d_channels d)))" by (rule net_only_fold) simp
    then show ?thesis
      by (rule net_onlyE [of _ d]) (simp add: emit_local_watchlist_event_def Let_def)
  qed
  then show ?thesis by (simp add: net_only_def)
qed

lemma net_only_removed [intro, simp]: "net_only (announce_removed E channel ch uids)"
  unfolding announce_removed_def by (intro net_only_fold net_only_if) auto

lemma net_only_added [intro, simp]: "net_only (announce_added E channel ch info uids)"
  unfolding announce_added_def by (intro net_only_fold net_only_if) auto

lemma net_only_deliver [intro, simp]: "net_only (deliver_user_event_locally aid uid event data)"
  by (simp add: net_only_def deliver_user_event_locally_def d_send_def)

lemma net_only_client_event [intro, simp]:
  "net_only (forward_client_event app channel event data sid uid)"
  by (simp add: net_only_def forward_client_event_def Let_def split: option.split)

lemma net_only_emit_count [intro, simp]: "net_only (emit_count E now app channel)"
  by (simp add: net_only_def emit_count_def d_broadcast_protocol_def split: option.split)

lemma net_only_emit_counts [intro, simp]: "net_only (fold (emit_count E now app) channels)"
  by (rule net_only_fold) simp

lemmas deliveries [simp] =
  net_only_send [THEN net_only_fields(1)] net_only_send [THEN net_only_fields(4)]
  net_only_fields [OF net_only_broadcast] net_only_fields [OF net_only_emit]
  net_only_fields [OF net_only_removed] net_only_fields [OF net_only_added]
  net_only_fields [OF net_only_deliver] net_only_fields [OF net_only_client_event]
  net_only_fields [OF net_only_terminate] net_only_fields [OF net_only_emit_counts]

section \<open>The invariant\<close>

definition seq_of :: "dispatcher \<Rightarrow> string \<times> string \<times> string \<Rightarrow> 64 word" where
  "seq_of d k = (case dget (d_peer_seqs d) k of Some (n, _) \<Rightarrow> n | None \<Rightarrow> 0)"

definition disp_wf :: "dispatcher \<Rightarrow> bool" where
  "disp_wf d \<longleftrightarrow>
     mgr_wf (d_channels d) \<and> cache_wf (d_presence_cache d) \<and> cache_wf (d_peer_channel_counts d) \<and>
     cache_wf (d_peer_user_sessions d) \<and> dwf (d_peers_seen d) \<and>
     \<not> dhas (d_peers_seen d) (d_node_id d) \<and> dwf (d_metrics_inflight d) \<and> dwf (d_withheld d) \<and>
     dwf (d_peer_seqs d) \<and> (d_scaling_enabled d \<longrightarrow> pub_wf (d_publisher d)) \<and>
     (\<not> d_scaling_enabled d \<longrightarrow> pb_queue (d_publisher d) = None)"

lemma disp_wf_new: "disp_wf (dispatcher_new node scaling overflow)"
  by (auto simp: disp_wf_def dispatcher_new_def dhas_def pub_wf_new)
     (simp add: publisher_new_def)

text \<open>
  A step keeps the invariant and the node's identity, never lowers the sequence recorded for any
  piece of a peer's state, and changes neither who is connected, subscribed or signed in on this
  node nor which mailboxes are open.
\<close>

definition dstep :: "dispatcher \<Rightarrow> dispatcher \<Rightarrow> bool" where
  "dstep d d' \<longleftrightarrow> (disp_wf d \<longrightarrow>
     disp_wf d' \<and> d_node_id d' = d_node_id d \<and> d_scaling_enabled d' = d_scaling_enabled d \<and>
     d_transition_sink d' = d_transition_sink d \<and> (\<forall>k. seq_of d k \<le> seq_of d' k) \<and>
     reg_view (d_channels d') = reg_view (d_channels d) \<and> boxes (d_net d') = boxes (d_net d))"

interpretation disp: step_preorder dstep
  by unfold_locales (simp add: dstep_def, unfold dstep_def, metis order_trans)

lemma dstep_net_only: "net_only f \<Longrightarrow> dstep d (f d)"
  by (rule net_onlyE [of f d]) (auto simp: dstep_def disp_wf_def seq_of_def)

lemma dstep_updates:
  "(cache_wf (d_presence_cache d) \<Longrightarrow> cache_wf pc) \<Longrightarrow> dstep d (d\<lparr>d_presence_cache := pc\<rparr>)"
  "(cache_wf (d_peer_channel_counts d) \<Longrightarrow> cache_wf cc) \<Longrightarrow> dstep d (d\<lparr>d_peer_channel_counts := cc\<rparr>)"
  "(cache_wf (d_peer_user_sessions d) \<Longrightarrow> cache_wf us) \<Longrightarrow> dstep d (d\<lparr>d_peer_user_sessions := us\<rparr>)"
  "(mgr_wf (d_channels d) \<Longrightarrow> mgr_wf mgr \<and> reg_view mgr = reg_view (d_channels d)) \<Longrightarrow>
     dstep d (d\<lparr>d_channels := mgr\<rparr>)"
  "(dwf (d_withheld d) \<Longrightarrow> dwf wh) \<Longrightarrow> dstep d (d\<lparr>d_withheld := wh\<rparr>)"
  "(dwf (d_metrics_inflight d) \<Longrightarrow> dwf infl) \<Longrightarrow> dstep d (d\<lparr>d_metrics_inflight := infl\<rparr>)"
  "dstep d (d\<lparr>d_reported := rep\<rparr>)"
  "boxes net = boxes (d_net d) \<Longrightarrow> dstep d (d\<lparr>d_net := net\<rparr>)"
  by (simp_all add: dstep_def disp_wf_def seq_of_def)

lemma accept_in_seqs:
  fixes m :: seq_map
  assumes "accept_in now node aid key seq m = (ok, m')"
  shows "dwf m \<Longrightarrow> dwf m'"
    and "(case dget m k of Some (n, _) \<Rightarrow> n | None \<Rightarrow> 0) \<le> (case dget m' k of Some (n, _) \<Rightarrow> n | None \<Rightarrow> 0)"
  using assms
  by (auto simp: accept_in_def Let_def dentry_def zwf split: if_splits option.splits)

lemma dstep_seqs:
  assumes "dwf (d_peer_seqs d) \<Longrightarrow> dwf m"
    and "\<And>k. seq_of d k \<le> (case dget m k of Some (n, _) \<Rightarrow> n | None \<Rightarrow> 0)"
  shows "dstep d (d\<lparr>d_peer_seqs := m\<rparr>)"
  using assms by (simp add: dstep_def disp_wf_def seq_of_def)

lemma dstep_accept: "dstep d (snd (accept_seq now node app key seq d))"
proof -
  obtain ok m where a: "accept_in now node (app_id app) key seq (d_peer_seqs d) = (ok, m)" by fastforce
  have "dstep d (d\<lparr>d_peer_seqs := m\<rparr>)"
    using accept_in_seqs [OF a] by (intro dstep_seqs) (simp_all add: seq_of_def)
  with a show ?thesis by (simp add: accept_seq_def)
qed

lemma dstep_if_accepted:
  "(\<And>d. dstep d (body d)) \<Longrightarrow> dstep d (if_accepted now node app key seq body d)"
  using dstep_accept [of d now node app key seq]
  by (auto simp: if_accepted_def case_prod_beta intro: disp.trans)

lemma dstep_claim: "dstep d (snd (claim_withheld now app channel uid d))"
  by (simp add: claim_withheld_def Let_def dstep_updates dwf_ddel)

lemma dstep_report: "dstep d (report_transition app t d)"
  by (simp add: report_transition_def dstep_updates disp.refl)

lemma dstep_claim_report: "dstep d (claim_and_report now app channel uid t d)"
  using dstep_claim [of d now app channel uid] dstep_report
  by (auto simp: claim_and_report_def case_prod_beta Let_def intro: disp.trans)

lemma dstep_note_withheld: "dstep d (note_withheld now app channel uid d)"
  by (simp add: note_withheld_def dstep_updates dwf_dput dwf_filter)

lemma dstep_user_transition:
  assumes "\<And>d. dstep d (body d)"
  shows "dstep d (with_user_transition aid uid body d)"
proof -
  let ?d1 = "d\<lparr>d_channels := user_lock_enter aid uid (d_channels d)\<rparr>"
  have "dstep d ?d1" by (simp add: dstep_updates mgr_wf_lock_enter)
  also have "dstep ?d1 (body ?d1)" by (rule assms)
  also have "dstep (body ?d1) ((body ?d1)\<lparr>d_channels := user_lock_exit aid uid (d_channels (body ?d1))\<rparr>)"
    by (simp add: dstep_updates mgr_wf_lock_exit)
  finally show ?thesis by (simp add: with_user_transition_def Let_def)
qed


lemma dstep_broadcast: "dstep d (d_broadcast_protocol frame ch d)"
  by (simp add: dstep_net_only)

lemma dstep_emit: "dstep d (emit_local_watchlist_event E aid uid event d)"
  by (simp add: dstep_net_only)

text \<open>The rules that follow the shape of an operation's body, from its last step to its first.\<close>

lemmas dstep_after =
  disp.after [OF dstep_broadcast] disp.after [OF dstep_emit] disp.after [OF dstep_claim_report]
  disp.after [OF dstep_report]

lemmas dstep_cache =
  dstep_updates(1) [OF cache_wf_updates(1)] dstep_updates(1) [OF cache_wf_updates(2)]
  dstep_updates(1) [OF cache_wf_updates(3)] dstep_updates(1) [OF cache_wf_updates(4)]
  dstep_updates(2) [OF cache_wf_updates(5)] dstep_updates(2) [OF cache_wf_updates(6)]
  dstep_updates(3) [OF cache_wf_updates(7)] dstep_updates(3) [OF cache_wf_updates(8)]
  dstep_updates(3) [OF cache_wf_updates(9)]

lemmas dstep_shape = disp.if_step disp.option_step dstep_after dstep_cache

lemma dstep_member_added: "dstep d (apply_remote_member_added E now app origin channel uid info d)"
  unfolding apply_remote_member_added_def Let_def by (intro dstep_shape)

lemma dstep_member_removed:
  "dstep d (apply_remote_member_removed E now app origin channel uid ww vw d)"
  unfolding apply_remote_member_removed_def Let_def by (intro dstep_shape)

lemma dstep_subscription_count:
  "dstep d (apply_remote_subscription_count E now app origin channel n vw d)"
  unfolding apply_remote_subscription_count_def Let_def by (intro dstep_shape)

lemma dstep_user_online: "dstep d (apply_remote_user_online E now app origin uid d)"
  unfolding apply_remote_user_online_def Let_def by (intro dstep_user_transition dstep_shape)

lemma dstep_user_offline: "dstep d (apply_remote_user_offline E now app origin uid d)"
  unfolding apply_remote_user_offline_def Let_def by (intro dstep_user_transition dstep_shape)

lemma dstep_presence_snapshot:
  "dstep d (apply_remote_presence_snapshot E now app node channel members seq d)"
proof -
  obtain ok d1 where a: "accept_seq now node app (''p:'' @ channel) seq d = (ok, d1)" by fastforce
  have acc: "dstep d d1" using dstep_accept [of d now node app "''p:'' @ channel" seq] a by simp
  have announce: "dstep x (announce_added E channel ch info added (announce_removed E channel ch removed x))"
    for x ch info added removed
    by (rule disp.after [OF dstep_net_only [OF net_only_added] dstep_net_only [OF net_only_removed]])
  show ?thesis
  proof (cases ok)
    case True
    have "dstep d1 (d1\<lparr>d_presence_cache :=
        insert_snapshot now (app_id app) channel node members (d_presence_cache d1)\<rparr>)"
      by (rule dstep_cache)
    with a True acc announce show ?thesis
      unfolding apply_remote_presence_snapshot_def Let_def
      by (auto split: option.split intro: disp.trans)
  next
    case False
    with a disp.trans [OF acc dstep_cache(2)] show ?thesis
      by (simp add: apply_remote_presence_snapshot_def)
  qed
qed

lemma dstep_apply_count: "dstep d (apply_count now app node seq c d)"
proof -
  obtain ok d1 where a: "accept_seq now node app (''c:'' @ cc_channel c) seq d = (ok, d1)" by fastforce
  have acc: "dstep d d1"
    using dstep_accept [of d now node app "''c:'' @ cc_channel c" seq] a by simp
  show ?thesis
    using a disp.trans [OF acc dstep_cache(5)] disp.trans [OF acc dstep_cache(6)]
    by (cases ok) (simp_all add: apply_count_def)
qed

text \<open>The closure that decides which omitted channels are dropped only advances sequences.\<close>

lemma retain_seqs:
  fixes s :: seq_map
  assumes "retain_keys aid node present (\<lambda>channel. accept_in now node aid (''c:'' @ channel) seq) c s =
           (dropped, c', s')"
  shows "(dwf s \<longrightarrow> dwf s') \<and>
         (case dget s k of Some (n, _) \<Rightarrow> n | None \<Rightarrow> 0) \<le> (case dget s' k of Some (n, _) \<Rightarrow> n | None \<Rightarrow> 0)"
  using assms
proof (induction c arbitrary: s dropped c')
  case (Cons p rest)
  obtain a ch inner where p: "p = ((a, ch), inner)" by (cases p) auto
  show ?case
  proof (cases "a = aid \<and> ch \<notin> set present \<and> dhas inner node")
    case True
    obtain ok s1 where m: "accept_in now node aid (''c:'' @ ch) seq s = (ok, s1)" by fastforce
    with Cons.prems True obtain d1 c1 where
      "retain_keys aid node present (\<lambda>channel. accept_in now node aid (''c:'' @ channel) seq) rest s1 =
         (d1, c1, s')"
      by (auto simp: p split: prod.splits if_splits)
    from Cons.IH [OF this] accept_in_seqs(1) [OF m] order_trans [OF accept_in_seqs(2) [OF m, of k]]
    show ?thesis by blast
  next
    case False
    with Cons.prems obtain d1 c1 where
      "retain_keys aid node present (\<lambda>channel. accept_in now node aid (''c:'' @ channel) seq) rest s =
         (d1, c1, s')"
      by (auto simp: p split: prod.splits if_splits)
    from Cons.IH [OF this] show ?thesis .
  qed
qed simp

lemma cache_wf_retain:
  assumes "cache_wf c" and r: "retain_keys aid node present may_drop c s = (dropped, c', s')"
  shows "cache_wf c'"
proof -
  have wf: "dwf c" using assms(1) by (simp add: cache_wf_def)
  note spec = retain_keys_spec [OF wf r]
  have c': "dwf c'" using wf spec by (simp add: dwf_def)
  have "dwf inner" if "(k, inner) \<in> set c'" for k inner
  proof -
    have "peers_at c' k = inner" using that c' by (simp add: peers_at_def dwf_in_iff)
    with spec cache_wf_at [OF assms(1), of k] show ?thesis
      by (metis dwf_ddel)
  qed
  with c' show ?thesis by (auto simp: cache_wf_def dall_def list_all_iff)
qed

lemma dstep_channel_count_snapshot:
  "dstep d (apply_remote_channel_count_snapshot E now app node counts seq d)"
proof -
  let ?d1 = "fold (apply_count now app node seq) counts d"
  obtain dropped pcc seqs where r:
    "retain_node_channels (app_id app) node (fold (\<lambda>c. hs_insert (cc_channel c)) counts [])
       (\<lambda>channel. accept_in now node (app_id app) (''c:'' @ channel) seq)
       (d_peer_channel_counts ?d1) (d_peer_seqs ?d1) = (dropped, pcc, seqs)"
    by (metis prod_cases3)
  note r' = r [unfolded retain_node_channels_def]
  have "dstep d ?d1" by (rule disp.fold_step) (rule dstep_apply_count)
  also have "dstep ?d1 (?d1\<lparr>d_peer_channel_counts := pcc\<rparr>)"
    by (rule dstep_updates) (rule cache_wf_retain [OF _ r'])
  also have "dstep (?d1\<lparr>d_peer_channel_counts := pcc\<rparr>)
      (?d1\<lparr>d_peer_channel_counts := pcc, d_peer_seqs := seqs\<rparr>)"
    using retain_seqs [OF r'] by (intro dstep_seqs) (simp_all add: seq_of_def)
  finally have "dstep d (?d1\<lparr>d_peer_channel_counts := pcc, d_peer_seqs := seqs\<rparr>)" .
  with r show ?thesis
    unfolding apply_remote_channel_count_snapshot_def Let_def r case_prod_conv
    by (intro disp.if_step disp.after [OF dstep_net_only [OF net_only_emit_counts]])
qed

lemma dstep_user_change:
  assumes "\<And>uid d. dstep d (change uid d)"
  shows "dstep d (apply_user_change now app node seq change uid d)"
proof -
  obtain ok d1 where a: "accept_seq now node app (''u:'' @ uid) seq d = (ok, d1)" by fastforce
  have acc: "dstep d d1" using dstep_accept [of d now node app "''u:'' @ uid" seq] a by simp
  from disp.trans [OF acc assms] acc a show ?thesis
    by (cases ok) (simp_all add: apply_user_change_def)
qed

lemma dstep_user_session_snapshot:
  "dstep d (apply_remote_user_session_snapshot E now app node user_ids seq d)"
  unfolding apply_remote_user_session_snapshot_def Let_def
  by (intro disp.after [OF disp.fold_step] dstep_user_change dstep_user_offline dstep_user_online
      dstep_cache)

lemma dstep_spawn_publish: "dstep d (d_spawn_publish E now env d)"
  using spawn_publish_spec [of "d_publisher d" E now env]
  by (auto simp: dstep_def disp_wf_def seq_of_def d_spawn_publish_def)
     (simp_all add: spawn_publish_def)

lemma dstep_publish: "dstep d (publish_payload E now app seq payload d)"
  unfolding publish_payload_def by (intro disp.if_step disp.refl dstep_spawn_publish)

lemma cache_channel_entry:
  assumes wf: "mgr_wf mgr" and g: "get_or_create_cache_channel a name mgr = (Some ch, mgr')"
  shows "channel_entry_ok name ch"
proof (cases "is_cache (from_name name)")
  case True
  with g have "find_channel (app_id a) name mgr' = Some ch"
    by (auto simp: get_or_create_cache_channel_def Let_def find_channel_def)
  with mgr_wf_cache_channel [OF wf, of a name] g show ?thesis by (auto dest: mgr_wf_find)
qed (use assms in \<open>auto simp: get_or_create_cache_channel_def dest: mgr_wf_find\<close>)

lemma cache_channel_found:
  "get_or_create_cache_channel a name mgr = (Some ch, mgr') \<Longrightarrow> find_channel (app_id a) name mgr' = Some ch"
  by (auto simp: get_or_create_cache_channel_def Let_def find_channel_def split: if_splits)

lemma dstep_broadcast_locally:
  assumes same_app: "\<And>a. app = Some a \<Longrightarrow> app_id a = aid"
  shows "dstep d (broadcast_locally_with_app now aid app channel event data except d)"
proof (cases "strip_prefix channel SERVER_TO_USER")
  case None
  obtain found mgr where f: "(case app of
      Some a \<Rightarrow> (case get_or_create_cache_channel a channel (d_channels d) of
           (Some ch, mgr) \<Rightarrow> (Some ch, mgr) | (None, mgr) \<Rightarrow> (find_channel aid channel mgr, mgr))
    | None \<Rightarrow> (find_channel aid channel (d_channels d), d_channels d)) = (found, mgr)" (is "?f = _")
    by (cases ?f)
  have created: "mgr_wf (d_channels d) \<Longrightarrow>
      get_or_create_cache_channel a channel (d_channels d) = (r, mgr') \<Longrightarrow> mgr_wf mgr'" for a r mgr'
    using mgr_wf_cache_channel [of "d_channels d" a channel] by simp
  have wf: "mgr_wf (d_channels d) \<Longrightarrow> mgr_wf mgr"
    and ok: "mgr_wf (d_channels d) \<Longrightarrow> found = Some ch \<Longrightarrow> channel_entry_ok channel ch" for ch
    using f created cache_channel_entry [of "d_channels d" _ channel]
    by (auto split: option.splits prod.splits dest: mgr_wf_find)
  have view: "reg_view mgr = reg_view (d_channels d)"
  proof -
    have "reg_view mgr' = reg_view (d_channels d)"
      if "get_or_create_cache_channel a channel (d_channels d) = (r, mgr')" for a r mgr'
      using that reg_view_cache_channel [of a channel "d_channels d"] by simp
    with f show ?thesis by (auto split: option.splits prod.splits)
  qed
  have found: "found = Some ch \<Longrightarrow> find_channel aid channel mgr = Some ch" for ch
    using f same_app cache_channel_found [of _ channel "d_channels d"]
    by (auto split: option.splits prod.splits)
  show ?thesis
  proof (cases found)
    case None
    with f \<open>strip_prefix channel SERVER_TO_USER = None\<close> wf view show ?thesis
      by (simp add: broadcast_locally_with_app_def dstep_updates)
  next
    case (Some ch)
    let ?frame = "encode_envelope_raw_data event (Some data) (Some channel)"
    have "mgr_wf (store_channel aid (fst (broadcast now ?frame except ch (d_net d))) mgr)"
      if "mgr_wf (d_channels d)"
      using broadcast_entry_ok [OF ok [OF that Some], of now ?frame except "d_net d"] wf [OF that]
      by (simp add: mgr_wf_store)
    moreover have "reg_view (store_channel aid (fst (broadcast now ?frame except ch (d_net d))) mgr) =
        reg_view (d_channels d)" if "mgr_wf (d_channels d)"
      using broadcast_entry_ok [OF ok [OF that Some], of now ?frame except "d_net d"] found [OF Some] view
      by (simp add: reg_view_store broadcast_def Let_def)
    ultimately have "dstep d (d\<lparr>d_channels := store_channel aid (fst (broadcast now ?frame except ch (d_net d))) mgr,
        d_net := snd (broadcast now ?frame except ch (d_net d))\<rparr>)"
      by (simp add: dstep_def disp_wf_def seq_of_def)
    with f Some None show ?thesis
      by (simp add: broadcast_locally_with_app_def case_prod_beta Let_def)
  qed
qed (simp add: broadcast_locally_with_app_def dstep_net_only)

lemma dstep_broadcast_app:
  "dstep d (broadcast_locally_with_app now (app_id app) (Some app) channel event data except d)"
  by (rule dstep_broadcast_locally) simp

lemma dstep_note_peer: "dstep d (note_peer now payload d)"
  by (auto simp: note_peer_def dstep_def disp_wf_def seq_of_def zwf dhas_def split: option.split)

lemma dstep_apply_payload: "dstep d (apply_payload E now app seq payload d)"
proof (cases payload)
  case (MetricsResponse rid node metrics conns)
  then show ?thesis
    by (simp add: dstep_updates zwf disp.refl split: option.split)
next
  case (MetricsRequest rid node query)
  then show ?thesis
    by (simp add: respond_to_metrics_request_def Let_def disp.refl dstep_spawn_publish)
qed (simp_all add: disp.refl dstep_broadcast_app
      dstep_net_only dstep_presence_snapshot
      dstep_if_accepted dstep_member_added dstep_member_removed dstep_subscription_count
      dstep_user_online dstep_user_offline dstep_channel_count_snapshot dstep_user_session_snapshot
      split: option.split)

lemma dstep_handle_incoming: "dstep d (handle_incoming E now apps env d)"
proof -
  have "dstep d (log_future_version now d)"
    by (simp add: log_future_version_def dstep_def disp_wf_def seq_of_def Let_def)
  then show ?thesis
    unfolding handle_incoming_def Let_def
    by (intro disp.if_step disp.option_step disp.after [OF dstep_apply_payload] dstep_note_peer)
qed

lemma dstep_dispatch_message:
  "dstep d (snd (dispatch_message E now nonce app channel event data except d))"
  unfolding dispatch_message_def Let_def
  by (auto intro: disp.refl disp.after [OF dstep_publish] dstep_broadcast_app split: sum.split)

lemma dstep_pub_do: "dstep d (d\<lparr>d_publisher := snd (pub_do E op (d_publisher d))\<rparr>)"
proof -
  have "pb_queue (snd (pub_do E op p)) = None" if "pb_queue p = None" for p
    using that
    by (cases op) (auto simp: spawn_publish_def forwarder_recv_def forwarder_send_def worker_recv_def
        worker_done_def split: option.splits list.splits)
  with pub_do_spec [of "d_publisher d" E op] show ?thesis
    by (auto simp: dstep_def disp_wf_def seq_of_def)
qed

text \<open>The operations of a dispatcher, of the registry it holds and of the tasks it spawns.\<close>

datatype disp_op =
    Incoming instant "app_id \<Rightarrow> application option" scaling_envelope
  | DispatchMessage instant string application string string string "socket_id option"
  | DispatchUserEvent instant application string string string
  | PublishPayload instant application "64 word" scaling_payload
  | Withhold instant application string "string option"
  | AskFleet instant string application metrics_query
  | StopAsking string
  | TaskStep pub_op
  | Sweep instant
  | LocalRegistry manager_op

fun disp_do :: "ext \<Rightarrow> disp_op \<Rightarrow> dispatcher \<Rightarrow> dispatcher" where
  "disp_do E (Incoming now apps env) d = handle_incoming E now apps env d"
| "disp_do E (DispatchMessage now nonce app channel event data except) d =
     snd (dispatch_message E now nonce app channel event data except d)"
| "disp_do E (DispatchUserEvent now app uid event data) d =
     dispatch_user_event E now app uid event data d"
| "disp_do E (PublishPayload now app seq payload) d = publish_payload E now app seq payload d"
| "disp_do E (Withhold now app channel uid) d = note_withheld now app channel uid d"
| "disp_do E (AskFleet now rid app query) d =
     (case ask_fleet_begin E now rid app query d of Some (_, d1) \<Rightarrow> d1 | None \<Rightarrow> d)"
| "disp_do E (StopAsking rid) d = ask_fleet_end rid d"
| "disp_do E (TaskStep op) d = d\<lparr>d_publisher := snd (pub_do E op (d_publisher d))\<rparr>"
| "disp_do E (Sweep now) d =
     (gc_peer_sequences now d)
       \<lparr>d_presence_cache := snd (pc_gc_expired now (d_presence_cache d)),
        d_peer_channel_counts := snd (pcc_gc_expired now (d_peer_channel_counts d)),
        d_peer_user_sessions := snd (pus_gc_expired now (d_peer_user_sessions d))\<rparr>"
| "disp_do E (LocalRegistry op) d = d\<lparr>d_channels := manager_do op (d_channels d)\<rparr>"

lemma dstep_wf: "dstep d d' \<Longrightarrow> disp_wf d \<Longrightarrow> disp_wf d'"
  by (simp add: dstep_def)

lemma disp_wf_do: "disp_wf d \<Longrightarrow> disp_wf (disp_do E op d)"
proof (cases op)
  case (Sweep now)
  assume "disp_wf d"
  then show ?thesis unfolding Sweep
    by (simp add: disp_wf_def gc_peer_sequences_def zwf rosters.gc_ok counts.gc_ok usessions.gc_ok)
next
  case (DispatchUserEvent now app uid event data)
  moreover have "dstep d (dispatch_user_event E now app uid event data d)"
    unfolding dispatch_user_event_def Let_def
    by (intro disp.after [OF dstep_publish] dstep_net_only net_only_deliver)
  moreover assume "disp_wf d"
  ultimately show ?thesis by (auto dest: dstep_wf)
next
  case (AskFleet now rid app query)
  have "dstep d (d_spawn_publish E now env (d\<lparr>d_metrics_inflight := dput rid [] (d_metrics_inflight d)\<rparr>))" for env
    by (rule disp.after [OF dstep_spawn_publish]) (simp add: dstep_updates zwf)
  moreover assume "disp_wf d"
  ultimately show ?thesis by (auto simp: AskFleet ask_fleet_begin_def Let_def dest: dstep_wf)
next
  case (LocalRegistry op')
  assume "disp_wf d"
  then show ?thesis unfolding LocalRegistry by (simp add: disp_wf_def mgr_wf_do)
qed (auto simp: ask_fleet_end_def zwf
      dest: dstep_wf [OF dstep_handle_incoming] dstep_wf [OF dstep_dispatch_message]
        dstep_wf [OF dstep_publish] dstep_wf [OF dstep_note_withheld] dstep_wf [OF dstep_pub_do]
      intro!: dstep_wf [OF dstep_updates(6)])

text \<open>
  C18: Over every history of a node, whatever its peers send, the dispatcher stays consistent: its
  registry and the three peer caches are well formed, it never counts itself among its peers, and
  the outbound queue and staging buffer respect their bounds.
\<close>

theorem dispatcher_invariant:
  "disp_wf (fold (disp_do E) ops (dispatcher_new node scaling overflow))"
proof -
  have "disp_wf d \<Longrightarrow> disp_wf (fold (disp_do E) ops d)" for d
    by (induction ops arbitrary: d) (simp_all add: disp_wf_do)
  then show ?thesis using disp_wf_new by blast
qed

section \<open>Order of a peer's updates\<close>

text \<open>The peer and the piece of its state that a numbered update or a roster is about.\<close>

fun update_key :: "scaling_payload \<Rightarrow> (string \<times> string) option" where
  "update_key (MemberAdded origin channel _ _) = Some (origin, ''p:'' @ channel)"
| "update_key (MemberRemoved origin channel _ _ _) = Some (origin, ''p:'' @ channel)"
| "update_key (PresenceSnapshot node channel _) = Some (node, ''p:'' @ channel)"
| "update_key (SubscriptionCount origin channel _ _) = Some (origin, ''c:'' @ channel)"
| "update_key (UserOnline origin uid) = Some (origin, ''u:'' @ uid)"
| "update_key (UserOffline origin uid) = Some (origin, ''u:'' @ uid)"
| "update_key _ = None"

lemma accept_seq_records:
  "seq \<le> seq_of (snd (accept_seq now node app key seq d)) (node, app_id app, key)"
  by (auto simp: accept_seq_def accept_in_def seq_of_def Let_def dentry_def not_le
      split: option.split prod.split)

lemma accept_seq_stale:
  assumes "seq \<noteq> 0" "seq \<le> seq_of d (node, app_id app, key)"
  shows "accept_seq now node app key seq d = (False, d)"
proof -
  obtain n at where e: "dget (d_peer_seqs d) (node, app_id app, key) = Some (n, at)"
    using assms by (cases "dget (d_peer_seqs d) (node, app_id app, key)") (auto simp: seq_of_def)
  with assms show ?thesis
    by (simp add: accept_seq_def accept_in_def seq_of_def Let_def dentry_def)
qed

lemma dstep_seq_of: "dstep d d' \<Longrightarrow> disp_wf d \<Longrightarrow> seq_of d k \<le> seq_of d' k"
  unfolding dstep_def by blast

lemma accept_then_step:
  assumes wf: "disp_wf d" and step: "\<And>d. dstep d (body d)"
  shows "seq \<le> seq_of (if_accepted now node app key seq body d) (node, app_id app, key)"
proof -
  let ?d1 = "snd (accept_seq now node app key seq d)"
  have wf1: "disp_wf ?d1" by (rule dstep_wf [OF dstep_accept wf])
  have "seq \<le> seq_of ?d1 (node, app_id app, key)" by (rule accept_seq_records)
  moreover have "seq_of ?d1 (node, app_id app, key) \<le> seq_of (body ?d1) (node, app_id app, key)"
    by (rule dstep_seq_of [OF step wf1])
  ultimately show ?thesis by (auto simp: if_accepted_def case_prod_beta)
qed

text \<open>A roster is handled like a numbered update whose rejection still refreshes the peer.\<close>

lemma snapshot_records:
  assumes wf: "disp_wf d"
  shows "seq \<le> seq_of (apply_remote_presence_snapshot E now app node channel members seq d)
            (node, app_id app, ''p:'' @ channel)"
proof -
  obtain ok d1 where a: "accept_seq now node app (''p:'' @ channel) seq d = (ok, d1)" by fastforce
  have "seq \<le> seq_of d1 (node, app_id app, ''p:'' @ channel)"
    using accept_seq_records [of seq now node app "''p:'' @ channel" d] a by simp
  moreover have "d_peer_seqs (apply_remote_presence_snapshot E now app node channel members seq d) =
      d_peer_seqs d1"
    using a by (cases ok) (simp_all add: apply_remote_presence_snapshot_def Let_def split: option.split)
  ultimately show ?thesis by (simp add: seq_of_def)
qed

lemma update_records:
  assumes wf: "disp_wf d" and key: "update_key payload = Some (node, key)" and "node \<noteq> d_node_id d"
  shows "seq \<le> seq_of (apply_payload E now app seq payload d) (node, app_id app, key)"
  using key assms(3) accept_then_step [OF wf] snapshot_records [OF wf]
  by (cases payload)
     (auto simp: dstep_member_added dstep_member_removed dstep_subscription_count dstep_user_online
        dstep_user_offline)

text \<open>What local clients and the queries see of a dispatcher.\<close>

definition visible ::
  "dispatcher \<Rightarrow> net \<times> (application \<times> fleet_transition) list \<times> peer_channel_counts \<times>
     peer_user_sessions \<times> (app_channel_key \<Rightarrow> string \<Rightarrow> (string, json option) dmap option)" where
  "visible d =
     (d_net d, d_reported d, d_peer_channel_counts d, d_peer_user_sessions d,
      \<lambda>k node. map_option ps_members (peer_entry (d_presence_cache d) k node))"

lemma visible_touch: "visible (d\<lparr>d_presence_cache := pc_touch now aid channel node (d_presence_cache d)\<rparr>) = visible d"
  by (auto simp: visible_def pc_touch_def fun_eq_iff split: option.split)

lemma update_stale:
  assumes key: "update_key payload = Some (node, key)" and "seq \<noteq> 0"
    and "seq \<le> seq_of d (node, app_id app, key)"
  shows "visible (apply_payload E now app seq payload d) = visible d"
  using key assms(3) accept_seq_stale [OF assms(2), of d node app key now]
  by (cases payload)
     (auto simp: if_accepted_def apply_remote_presence_snapshot_def visible_touch)

lemma visible_note_peer: "visible (note_peer now payload d) = visible d"
  by (simp add: visible_def note_peer_def split: option.split)

lemma seq_of_note_peer: "seq_of (note_peer now payload d) k = seq_of d k"
  by (cases "payload_node_id payload") (simp_all add: seq_of_def note_peer_def)

lemma handle_known:
  "env_version env \<le> SCALING_VERSION \<Longrightarrow> apps (ar_id (env_app env)) = Some app \<Longrightarrow>
     handle_incoming E now apps env d =
       apply_payload E now app (env_seq env) (env_payload env) (note_peer now (env_payload env) d)"
  by (simp add: handle_incoming_def Let_def leD)

lemma node_note_peer: "d_node_id (note_peer now payload d) = d_node_id d"
  by (simp add: note_peer_def split: option.split)

text \<open>
  C14: A peer's updates take effect in the order the peer numbered them. Once an update or roster
  about a piece of a peer's state has arrived, whatever arrives in between, an update or roster
  about the same piece with a smaller or equal number changes nothing: no frame is sent, no
  transition reported, and the rosters, counts and sessions stay. In particular a snapshot captured
  before a live update cannot undo it.
\<close>

theorem stale_update_ignored:
  assumes wf: "disp_wf d"
    and app: "apps (ar_id (env_app newer)) = Some app" "apps (ar_id (env_app older)) = Some app"
    and version: "env_version newer \<le> SCALING_VERSION" "env_version older \<le> SCALING_VERSION"
    and key: "update_key (env_payload newer) = Some (node, key)"
             "update_key (env_payload older) = Some (node, key)"
    and peer: "node \<noteq> d_node_id d"
    and seq: "env_seq older \<noteq> 0" "env_seq older \<le> env_seq newer"
    and mid: "d' = fold (\<lambda>(now, env). handle_incoming E now apps env) between
                    (handle_incoming E t apps newer d)"
  shows "visible (handle_incoming E now apps older d') = visible d'"
proof -
  let ?k = "(node, app_id app, key)" and ?d0 = "note_peer t (env_payload newer) d"
  let ?d1 = "handle_incoming E t apps newer d"
  have wf0: "disp_wf ?d0" by (rule dstep_wf [OF dstep_note_peer wf])
  have "env_seq newer \<le> seq_of ?d1 ?k"
    unfolding handle_known [of newer apps app, OF version(1) app(1)]
    by (rule update_records [OF wf0 key(1)]) (simp add: node_note_peer peer)
  also have "seq_of ?d1 ?k \<le> seq_of d' ?k"
  proof (rule dstep_seq_of)
    show "dstep ?d1 d'" unfolding mid
      by (rule disp.fold_step) (simp add: case_prod_beta dstep_handle_incoming)
    show "disp_wf ?d1" by (rule dstep_wf [OF dstep_handle_incoming wf])
  qed
  finally have "env_seq older \<le> seq_of d' ?k" using seq(2) by simp
  then have "env_seq older \<le> seq_of (note_peer now (env_payload older) d') ?k"
    by (simp add: seq_of_note_peer)
  from update_stale [OF key(2) seq(1) this] show ?thesis
    unfolding handle_known [of older apps app, OF version(2) app(2)] by (simp add: visible_note_peer)
qed

text \<open>
  A node never acts on its own messages when the bus echoes them: any payload that carries the
  node's own id, except a reply to a metrics request, leaves the dispatcher exactly as it was.
\<close>

theorem own_echo_ignored:
  assumes "payload_node_id (env_payload env) = Some (d_node_id d)"
    and "\<nexists>rid node metrics conns. env_payload env = MetricsResponse rid node metrics conns"
    and "env_version env \<le> SCALING_VERSION"
  shows "handle_incoming E now apps env d = d"
  using assms
  by (cases "env_payload env")
     (simp_all add: handle_incoming_def note_peer_def Let_def leD split: option.split)

text \<open>Every peer that sent a payload is counted as live.\<close>

lemma note_peer_seen:
  "payload_node_id payload = Some node \<Longrightarrow> node \<noteq> d_node_id d \<Longrightarrow>
     dget (d_peers_seen (note_peer now payload d)) node = Some now"
  by (simp add: note_peer_def)

section \<open>Leaders and withheld webhooks\<close>

definition live_peers :: "instant \<Rightarrow> dispatcher \<Rightarrow> string set" where
  "live_peers now d = {node. \<exists>at. dget (d_peers_seen d) node = Some at \<and> now - at \<le> SNAPSHOT_TTL}"

lemma leader_iff:
  assumes "disp_wf d"
  shows "is_fleet_leader now d \<longleftrightarrow> (\<forall>node\<in>live_peers now d. d_node_id d < node)"
proof -
  have wf: "dwf (d_peers_seen d)" using assms by (simp add: disp_wf_def)
  have "is_fleet_leader now d \<longleftrightarrow>
      (\<forall>node at. (node, at) \<in> set (d_peers_seen d) \<longrightarrow> now - at > SNAPSHOT_TTL \<or> node > d_node_id d)"
    by (auto simp: is_fleet_leader_def list_all_iff)
  also have "\<dots> \<longleftrightarrow> (\<forall>node\<in>live_peers now d. d_node_id d < node)"
    unfolding dwf_in_iff [OF wf] live_peers_def mem_Collect_eq Ball_def by (meson not_le)
  finally show ?thesis .
qed

text \<open>
  C22: Among nodes that all see each other live (each at its own clock, and possibly seeing further
  nodes), at most one considers itself the leader. When they see no further node, the leader is
  exactly the one with the least id, so a crashed peer's departure is reported by one node.
\<close>

theorem fleet_leader_unique:
  assumes wf: "\<And>d. d \<in> set ds \<Longrightarrow> disp_wf d" and ids: "distinct (map d_node_id ds)"
    and see: "\<And>a b. a \<in> set ds \<Longrightarrow> b \<in> set ds \<Longrightarrow> a \<noteq> b \<Longrightarrow> d_node_id b \<in> live_peers (clock a) a"
  shows "length (filter (\<lambda>d. is_fleet_leader (clock d) d) ds) \<le> 1 \<and>
         ((\<forall>d\<in>set ds. live_peers (clock d) d \<subseteq> d_node_id ` set ds - {d_node_id d}) \<longrightarrow>
          (\<forall>d\<in>set ds. is_fleet_leader (clock d) d \<longleftrightarrow> (\<forall>e\<in>set ds. d_node_id d \<le> d_node_id e)))"
proof
  let ?lead = "\<lambda>d. is_fleet_leader (clock d) d"
  have below: "d_node_id a < d_node_id b" if "a \<in> set ds" "b \<in> set ds" "a \<noteq> b" "?lead a" for a b
    using leader_iff [OF wf [OF that(1)]] see [OF that(1-3)] that(4) by blast
  then have "a = b" if "a \<in> set (filter ?lead ds)" "b \<in> set (filter ?lead ds)" for a b
    using that order_less_asym [of "d_node_id a" "d_node_id b"] by (cases "a = b") auto
  moreover have "distinct (filter ?lead ds)" using ids by (simp add: distinct_map)
  ultimately show "length (filter ?lead ds) \<le> 1"
    by (metis One_nat_def card_le_Suc0_iff_eq distinct_card finite_set)
  show "(\<forall>d\<in>set ds. live_peers (clock d) d \<subseteq> d_node_id ` set ds - {d_node_id d}) \<longrightarrow>
      (\<forall>d\<in>set ds. ?lead d \<longleftrightarrow> (\<forall>e\<in>set ds. d_node_id d \<le> d_node_id e))"
  proof (intro impI ballI iffI)
    fix d e assume "d \<in> set ds" "?lead d" "e \<in> set ds"
    then show "d_node_id d \<le> d_node_id e" using below [of d e] by (cases "d = e") auto
  next
    fix d assume only: "\<forall>d\<in>set ds. live_peers (clock d) d \<subseteq> d_node_id ` set ds - {d_node_id d}"
      and d: "d \<in> set ds" and least: "\<forall>e\<in>set ds. d_node_id d \<le> d_node_id e"
    show "?lead d" unfolding leader_iff [OF wf [OF d]]
    proof
      fix node assume "node \<in> live_peers (clock d) d"
      with only d have "node \<in> d_node_id ` set ds" "node \<noteq> d_node_id d" by blast+
      with least show "d_node_id d < node" by (metis image_iff order_le_less)
    qed
  qed
qed

lemma present_after_remove:
  assumes "cache_wf c"
  shows "pc_is_present_excluding now aid channel uid None (snd (remove_live now aid channel origin uid c)) \<longleftrightarrow>
         pc_is_present_excluding now aid channel uid (Some origin) c"
proof (cases "peer_entry c (aid, channel) origin")
  case None
  then have c': "snd (remove_live now aid channel origin uid c) = c" by (simp add: remove_live_def)
  have "None \<noteq> Some node \<longleftrightarrow> Some origin \<noteq> Some node"
    if "peer_entry c (aid, channel) node = Some peer" for node peer
    using None that by auto
  then show ?thesis unfolding c' pc_is_present_iff [OF assms] by meson
next
  case (Some peer)
  let ?peer = "peer\<lparr>ps_inserted_at := now, ps_members := ddel uid (ps_members peer)\<rparr>"
  have c': "snd (remove_live now aid channel origin uid c) = put_peer (aid, channel) origin ?peer c"
    using Some by (simp add: remove_live_def Let_def)
  have "cache_wf (put_peer (aid, channel) origin ?peer c)" using assms by blast
  then show ?thesis
    unfolding c' pc_is_present_iff [OF assms] by (subst pc_is_present_iff) (auto simp: dhas_def)
qed

lemma present_after_add:
  assumes "cache_wf c"
  shows "pc_is_present_excluding now aid channel uid None (snd (add_live now aid channel origin uid info c))"
proof -
  have wf: "cache_wf (snd (add_live now aid channel origin uid info c))" using assms by blast
  let ?peer = "case peer_entry c (aid, channel) origin of Some p \<Rightarrow> p | None \<Rightarrow> peer_snapshot_new now []"
  have "peer_entry (snd (add_live now aid channel origin uid info c)) (aid, channel) origin =
      Some (?peer\<lparr>ps_inserted_at := now, ps_members := dput uid info (ps_members ?peer)\<rparr>)"
    by (simp add: add_live_def Let_def)
  moreover have "\<not> is_expired now now" by (simp add: is_expired_def)
  ultimately show ?thesis unfolding pc_is_present_iff [OF wf] by (fastforce simp: dhas_def)
qed

lemma claim_fields [simp]:
  "d_net (claim_and_report now app channel k t d) = d_net d"
  "d_channels (claim_and_report now app channel k t d) = d_channels d"
  "d_presence_cache (claim_and_report now app channel k t d) = d_presence_cache d"
  "d_transition_sink (claim_and_report now app channel k t d) = d_transition_sink d"
  "d_peer_channel_counts (claim_and_report now app channel k t d) = d_peer_channel_counts d"
  by (simp_all add: claim_and_report_def claim_withheld_def report_transition_def Let_def)

text \<open>Whether a user is anywhere in the fleet, as one node sees it, and the frame it would send.\<close>

definition fleet_present :: "instant \<Rightarrow> application \<Rightarrow> string \<Rightarrow> string \<Rightarrow> string option \<Rightarrow> dispatcher \<Rightarrow> bool" where
  "fleet_present now app channel uid except d \<longleftrightarrow>
     locally_present (find_channel (app_id app) channel (d_channels d)) uid \<or>
     pc_is_present_excluding now (app_id app) channel uid except (d_presence_cache d)"

definition tell_local :: "application \<Rightarrow> string \<Rightarrow> string \<Rightarrow> dispatcher \<Rightarrow> net" where
  "tell_local app channel frame d =
     (case find_channel (app_id app) channel (d_channels d) of
        Some ch \<Rightarrow> broadcast_protocol frame None ch (d_net d) | None \<Rightarrow> d_net d)"

text \<open>
  C21: Presence across the fleet, as one node sees it. When a peer announces a user, local
  subscribers get \<open>member_added\<close> exactly when the user is neither local nor on a live peer other than
  the announcing one, whose own earlier record does not count (an announcement it repeats is passed
  on again); afterwards the user counts as present. When a peer withdraws a user, they get
  \<open>member_removed\<close> exactly when the user is then nowhere in the fleet, which is when it was neither
  local nor on another live peer, whether or not the withdrawing peer had it on record.
\<close>

theorem remote_presence_frames:
  assumes "disp_wf d"
  shows "(let d' = apply_remote_member_added E now app origin channel uid info d in
            d_net d' = (if fleet_present now app channel uid (Some origin) d then d_net d
                        else tell_local app channel (member_added E channel uid info) d) \<and>
            fleet_present now app channel uid None d') \<and>
         (let d' = apply_remote_member_removed E now app origin channel uid ww vw d in
            d_net d' = (if fleet_present now app channel uid None d' then d_net d
                        else tell_local app channel (member_removed E channel uid) d) \<and>
            (fleet_present now app channel uid None d' \<longleftrightarrow>
               fleet_present now app channel uid (Some origin) d))"
  (is "?added \<and> ?removed")
proof
  have wf: "cache_wf (d_presence_cache d)" using assms by (simp add: disp_wf_def)
  show ?added
    using present_after_add [OF wf, of now "app_id app" channel uid origin info]
    by (cases "find_channel (app_id app) channel (d_channels d)")
       (simp_all add: apply_remote_member_added_def fleet_present_def tell_local_def Let_def
          d_broadcast_protocol_def)
  note removed = present_after_remove [OF wf, of now "app_id app" channel uid origin]
  show ?removed
    by (cases "find_channel (app_id app) channel (d_channels d)")
       (simp_all add: apply_remote_member_removed_def fleet_present_def tell_local_def Let_def
          claim_fields removed d_broadcast_protocol_def)
qed

lemma claim_count:
  "count_list (d_reported (claim_and_report now app channel k t d)) x =
     count_list (d_reported d) x +
       (if x = (app, t) \<and> d_transition_sink d \<and>
           (case dget (d_withheld d) (app_id app, channel, k) of
              Some at \<Rightarrow> now - at < WITHHELD_WINDOW | None \<Rightarrow> False) then 1 else 0)"
  by (simp add: claim_and_report_def claim_withheld_def report_transition_def Let_def split: option.split)

lemma removed_reports:
  assumes "disp_wf d"
  shows "count_list (d_reported (apply_remote_member_removed E now app origin channel uid ww vw d))
           (app, MemberGone channel uid) =
         count_list (d_reported d) (app, MemberGone channel uid) +
           (if \<not> fleet_present now app channel uid (Some origin) d \<and> ww \<and> d_node_id d < origin \<and>
               d_transition_sink d \<and>
               (case dget (d_withheld d) (app_id app, channel, Some uid) of
                  Some at \<Rightarrow> now - at < WITHHELD_WINDOW | None \<Rightarrow> False) then 1 else 0)"
proof -
  have wf: "cache_wf (d_presence_cache d)" using assms by (simp add: disp_wf_def)
  note removed = present_after_remove [OF wf, of now "app_id app" channel uid origin]
  show ?thesis
    by (cases "find_channel (app_id app) channel (d_channels d)")
       (simp_all add: apply_remote_member_removed_def fleet_present_def Let_def claim_count removed)
qed

text \<open>
  C15: Two nodes lose a user's last connections at the same moment and each withholds its
  \<open>member_removed\<close> webhook because the other still looked occupied. When they receive each other's
  withdrawals within the window, exactly one of them reports the departure.
\<close>

theorem withheld_reported_once:
  assumes "disp_wf a" "disp_wf b" "d_node_id a \<noteq> d_node_id b"
    and "d_transition_sink a" "d_transition_sink b"
    and "\<not> fleet_present now app channel uid (Some (d_node_id b)) a"
    and "\<not> fleet_present now app channel uid (Some (d_node_id a)) b"
    and "dget (d_withheld a) (app_id app, channel, Some uid) = Some t" "now - t < WITHHELD_WINDOW"
    and "dget (d_withheld b) (app_id app, channel, Some uid) = Some t'" "now - t' < WITHHELD_WINDOW"
  shows "let gone = (app, MemberGone channel uid);
             a' = apply_remote_member_removed E now app (d_node_id b) channel uid True vw a;
             b' = apply_remote_member_removed E now app (d_node_id a) channel uid True vw' b
         in count_list (d_reported a') gone + count_list (d_reported b') gone =
              count_list (d_reported a) gone + count_list (d_reported b) gone + 1"
proof -
  have "d_node_id a < d_node_id b \<longleftrightarrow> \<not> d_node_id b < d_node_id a" using assms(3) by auto
  then show ?thesis using assms by (simp add: Let_def removed_reports)
qed

section \<open>Convergence\<close>

lemma online_fields [simp]:
  "d_peer_user_sessions (apply_remote_user_online E now app origin uid d) =
     snd (pus_add now (app_id app) origin uid (d_peer_user_sessions d))"
  "d_peer_seqs (apply_remote_user_online E now app origin uid d) = d_peer_seqs d"
  "d_peer_user_sessions (apply_remote_user_offline E now app origin uid d) =
     snd (pus_remove now (app_id app) origin uid (d_peer_user_sessions d))"
  "d_peer_seqs (apply_remote_user_offline E now app origin uid d) = d_peer_seqs d"
  by (simp_all add: apply_remote_user_online_def apply_remote_user_offline_def
      with_user_transition_def Let_def)

lemma users_of_add:
  "set (users_of aid node' (snd (pus_add now aid node uid c))) =
     (if node' = node then insert uid (set (users_of aid node c)) else set (users_of aid node' c))"
  by (auto simp: users_of_def pus_add_def Let_def split: option.split)

lemma users_of_remove:
  "set (users_of aid node' (snd (pus_remove now aid node uid c))) =
     (if node' = node then set (users_of aid node c) - {uid} else set (users_of aid node' c))"
  by (auto simp: users_of_def pus_remove_def split: option.split)

lemma accept_seq_fresh:
  assumes "seq = 0 \<or> seq_of d (node, app_id app, key) < seq"
  shows "fst (accept_seq now node app key seq d) \<and>
         d_peer_user_sessions (snd (accept_seq now node app key seq d)) = d_peer_user_sessions d \<and>
         (\<forall>k. k \<noteq> (node, app_id app, key) \<longrightarrow>
            seq_of (snd (accept_seq now node app key seq d)) k = seq_of d k)"
  using assms
  by (auto simp: accept_seq_def accept_in_def seq_of_def dentry_def Let_def not_le split: option.split)

lemma accept_seq_other:
  "d_peer_user_sessions (snd (accept_seq now node app key seq d)) = d_peer_user_sessions d"
  "k \<noteq> (node, app_id app, key) \<Longrightarrow>
     seq_of (snd (accept_seq now node app key seq d)) k = seq_of d k"
  by (auto simp: accept_seq_def accept_in_def seq_of_def dentry_def Let_def not_le
      split: option.split)

lemma hs_fold: "set (fold hs_insert xs acc) = set xs \<union> set acc"
  "distinct acc \<Longrightarrow> distinct (fold hs_insert xs acc)"
  by (induction xs arbitrary: acc) (auto simp: hs_insert_def)

text \<open>
  The two loops of the snapshot. \<open>pending d uid\<close> says that the peer's number is new for the user, so
  that the change will be accepted.
\<close>

definition pending :: "application \<Rightarrow> string \<Rightarrow> 64 word \<Rightarrow> dispatcher \<Rightarrow> string \<Rightarrow> bool" where
  "pending app node seq d uid \<longleftrightarrow> seq = 0 \<or> seq_of d (node, app_id app, ''u:'' @ uid) < seq"

lemma pending_change:
  assumes "uid' \<noteq> uid" and "\<And>d. d_peer_seqs (change uid d) = d_peer_seqs d"
  shows "pending app node seq (apply_user_change now app node seq change uid d) uid' \<longleftrightarrow>
         pending app node seq d uid'"
proof -
  let ?k = "(node, app_id app, ''u:'' @ uid')"
  obtain ok d1 where a: "accept_seq now node app (''u:'' @ uid) seq d = (ok, d1)" by fastforce
  have "seq_of d1 ?k = seq_of d ?k"
    using accept_seq_other(2) [of ?k node app "''u:'' @ uid" now seq d] assms(1) a by simp
  moreover have "seq_of (change uid d1) ?k = seq_of d1 ?k" using assms(2) by (simp add: seq_of_def)
  ultimately show ?thesis using a by (cases ok) (simp_all add: pending_def apply_user_change_def)
qed

text \<open>A change for one user is applied exactly when its number is new for that user.\<close>

lemma change_sessions:
  "d_peer_user_sessions (apply_user_change now app node seq change uid d) =
     (if pending app node seq d uid
      then d_peer_user_sessions (change uid (snd (accept_seq now node app (''u:'' @ uid) seq d)))
      else d_peer_user_sessions d)"
  using accept_seq_fresh [of seq d node app "''u:'' @ uid" now] accept_seq_stale [of seq d node app "''u:'' @ uid" now]
  by (auto simp: apply_user_change_def pending_def not_less split: prod.split bool.split)

lemma change_stale: "\<not> pending app node seq d uid \<Longrightarrow> apply_user_change now app node seq change uid d = d"
  using accept_seq_stale [of seq d node app "''u:'' @ uid" now]
  by (auto simp: apply_user_change_def pending_def not_less)

lemma online_loop:
  assumes step_def: "step = apply_user_change now app node seq (apply_remote_user_online E now app node)"
  shows "(uid \<in> set (users_of (app_id app) node' (d_peer_user_sessions (fold step xs d))) \<longleftrightarrow>
            uid \<in> set (users_of (app_id app) node' (d_peer_user_sessions d)) \<or>
            node' = node \<and> uid \<in> set xs \<and> pending app node seq d uid) \<and>
         (uid \<notin> set xs \<longrightarrow> pending app node seq (fold step xs d) uid = pending app node seq d uid)"
proof (induction xs arbitrary: d)
  case (Cons x xs)
  show ?case
  proof (cases "pending app node seq d x")
    case True
    have p: "pending app node seq (step x d) uid = pending app node seq d uid" if "uid \<noteq> x"
      unfolding step_def by (rule pending_change [OF that]) simp
    have "d_peer_user_sessions (step x d) = snd (pus_add now (app_id app) node x (d_peer_user_sessions d))"
      unfolding step_def using True by (simp add: change_sessions accept_seq_other)
    with Cons.IH [of "step x d"] p True show ?thesis by (auto simp: users_of_add)
  next
    case False
    then have "step x d = d" unfolding step_def by (rule change_stale)
    with Cons.IH [of d] False show ?thesis by auto
  qed
qed simp

lemma offline_loop:
  assumes step_def: "step = apply_user_change now app node seq (apply_remote_user_offline E now app node)"
  shows "uid \<in> set (users_of (app_id app) node' (d_peer_user_sessions (fold step xs d))) \<longleftrightarrow>
           uid \<in> set (users_of (app_id app) node' (d_peer_user_sessions d)) \<and>
           \<not> (node' = node \<and> uid \<in> set xs \<and> pending app node seq d uid)"
proof (induction xs arbitrary: d)
  case (Cons x xs)
  show ?case
  proof (cases "pending app node seq d x")
    case True
    have p: "pending app node seq (step x d) uid = pending app node seq d uid" if "uid \<noteq> x"
      unfolding step_def by (rule pending_change [OF that]) simp
    have "d_peer_user_sessions (step x d) = snd (pus_remove now (app_id app) node x (d_peer_user_sessions d))"
      unfolding step_def using True by (simp add: change_sessions accept_seq_other)
    with Cons.IH [of "step x d"] p True show ?thesis by (auto simp: users_of_remove)
  next
    case False
    then have "step x d = d" unfolding step_def by (rule change_stale)
    with Cons.IH [of d] False show ?thesis by auto
  qed
qed simp

text \<open>
  C20: A session snapshot is applied user by user, each against the numbers already applied for that
  user: afterwards a user for whom the snapshot's number is new is recorded for that peer exactly
  when the snapshot lists it, for every other user the record is as before, and so is everything
  recorded for other peers. (So a snapshot newer than every update makes the record equal to it, and
  a late one never undoes a newer update.)
\<close>

theorem session_snapshot_spec:
  "uid \<in> set (users_of (app_id app) node'
     (d_peer_user_sessions (apply_remote_user_session_snapshot E now app node user_ids seq d))) \<longleftrightarrow>
   (if node' = node \<and> pending app node seq d uid then uid \<in> set user_ids
    else uid \<in> set (users_of (app_id app) node' (d_peer_user_sessions d)))"
proof -
  let ?aid = "app_id app" and ?us = "d_peer_user_sessions d"
  let ?d1 = "d\<lparr>d_peer_user_sessions := pus_touch now ?aid node ?us\<rparr>"
  let ?new = "hs_difference (fold hs_insert user_ids []) (users_of ?aid node ?us)"
  let ?gone = "hs_difference (users_of ?aid node ?us) (fold hs_insert user_ids [])"
  have touch: "users_of ?aid n (pus_touch now ?aid node ?us) = users_of ?aid n ?us" for n
    by (simp add: users_of_def pus_touch_def Let_def split: option.split)
  have pend: "pending app node seq ?d1 uid = pending app node seq d uid"
    unfolding pending_def seq_of_def by simp
  have sets: "set ?new = set user_ids - set (users_of ?aid node ?us)" "set ?gone = set (users_of ?aid node ?us) - set user_ids"
    by (auto simp: hs_difference_def hs_fold)
  note on = online_loop [OF refl, of uid app node' now node seq E ?new ?d1]
    online_loop [OF refl, of uid app node now node seq E ?new ?d1]
  note off = offline_loop [OF refl, of uid app node' now node seq E ?gone]
  show ?thesis
    unfolding apply_remote_user_session_snapshot_def Let_def
    using on off sets pend by (auto simp: touch)
qed

section \<open>Encrypted channels\<close>

lemma validate_maybe_encrypt:
  "maybe_encrypt E nonce app (from_name channel) channel data = Inl err \<Longrightarrow>
     validate_publish E app channel data = Inl err \<or>
     (validate_publish E app channel data = Inr () \<and> (\<exists>text. err = EncryptionFailed text))"
  by (auto simp: maybe_encrypt_def validate_publish_def Let_def split: if_splits option.splits sum.splits)

text \<open>
  C19: Publishing to an encrypted channel sends a sealed box. A dispatch is refused only for the
  reason that validation gives (or because sealing failed) and then changes nothing. Otherwise there
  is one text that is delivered locally and published: on an encrypted channel, for data that does
  not itself look like an envelope, the envelope of the nonce and of the box that seals the data
  under the channel's key, in which the data occurs nowhere else, and it opens to the data under
  that key; on other channels, and for data that already has the fields of an envelope (which the
  publisher is taken to have sealed), the data as given. Client events are relayed as the clients
  sent them and are not part of this.
\<close>

theorem dispatch_seals_encrypted:
  assumes b64: "\<And>s. x_b64_decode E (x_b64_encode E s) = Some s"
    and print: "\<And>n c. x_envelope E (x_to_string E (JObject [(''nonce'', JString n), (''ciphertext'', JString c)])) = Some (n, c)"
    and cipher: "\<And>k n p c. x_seal E k n p = Some c \<Longrightarrow> x_open E k n c = Some p"
    and nonce: "length nonce = 24"
  shows "case dispatch_message E now nonce app channel event data except d of
           (Inl err, d') \<Rightarrow> d' = d \<and>
             (validate_publish E app channel data = Inl err \<or> (\<exists>text. err = EncryptionFailed text))
         | (Inr _, d') \<Rightarrow> \<exists>sent.
             d' = publish_payload E now app 0 (Message (d_node_id d) channel event sent except)
                    (broadcast_locally_with_app now (app_id app) (Some app) channel event sent except d) \<and>
             (if \<not> is_encrypted (from_name channel) \<or> looks_encrypted E data then sent = data
              else \<exists>b64key master box. encryption_master_key app = Some b64key \<and>
                     decode_master_key E b64key = Inr master \<and>
                     x_seal E (derive_shared_secret E channel master) nonce data = Some box \<and>
                     sent = x_to_string E (JObject [(''nonce'', JString (x_b64_encode E nonce)),
                                                    (''ciphertext'', JString (x_b64_encode E box))]) \<and>
                     decrypt_payload E sent (derive_shared_secret E channel master) = Inr data)"
proof (cases "maybe_encrypt E nonce app (from_name channel) channel data")
  case (Inl err)
  with validate_maybe_encrypt [OF Inl] show ?thesis by (auto simp: dispatch_message_def)
next
  case (Inr sent)
  have node: "d_node_id (broadcast_locally_with_app now (app_id app) (Some app) channel event sent except d) =
      d_node_id d"
    by (auto simp: broadcast_locally_with_app_def Let_def case_prod_beta split: option.split)
  have sealed: "\<exists>b64key master box. encryption_master_key app = Some b64key \<and>
      decode_master_key E b64key = Inr master \<and>
      x_seal E (derive_shared_secret E channel master) nonce data = Some box \<and>
      sent = x_to_string E (JObject [(''nonce'', JString (x_b64_encode E nonce)),
                                     (''ciphertext'', JString (x_b64_encode E box))]) \<and>
      decrypt_payload E sent (derive_shared_secret E channel master) = Inr data"
    if enc: "is_encrypted (from_name channel)" "\<not> looks_encrypted E data"
  proof -
    from Inr enc obtain b64key master where k: "encryption_master_key app = Some b64key"
      "decode_master_key E b64key = Inr master"
      "encrypt_payload E nonce data (derive_shared_secret E channel master) = Inr sent"
      by (auto simp: maybe_encrypt_def split: option.splits sum.splits)
    from decrypt_encrypt [OF b64 print cipher nonce k(2,3)] k show ?thesis
      by (auto simp: encrypt_payload_def split: option.splits)
  qed
  from Inr have "if \<not> is_encrypted (from_name channel) \<or> looks_encrypted E data then sent = data else True"
    by (auto simp: maybe_encrypt_def)
  with Inr sealed node show ?thesis by (auto simp: dispatch_message_def Let_def)
qed

section \<open>Examples\<close>

text \<open>A node with one signed-in presence member, and another that sees it.\<close>

definition sample_disp :: "string \<Rightarrow> dispatcher" where
  "sample_disp node = (dispatcher_new node True Block)\<lparr>d_transition_sink := True\<rparr>"

lemma sample_disp_wf: "disp_wf (sample_disp node)"
  using disp_wf_new [of node True Block] by (simp add: sample_disp_def disp_wf_def)

lemma sample_disp_simps [simp]:
  "d_channels (sample_disp node) = manager_new" "d_node_id (sample_disp node) = node"
  "d_presence_cache (sample_disp node) = []" "d_transition_sink (sample_disp node) = True"
  "d_peers_seen (sample_disp node) = []" "d_reported (sample_disp node) = []"
  "d_peer_seqs (sample_disp node) = []" "d_peer_user_sessions (sample_disp node) = []"
  "d_withheld (sample_disp node) = []"
  by (simp_all add: sample_disp_def dispatcher_new_def)

definition sample_apps :: "app_id \<Rightarrow> application option" where
  "sample_apps aid = (if aid = ''1'' then Some sample_app else None)"

definition sample_update :: "64 word \<Rightarrow> scaling_payload \<Rightarrow> scaling_envelope" where
  "sample_update seq payload = app_envelope sample_app seq payload"

lemma sample_update_fields:
  "env_seq (sample_update seq payload) = seq" "env_payload (sample_update seq payload) = payload"
  "env_version (sample_update seq payload) = SCALING_VERSION"
  "sample_apps (ar_id (env_app (sample_update seq payload))) = Some sample_app"
  by (simp_all add: sample_update_def app_envelope_def sample_apps_def sample_app_def)

theorem stale_update_ignored_witness:
  "let d = handle_incoming sample_ext 1 sample_apps
             (sample_update 5 (MemberAdded ''b'' ''presence-a'' ''u'' None)) (sample_disp ''a'')
   in visible (handle_incoming sample_ext 2 sample_apps
        (sample_update 3 (PresenceSnapshot ''b'' ''presence-a'' [])) d) = visible d"
  using stale_update_ignored [OF sample_disp_wf [of "''a''"], where apps = sample_apps and app = sample_app
      and newer = "sample_update 5 (MemberAdded ''b'' ''presence-a'' ''u'' None)"
      and older = "sample_update 3 (PresenceSnapshot ''b'' ''presence-a'' [])"
      and node = "''b''" and key = "''p:presence-a''" and E = sample_ext
      and between = "[]" and t = 1 and now = 2]
  by (simp add: sample_update_fields)

theorem own_echo_ignored_witness:
  "handle_incoming sample_ext 1 sample_apps (sample_update 5 (UserOnline ''a'' ''u'')) (sample_disp ''a'') =
   sample_disp ''a''"
  using own_echo_ignored [of "sample_update 5 (UserOnline ''a'' ''u'')" "sample_disp ''a''" sample_ext 1 sample_apps]
  by (simp add: sample_update_fields)

text \<open>Two nodes that have heard of each other.\<close>

definition sample_pair :: "string \<Rightarrow> string \<Rightarrow> dispatcher" where
  "sample_pair node peer = (sample_disp node)\<lparr>d_peers_seen := [(peer, 0)]\<rparr>"

lemma sample_pair_wf: "node \<noteq> peer \<Longrightarrow> disp_wf (sample_pair node peer)"
  using sample_disp_wf [of node] by (simp add: sample_pair_def disp_wf_def dhas_def dwf_def)

lemma sample_pair_live: "live_peers 0 (sample_pair node peer) = {peer}"
  by (auto simp: live_peers_def sample_pair_def)

theorem fleet_leader_unique_witness:
  "length (filter (is_fleet_leader 0) [sample_pair ''a'' ''b'', sample_pair ''b'' ''a'']) \<le> 1 \<and>
   is_fleet_leader 0 (sample_pair ''a'' ''b'') \<and> \<not> is_fleet_leader 0 (sample_pair ''b'' ''a'')"
proof -
  let ?ds = "[sample_pair ''a'' ''b'', sample_pair ''b'' ''a'']"
  have ids: "d_node_id (sample_pair node peer) = node" for node peer by (simp add: sample_pair_def)
  have wf: "disp_wf d" if "d \<in> set ?ds" for d using that by (auto simp: sample_pair_wf)
  have see: "d_node_id b \<in> live_peers 0 a" if "a \<in> set ?ds" "b \<in> set ?ds" "a \<noteq> b" for a b
    using that by (auto simp: sample_pair_live ids)
  have "distinct (map d_node_id ?ds)" by (simp add: ids)
  note unique = fleet_leader_unique [where clock = "\<lambda>_. 0", OF wf this see]
  have "\<forall>d\<in>set ?ds. live_peers 0 d \<subseteq> d_node_id ` set ?ds - {d_node_id d}"
    by (simp add: sample_pair_live ids)
  with unique have lead: "\<forall>d\<in>set ?ds. is_fleet_leader 0 d \<longleftrightarrow> (\<forall>e\<in>set ?ds. d_node_id d \<le> d_node_id e)"
    and one: "length (filter (is_fleet_leader 0) ?ds) \<le> 1" by blast+
  have "(''a'' :: string) \<le> ''b''" "\<not> (''b'' :: string) \<le> ''a''" by code_simp+
  with lead one show ?thesis by (simp add: ids)
qed

theorem remote_presence_frames_witness:
  "fleet_present 1 sample_app ''presence-a'' ''u'' None
     (apply_remote_member_added sample_ext 1 sample_app ''b'' ''presence-a'' ''u'' None (sample_disp ''a''))"
  using remote_presence_frames [OF sample_disp_wf, of sample_ext 1 sample_app "''b''" "''presence-a''" "''u''" None "''a''"]
  by (simp add: Let_def)

theorem withheld_reported_once_witness:
  "let gone = (sample_app, MemberGone ''presence-a'' ''u'');
       a = note_withheld 0 sample_app ''presence-a'' (Some ''u'') (sample_disp ''a'');
       b = note_withheld 0 sample_app ''presence-a'' (Some ''u'') (sample_disp ''b'');
       a' = apply_remote_member_removed sample_ext 1 sample_app ''b'' ''presence-a'' ''u'' True False a;
       b' = apply_remote_member_removed sample_ext 1 sample_app ''a'' ''presence-a'' ''u'' True False b
   in count_list (d_reported a') gone + count_list (d_reported b') gone = 1"
proof -
  let ?w = "\<lambda>n. note_withheld 0 sample_app ''presence-a'' (Some ''u'') (sample_disp n)"
  have wf: "disp_wf (?w n)" for n by (rule dstep_wf [OF dstep_note_withheld sample_disp_wf])
  have f: "d_node_id (?w n) = n" "d_transition_sink (?w n)" "d_reported (?w n) = []"
    "dget (d_withheld (?w n)) (app_id sample_app, ''presence-a'', Some ''u'') = Some 0"
    "\<not> fleet_present 1 sample_app ''presence-a'' ''u'' ex (?w n)" for n ex
    by (simp_all add: note_withheld_def fleet_present_def locally_present_def find_channel_def
        manager_new_def pc_is_present_excluding_def peers_at_def)
  have "1 - 0 < WITHHELD_WINDOW" by (simp add: WITHHELD_WINDOW_def from_secs_def)
  from withheld_reported_once [where a = "?w ''a''" and b = "?w ''b''" and now = 1 and app = sample_app
      and channel = "''presence-a''" and uid = "''u''" and t = 0 and t' = 0 and E = sample_ext
      and vw = False and vw' = False, OF wf wf]
    this f show ?thesis by (simp add: Let_def)
qed

theorem dispatch_seals_encrypted_witness:
  "let app = sample_app\<lparr>encryption_master_key := Some sample_key\<rparr>; ch = ''private-encrypted-a'';
       d = sample_disp ''a'' in
   \<exists>sent. decrypt_payload sample_ext sent (derive_shared_secret sample_ext ch sample_key) = Inr ''hi'' \<and>
     dispatch_message sample_ext 0 (replicate 24 (CHR ''n'')) app ch ''e'' ''hi'' None d =
       (Inr (), publish_payload sample_ext 0 app 0 (Message ''a'' ch ''e'' sent None)
          (broadcast_locally_with_app 0 (app_id app) (Some app) ch ''e'' sent None d))"
proof -
  let ?app = "sample_app\<lparr>encryption_master_key := Some sample_key\<rparr>" and ?ch = "''private-encrypted-a''"
  let ?n = "replicate 24 (CHR ''n'')" and ?d = "sample_disp ''a''"
  have enc: "is_encrypted (from_name ?ch)" by (simp add: from_name_def starts_with_def)
  have plain: "\<not> looks_encrypted sample_ext ''hi''"
    by (simp add: looks_encrypted_def sample_ext_def sample_from_str_def read_flat_object_def)
  have "\<exists>out. maybe_encrypt sample_ext ?n ?app (from_name ?ch) ?ch ''hi'' = Inr out"
    using enc plain sample_encrypted by (auto simp: maybe_encrypt_def sample_key_decodes)
  then obtain d' where ok: "dispatch_message sample_ext 0 ?n ?app ?ch ''e'' ''hi'' None ?d = (Inr (), d')"
    by (auto simp: dispatch_message_def Let_def)
  have len: "length ?n = 24" by (rule length_replicate)
  from dispatch_seals_encrypted [OF sample_b64 sample_envelope_print sample_open_seal len,
      where now = 0 and app = ?app and channel = ?ch and event = "''e''" and data = "''hi''"
      and except = None and d = ?d] enc plain
  show ?thesis by (simp add: ok Let_def sample_key_decodes) blast
qed

end
