(* ===== verification/Webhooks.thy ===== *)
theory Webhooks
  imports Sample_Ext
begin

text \<open>
  The webhook dispatcher (\<open>zatat-webhooks/src/lib.rs\<close>): the events, the filters of a target, the
  bounded queue with its staging buffer, the loop that takes events off the queue and starts one
  delivery per matching target, and the retries of a delivery. Deliveries are tasks that share the
  delivery slots (a semaphore) and the count of waiting retries; a step of any task is one operation
  of the machine \<open>wh_do\<close>. The HTTP request itself is outside: an operation says how it ended.
\<close>

section \<open>Events and targets\<close>

record compiled_target =
  ct_app_id :: string
  ct_app_key :: string
  ct_app_secret :: string
  ct_url :: string
  ct_event_filter :: "string list"
  ct_channel_prefix :: "string option"

datatype webhook_event =
    WhChannelOccupied string
  | WhChannelVacated string
  | WhMemberAdded string string
  | WhMemberRemoved string string
  | WhClientEvent string string string "string option" "string option"
  | WhCacheMiss string
  | WhSubscriptionCount string nat

fun wh_name :: "webhook_event \<Rightarrow> string" where
  "wh_name (WhChannelOccupied _) = ''channel_occupied''"
| "wh_name (WhChannelVacated _) = ''channel_vacated''"
| "wh_name (WhMemberAdded _ _) = ''member_added''"
| "wh_name (WhMemberRemoved _ _) = ''member_removed''"
| "wh_name (WhClientEvent _ _ _ _ _) = ''client_event''"
| "wh_name (WhCacheMiss _) = ''cache_miss''"
| "wh_name (WhSubscriptionCount _ _) = ''subscription_count''"

fun wh_channel :: "webhook_event \<Rightarrow> string" where
  "wh_channel (WhChannelOccupied channel) = channel"
| "wh_channel (WhChannelVacated channel) = channel"
| "wh_channel (WhMemberAdded channel _) = channel"
| "wh_channel (WhMemberRemoved channel _) = channel"
| "wh_channel (WhClientEvent channel _ _ _ _) = channel"
| "wh_channel (WhCacheMiss channel) = channel"
| "wh_channel (WhSubscriptionCount channel _) = channel"

text \<open>The size of the enum itself is chosen by the compiler, so it is an argument.\<close>

definition approx_size :: "nat \<Rightarrow> webhook_event \<Rightarrow> nat" where
  "approx_size enum_size ev =
     (let payload = (case ev of
            WhMemberAdded _ uid \<Rightarrow> length uid
          | WhMemberRemoved _ uid \<Rightarrow> length uid
          | WhClientEvent _ event data sid uid \<Rightarrow>
              length event + length data + (case sid of Some s \<Rightarrow> length s | None \<Rightarrow> 0) +
              (case uid of Some u \<Rightarrow> length u | None \<Rightarrow> 0)
          | _ \<Rightarrow> 0)
      in enum_size + length (wh_channel ev) + payload)"

definition to_event_json :: "webhook_event \<Rightarrow> json" where
  "to_event_json ev =
     (let head = [(''name'', JString (wh_name ev)), (''channel'', JString (wh_channel ev))] in
      JObject (head @ (case ev of
          WhMemberAdded _ uid \<Rightarrow> [(''user_id'', JString uid)]
        | WhMemberRemoved _ uid \<Rightarrow> [(''user_id'', JString uid)]
        | WhClientEvent _ event data sid uid \<Rightarrow>
            [(''event'', JString event), (''data'', JString data)] @
            (case sid of Some s \<Rightarrow> [(''socket_id'', JString s)] | None \<Rightarrow> []) @
            (case uid of Some u \<Rightarrow> [(''user_id'', JString u)] | None \<Rightarrow> [])
        | WhSubscriptionCount _ n \<Rightarrow> [(''subscription_count'', JNumber (show_nat n))]
        | _ \<Rightarrow> [])))"

definition matches_filters :: "compiled_target \<Rightarrow> webhook_event \<Rightarrow> bool" where
  "matches_filters t ev =
     (if ct_event_filter t \<noteq> [] \<and> \<not> list_ex (\<lambda>n. n = wh_name ev) (ct_event_filter t) then False
      else case ct_channel_prefix t of
             Some p \<Rightarrow> starts_with (wh_channel ev) p
           | None \<Rightarrow> True)"

definition sign_body :: "ext \<Rightarrow> string \<Rightarrow> string \<Rightarrow> string" where
  "sign_body E secret body = x_hex E (x_hmac E secret body)"

text \<open>What \<open>deliver\<close> posts: the URL, the headers and the body.\<close>

definition webhook_request ::
  "ext \<Rightarrow> nat \<Rightarrow> compiled_target \<Rightarrow> webhook_event \<Rightarrow> string \<times> (string \<times> string) list \<times> string" where
  "webhook_request E time_ms t ev =
     (let body = x_to_string E (JObject
            [(''time_ms'', JNumber (show_nat time_ms)), (''events'', JArray [to_event_json ev])])
      in (ct_url t,
          [(''Content-Type'', ''application/json''), (''X-Pusher-Key'', ct_app_key t),
           (''X-Pusher-Signature'', sign_body E (ct_app_secret t) body)],
          body))"

section \<open>State\<close>

definition WEBHOOK_QUEUE_CAPACITY :: nat where
  "WEBHOOK_QUEUE_CAPACITY = 65536"

definition DROP_WARN_INTERVAL :: duration where
  "DROP_WARN_INTERVAL = from_secs 5"

definition MAX_IN_FLIGHT_DELIVERIES :: nat where
  "MAX_IN_FLIGHT_DELIVERIES = 256"

definition RETRY_WINDOW :: duration where
  "RETRY_WINDOW = from_secs 300"

definition INITIAL_RETRY_BACKOFF :: duration where
  "INITIAL_RETRY_BACKOFF = from_secs 1"

definition MAX_RETRY_BACKOFF :: duration where
  "MAX_RETRY_BACKOFF = from_secs 60"

definition MAX_PENDING_RETRIES :: nat where
  "MAX_PENDING_RETRIES = 10000"

definition WEBHOOK_STAGING_MAX_BYTES :: nat where
  "WEBHOOK_STAGING_MAX_BYTES = 64 * 1024 * 1024"

datatype webhook_overflow = WhBestEffort | WhBlock

type_synonym queued_event = "string \<times> webhook_event"

record webhook_staging =
  ws_items :: "queued_event list"
  ws_in_hand :: "queued_event option"
  ws_bytes :: nat
  ws_limit :: nat

text \<open>
  A delivery task: a request is running and holds a delivery slot, or the task sleeps until an
  instant, or it has woken and waits for a slot.
\<close>

datatype delivery_phase = Requesting | Sleeping instant | AwaitingSlot

record delivery =
  dl_target :: compiled_target
  dl_event :: webhook_event
  dl_started :: instant
  dl_backoff :: duration
  dl_phase :: delivery_phase
  dl_counted_as_pending :: bool
  dl_attempts :: nat

record webhook_dispatcher =
  wd_queue :: "queued_event list"
  wd_overflow :: webhook_overflow
  wd_block :: "webhook_staging option"
  wd_drops_total :: "64 word"
  wd_last_drop_warn :: "instant option"
  wd_in_flight :: nat
  wd_permits :: nat
  wd_pending_retries :: nat
  wd_dequeued :: nat
  wd_current :: "(webhook_event \<times> compiled_target list) option"
  wd_deliveries :: "(nat, delivery) dmap"

definition spawn_with_overflow :: "webhook_overflow \<Rightarrow> webhook_dispatcher" where
  "spawn_with_overflow overflow =
     \<lparr>wd_queue = [], wd_overflow = overflow,
      wd_block = (if overflow = WhBlock
                  then Some \<lparr>ws_items = [], ws_in_hand = None, ws_bytes = 0,
                             ws_limit = WEBHOOK_STAGING_MAX_BYTES\<rparr>
                  else None),
      wd_drops_total = 0, wd_last_drop_warn = None, wd_in_flight = 0,
      wd_permits = MAX_IN_FLIGHT_DELIVERIES, wd_pending_retries = 0, wd_dequeued = 0,
      wd_current = None, wd_deliveries = []\<rparr>"

section \<open>Queueing\<close>

definition record_drop :: "instant \<Rightarrow> webhook_dispatcher \<Rightarrow> webhook_dispatcher" where
  "record_drop now w =
     (let should_warn = (case wd_last_drop_warn w of
            None \<Rightarrow> True | Some t \<Rightarrow> now - t \<ge> DROP_WARN_INTERVAL);
          w1 = w\<lparr>wd_drops_total := wd_drops_total w + 1\<rparr>
      in if should_warn then w1\<lparr>wd_last_drop_warn := Some now\<rparr> else w1)"

text \<open>The receivers of both channels live as long as the dispatcher, so sending fails only when full.\<close>

definition enqueue :: "nat \<Rightarrow> instant \<Rightarrow> string \<Rightarrow> webhook_event \<Rightarrow> webhook_dispatcher \<Rightarrow> webhook_dispatcher" where
  "enqueue enum_size now aid ev w =
     (case wd_overflow w of
        WhBestEffort \<Rightarrow>
          if length (wd_queue w) < WEBHOOK_QUEUE_CAPACITY
          then w\<lparr>wd_queue := wd_queue w @ [(aid, ev)]\<rparr>
          else record_drop now w
      | WhBlock \<Rightarrow>
          (case wd_block w of
             None \<Rightarrow> w
           | Some s \<Rightarrow>
               (let size = approx_size enum_size ev in
                if ws_bytes s + size \<le> ws_limit s
                then w\<lparr>wd_block := Some (s\<lparr>ws_bytes := ws_bytes s + size,
                                              ws_items := ws_items s @ [(aid, ev)]\<rparr>)\<rparr>
                else record_drop now w)))"

definition wh_forward_recv :: "webhook_dispatcher \<Rightarrow> webhook_dispatcher" where
  "wh_forward_recv w =
     (case wd_block w of
        Some s \<Rightarrow>
          (case (ws_in_hand s, ws_items s) of
             (None, item # rest) \<Rightarrow> w\<lparr>wd_block := Some (s\<lparr>ws_items := rest, ws_in_hand := Some item\<rparr>)\<rparr>
           | _ \<Rightarrow> w)
      | None \<Rightarrow> w)"

definition wh_forward_send :: "nat \<Rightarrow> webhook_dispatcher \<Rightarrow> webhook_dispatcher" where
  "wh_forward_send enum_size w =
     (case wd_block w of
        Some s \<Rightarrow>
          (case ws_in_hand s of
             Some item \<Rightarrow>
               if length (wd_queue w) < WEBHOOK_QUEUE_CAPACITY
               then w\<lparr>wd_queue := wd_queue w @ [item],
                      wd_block := Some (s\<lparr>ws_in_hand := None,
                        ws_bytes := ws_bytes s - approx_size enum_size (snd item)\<rparr>)\<rparr>
               else w
           | None \<Rightarrow> w)
      | None \<Rightarrow> w)"

definition wh_pending :: "webhook_dispatcher \<Rightarrow> nat" where
  "wh_pending w =
     (let staged = (case wd_block w of None \<Rightarrow> 0 | Some s \<Rightarrow> if ws_bytes s > 0 then 1 else 0)
      in length (wd_queue w) + staged + wd_dequeued w + wd_in_flight w)"

section \<open>Deliveries\<close>

text \<open>
  The drain loop: it takes an event, looks its targets up, and starts a delivery for each target
  whose filters match, waiting for a slot each time. A new delivery takes an unused task number.
\<close>

definition drain_recv ::
  "(string \<Rightarrow> compiled_target list) \<Rightarrow> webhook_dispatcher \<Rightarrow> webhook_dispatcher" where
  "drain_recv lookup w =
     (case (wd_current w, wd_queue w) of
        (None, (aid, ev) # rest) \<Rightarrow>
          w\<lparr>wd_queue := rest, wd_dequeued := 1, wd_current := Some (ev, lookup aid)\<rparr>
      | _ \<Rightarrow> w)"

definition fresh_task :: "(nat, delivery) dmap \<Rightarrow> nat" where
  "fresh_task m = Suc (fold max (dkeys m) 0)"

definition start_delivery ::
  "instant \<Rightarrow> compiled_target \<Rightarrow> webhook_event \<Rightarrow> webhook_dispatcher \<Rightarrow> webhook_dispatcher" where
  "start_delivery now t ev w =
     w\<lparr>wd_permits := wd_permits w - 1, wd_in_flight := wd_in_flight w + 1,
       wd_deliveries := dput (fresh_task (wd_deliveries w))
         \<lparr>dl_target = t, dl_event = ev, dl_started = now, dl_backoff = INITIAL_RETRY_BACKOFF,
          dl_phase = Requesting, dl_counted_as_pending = False, dl_attempts = 1\<rparr>
         (wd_deliveries w)\<rparr>"

definition drain_target :: "instant \<Rightarrow> webhook_dispatcher \<Rightarrow> webhook_dispatcher" where
  "drain_target now w =
     (case wd_current w of
        None \<Rightarrow> w
      | Some (ev, []) \<Rightarrow> w\<lparr>wd_current := None, wd_dequeued := 0\<rparr>
      | Some (ev, t # ts) \<Rightarrow>
          if \<not> matches_filters t ev then w\<lparr>wd_current := Some (ev, ts)\<rparr>
          else if wd_permits w = 0 then w
          else start_delivery now t ev (w\<lparr>wd_current := Some (ev, ts)\<rparr>))"

text \<open>The end of \<open>deliver\<close> and of the task around it.\<close>

definition finish_delivery :: "nat \<Rightarrow> delivery \<Rightarrow> webhook_dispatcher \<Rightarrow> webhook_dispatcher" where
  "finish_delivery i d w =
     w\<lparr>wd_pending_retries := (if dl_counted_as_pending d then wd_pending_retries w - 1
                              else wd_pending_retries w),
       wd_in_flight := wd_in_flight w - 1,
       wd_deliveries := ddel i (wd_deliveries w)\<rparr>"

text \<open>A request ends: its slot is given back, and the task ends or goes to sleep.\<close>

definition delivery_response :: "instant \<Rightarrow> nat \<Rightarrow> bool \<Rightarrow> webhook_dispatcher \<Rightarrow> webhook_dispatcher" where
  "delivery_response now i ok w =
     (case dget (wd_deliveries w) i of
        None \<Rightarrow> w
      | Some d \<Rightarrow>
          if dl_phase d \<noteq> Requesting then w
          else
            (let w1 = w\<lparr>wd_permits := wd_permits w + 1\<rparr> in
             if ok then finish_delivery i d w1
             else if (now - dl_started d) + dl_backoff d > RETRY_WINDOW then finish_delivery i d w1
             else if \<not> dl_counted_as_pending d \<and> wd_pending_retries w1 \<ge> MAX_PENDING_RETRIES
             then finish_delivery i d w1
             else w1\<lparr>wd_pending_retries := (if dl_counted_as_pending d then wd_pending_retries w1
                                            else wd_pending_retries w1 + 1),
                     wd_deliveries := dput i (d\<lparr>dl_counted_as_pending := True,
                       dl_phase := Sleeping (now + dl_backoff d)\<rparr>) (wd_deliveries w1)\<rparr>))"

definition delivery_wake :: "instant \<Rightarrow> nat \<Rightarrow> webhook_dispatcher \<Rightarrow> webhook_dispatcher" where
  "delivery_wake now i w =
     (case dget (wd_deliveries w) i of
        Some d \<Rightarrow>
          (case dl_phase d of
             Sleeping t \<Rightarrow>
               if t \<le> now
               then w\<lparr>wd_deliveries := dput i (d\<lparr>dl_phase := AwaitingSlot,
                      dl_backoff := min (dl_backoff d * 2) MAX_RETRY_BACKOFF\<rparr>) (wd_deliveries w)\<rparr>
               else w
           | _ \<Rightarrow> w)
      | None \<Rightarrow> w)"

definition delivery_retry :: "nat \<Rightarrow> webhook_dispatcher \<Rightarrow> webhook_dispatcher" where
  "delivery_retry i w =
     (case dget (wd_deliveries w) i of
        Some d \<Rightarrow>
          if dl_phase d = AwaitingSlot \<and> wd_permits w \<noteq> 0
          then w\<lparr>wd_permits := wd_permits w - 1,
                 wd_deliveries := dput i (d\<lparr>dl_phase := Requesting,
                   dl_attempts := dl_attempts d + 1\<rparr>) (wd_deliveries w)\<rparr>
          else w
      | None \<Rightarrow> w)"

section \<open>Interleavings\<close>

datatype wh_op =
    WhEnqueue string webhook_event
  | WhForwardRecv
  | WhForwardSend
  | WhDrainRecv
  | WhDrainTarget
  | WhResponse nat bool
  | WhWake nat
  | WhRetry nat
  | WhAdvance duration

text \<open>The first component of the state is the monotonic clock.\<close>

fun wh_do ::
  "nat \<Rightarrow> (string \<Rightarrow> compiled_target list) \<Rightarrow> wh_op \<Rightarrow> instant \<times> webhook_dispatcher \<Rightarrow>
   instant \<times> webhook_dispatcher" where
  "wh_do sz lookup (WhEnqueue aid ev) (now, w) = (now, enqueue sz now aid ev w)"
| "wh_do sz lookup WhForwardRecv (now, w) = (now, wh_forward_recv w)"
| "wh_do sz lookup WhForwardSend (now, w) = (now, wh_forward_send sz w)"
| "wh_do sz lookup WhDrainRecv (now, w) = (now, drain_recv lookup w)"
| "wh_do sz lookup WhDrainTarget (now, w) = (now, drain_target now w)"
| "wh_do sz lookup (WhResponse i ok) (now, w) = (now, delivery_response now i ok w)"
| "wh_do sz lookup (WhWake i) (now, w) = (now, delivery_wake now i w)"
| "wh_do sz lookup (WhRetry i) (now, w) = (now, delivery_retry i w)"
| "wh_do sz lookup (WhAdvance d) (now, w) = (now + d, w)"

section \<open>Backoff\<close>

text \<open>The pause after the \<open>k\<close>-th failure, and the time slept before attempt \<open>k + 1\<close>.\<close>

fun backoff_at :: "nat \<Rightarrow> duration" where
  "backoff_at 0 = INITIAL_RETRY_BACKOFF"
| "backoff_at (Suc k) = min (backoff_at k * 2) MAX_RETRY_BACKOFF"

fun slept :: "nat \<Rightarrow> duration" where
  "slept 0 = 0"
| "slept (Suc k) = slept k + backoff_at k"

lemma slept_mono: "j \<le> k \<Longrightarrow> slept j \<le> slept k"
  by (induction k) (auto simp: le_Suc_eq)

lemma slept_10: "slept 10 = from_secs 303"
proof -
  have ten: "10 = Suc (Suc (Suc (Suc (Suc (Suc (Suc (Suc (Suc (Suc 0)))))))))" by simp
  show ?thesis
    unfolding ten by (simp add: INITIAL_RETRY_BACKOFF_def MAX_RETRY_BACKOFF_def from_secs_def)
qed

lemma slept_window: "slept k \<le> RETRY_WINDOW \<Longrightarrow> k \<le> 9"
proof (rule ccontr)
  assume "slept k \<le> RETRY_WINDOW" "\<not> k \<le> 9"
  moreover have "slept 10 \<le> slept k" if "10 \<le> k" using that by (rule slept_mono)
  ultimately show False by (simp add: slept_10 RETRY_WINDOW_def from_secs_def)
qed

section \<open>The invariant\<close>

definition dcount :: "('v \<Rightarrow> bool) \<Rightarrow> ('k, 'v) dmap \<Rightarrow> nat" where
  "dcount P m = length (filter (\<lambda>(_, v). P v) m)"

lemma dcount_ddel:
  "dwf m \<Longrightarrow> dget m k = Some u \<Longrightarrow> dcount P m = dcount P (ddel k m) + (if P u then 1 else 0)"
proof (induction m)
  case (Cons p m)
  obtain k' v where p: "p = (k', v)" by (cases p)
  show ?case
  proof (cases "k' = k")
    case True
    with Cons.prems have "k \<notin> fst ` set m" "v = u" by (auto simp: p dwf_def)
    with True show ?thesis by (simp add: p dcount_def)
  next
    case False
    with Cons show ?thesis by (auto simp: p dcount_def dwf_def)
  qed
qed simp

lemma dcount_new: "dget m k = None \<Longrightarrow> dcount P (dput k v m) = dcount P m + (if P v then 1 else 0)"
  by (simp add: dcount_def dput_new)

lemma dcount_dput:
  assumes "dwf m" "dget m k = Some u"
  shows "dcount P (dput k v m) + (if P u then 1 else 0) = dcount P m + (if P v then 1 else 0)"
proof -
  have "dcount P (dput k v m) = dcount P (ddel k (dput k v m)) + (if P v then 1 else 0)"
    using assms(1) by (intro dcount_ddel) (auto intro: dwf_dput)
  moreover have "ddel k (dput k v m) = ddel k m" by (rule ddel_dput)
  ultimately show ?thesis using dcount_ddel [OF assms, of P] by simp
qed

lemma dcount_le: "dcount P m \<le> length m"
  by (simp add: dcount_def)

lemma dcount_True: "dcount (\<lambda>_. True) m = length m"
  by (simp add: dcount_def)

definition is_requesting :: "delivery \<Rightarrow> bool" where
  "is_requesting d \<longleftrightarrow> dl_phase d = Requesting"

definition dl_wf :: "instant \<Rightarrow> delivery \<Rightarrow> bool" where
  "dl_wf now d \<longleftrightarrow>
     matches_filters (dl_target d) (dl_event d) \<and>
     (case dl_phase d of
        Requesting \<Rightarrow> \<exists>k. dl_attempts d = Suc k \<and> dl_backoff d = backoff_at k \<and>
          dl_started d + slept k \<le> now \<and> slept k \<le> RETRY_WINDOW
      | Sleeping t \<Rightarrow> \<exists>k. dl_attempts d = Suc k \<and> dl_backoff d = backoff_at k \<and>
          dl_started d + slept (Suc k) \<le> t \<and> slept (Suc k) \<le> RETRY_WINDOW \<and> t \<le> now + dl_backoff d \<and>
          t \<le> dl_started d + RETRY_WINDOW
      | AwaitingSlot \<Rightarrow> dl_backoff d = backoff_at (dl_attempts d) \<and>
          dl_started d + slept (dl_attempts d) \<le> now \<and> slept (dl_attempts d) \<le> RETRY_WINDOW)"

definition ws_wf :: "nat \<Rightarrow> webhook_staging \<Rightarrow> bool" where
  "ws_wf sz s \<longleftrightarrow>
     ws_bytes s = sum_list (map (\<lambda>(_, ev). approx_size sz ev)
       ((case ws_in_hand s of Some item \<Rightarrow> [item] | None \<Rightarrow> []) @ ws_items s)) \<and>
     ws_bytes s \<le> ws_limit s \<and> ws_limit s = WEBHOOK_STAGING_MAX_BYTES"

text \<open>The part of the invariant about the queues, and the part about the deliveries.\<close>

definition wq_wf :: "nat \<Rightarrow> webhook_dispatcher \<Rightarrow> bool" where
  "wq_wf sz w \<longleftrightarrow>
     length (wd_queue w) \<le> WEBHOOK_QUEUE_CAPACITY \<and>
     (case wd_block w of Some s \<Rightarrow> ws_wf sz s | None \<Rightarrow> True)"

definition wt_wf :: "instant \<Rightarrow> webhook_dispatcher \<Rightarrow> bool" where
  "wt_wf now w \<longleftrightarrow>
     dwf (wd_deliveries w) \<and> wd_in_flight w = length (wd_deliveries w) \<and>
     wd_permits w + dcount is_requesting (wd_deliveries w) = MAX_IN_FLIGHT_DELIVERIES \<and>
     wd_pending_retries w = dcount dl_counted_as_pending (wd_deliveries w) \<and>
     wd_pending_retries w \<le> MAX_PENDING_RETRIES \<and>
     dall (\<lambda>_. dl_wf now) (wd_deliveries w)"

lemma wq_wf_enqueue: "wq_wf sz w \<Longrightarrow> wq_wf sz (enqueue sz now aid ev w)"
  by (auto simp: wq_wf_def ws_wf_def enqueue_def record_drop_def Let_def
      split: webhook_overflow.split option.splits)

lemma wq_wf_forward:
  "wq_wf sz w \<Longrightarrow> wq_wf sz (wh_forward_recv w)"
  "wq_wf sz w \<Longrightarrow> wq_wf sz (wh_forward_send sz w)"
  by (auto simp: wq_wf_def ws_wf_def wh_forward_recv_def wh_forward_send_def
      split: option.splits list.splits)

lemma wq_wf_drain_recv: "wq_wf sz w \<Longrightarrow> wq_wf sz (drain_recv lookup w)"
  by (auto simp: wq_wf_def drain_recv_def split: option.split list.split)

lemma queue_tasks [simp]:
  "wd_queue (drain_target now w) = wd_queue w" "wd_block (drain_target now w) = wd_block w"
  "wd_queue (delivery_response now i ok w) = wd_queue w"
  "wd_block (delivery_response now i ok w) = wd_block w"
  "wd_queue (delivery_wake now i w) = wd_queue w" "wd_block (delivery_wake now i w) = wd_block w"
  "wd_queue (delivery_retry i w) = wd_queue w" "wd_block (delivery_retry i w) = wd_block w"
  by (simp_all add: drain_target_def start_delivery_def delivery_response_def finish_delivery_def
      delivery_wake_def delivery_retry_def Let_def split: option.split list.split prod.split delivery_phase.split)

lemma wq_wf_tasks:
  "wq_wf sz w \<Longrightarrow> wq_wf sz (drain_target now w)"
  "wq_wf sz w \<Longrightarrow> wq_wf sz (delivery_response now i ok w)"
  "wq_wf sz w \<Longrightarrow> wq_wf sz (delivery_wake now i w)"
  "wq_wf sz w \<Longrightarrow> wq_wf sz (delivery_retry i w)"
  by (simp_all add: wq_wf_def)

lemma dl_wf_mono: "dl_wf now d \<Longrightarrow> now \<le> now' \<Longrightarrow> dl_wf now' d"
  by (fastforce simp: dl_wf_def split: delivery_phase.splits)

lemma wt_wf_mono: "wt_wf now w \<Longrightarrow> now \<le> now' \<Longrightarrow> wt_wf now' w"
  unfolding wt_wf_def dall_def list_all_iff by (auto intro: dl_wf_mono)

lemma fresh_task_new: "dget m (fresh_task m) = None"
proof -
  have "k \<le> fold max ks (n :: nat)" if "k \<in> set ks \<or> k \<le> n" for k ks n
    using that by (induction ks arbitrary: n) (auto simp: le_max_iff_disj)
  then have "k \<le> fold max (dkeys m) 0" if "k \<in> fst ` set m" for k using that by simp
  then show ?thesis unfolding fresh_task_def map_of_eq_None_iff by (metis Suc_n_not_le_n)
qed

lemma wt_wf_start:
  assumes wf: "wt_wf now w" and "matches_filters t ev" "wd_permits w \<noteq> 0"
  shows "wt_wf now (start_delivery now t ev w)"
proof -
  let ?d = "\<lparr>dl_target = t, dl_event = ev, dl_started = now, dl_backoff = INITIAL_RETRY_BACKOFF,
    dl_phase = Requesting, dl_counted_as_pending = False, dl_attempts = 1\<rparr>"
  let ?k = "fresh_task (wd_deliveries w)"
  have "dl_wf now ?d" using assms(2) by (simp add: dl_wf_def RETRY_WINDOW_def)
  then have "dall (\<lambda>_. dl_wf now) (dput ?k ?d (wd_deliveries w))"
    using wf by (intro dall_dput) (simp_all add: wt_wf_def)
  moreover have "length (dput ?k ?d (wd_deliveries w)) = Suc (length (wd_deliveries w))"
    using dcount_new [OF fresh_task_new, of "\<lambda>_. True" "wd_deliveries w" ?d] by (simp add: dcount_True)
  ultimately show ?thesis
    using wf assms(3) dcount_new [OF fresh_task_new, of _ "wd_deliveries w" ?d]
    by (simp add: wt_wf_def start_delivery_def zwf is_requesting_def)
qed

lemma wt_wf_drain_target: "wt_wf now w \<Longrightarrow> wt_wf now (drain_target now w)"
proof -
  assume wf: "wt_wf now w"
  have same: "wt_wf now (w\<lparr>wd_current := c, wd_dequeued := n\<rparr>)" "wt_wf now (w\<lparr>wd_current := c\<rparr>)" for c n
    using wf by (simp_all add: wt_wf_def)
  show ?thesis
    using wf same wt_wf_start [OF same(2)]
    by (auto simp: drain_target_def split: option.split list.split)
qed

text \<open>Ending a task whose slot has been given back.\<close>

lemma wt_wf_finish:
  assumes wf: "wt_wf now w" and d: "dget (wd_deliveries w) i = Some d" "dl_phase d = Requesting"
  shows "wt_wf now (finish_delivery i d (w\<lparr>wd_permits := wd_permits w + 1\<rparr>))"
proof -
  have m: "dwf (wd_deliveries w)" using wf by (simp add: wt_wf_def)
  note del = dcount_ddel [OF m d(1)]
  have "length (wd_deliveries w) = Suc (length (ddel i (wd_deliveries w)))"
    using del [of "\<lambda>_. True"] by (simp add: dcount_True)
  moreover have "dcount is_requesting (wd_deliveries w) = Suc (dcount is_requesting (ddel i (wd_deliveries w)))"
    using del [of is_requesting] d(2) by (simp add: is_requesting_def)
  moreover have "dcount dl_counted_as_pending (wd_deliveries w) =
      dcount dl_counted_as_pending (ddel i (wd_deliveries w)) + (if dl_counted_as_pending d then 1 else 0)"
    by (rule del)
  moreover have "dall (\<lambda>_. dl_wf now) (ddel i (wd_deliveries w))"
    using wf by (auto simp: wt_wf_def zwf)
  ultimately show ?thesis using wf by (auto simp: wt_wf_def finish_delivery_def zwf)
qed

lemma length_dput_old: "dwf m \<Longrightarrow> dget m k = Some u \<Longrightarrow> length (dput k v m) = length m"
  using dcount_dput [of m k u "\<lambda>_. True" v] by (simp add: dcount_True)

lemma wt_wf_response:
  assumes wf: "wt_wf now w"
  shows "wt_wf now (delivery_response now i ok w)"
proof (cases "dget (wd_deliveries w) i")
  case (Some d)
  have m: "dwf (wd_deliveries w)" and dwf: "dl_wf now d"
    using wf Some by (auto simp: wt_wf_def dest: dall_get)
  let ?d = "d\<lparr>dl_counted_as_pending := True, dl_phase := Sleeping (now + dl_backoff d)\<rparr>"
  show ?thesis
  proof (cases "dl_phase d = Requesting \<and> \<not> ok \<and> (now - dl_started d) + dl_backoff d \<le> RETRY_WINDOW \<and>
      (dl_counted_as_pending d \<or> wd_pending_retries w < MAX_PENDING_RETRIES)")
    case False
    with Some wf wt_wf_finish [OF wf Some] show ?thesis
      by (auto simp: delivery_response_def Let_def)
  next
    case True
    then obtain k where k: "dl_attempts d = Suc k" "dl_backoff d = backoff_at k"
      "dl_started d + slept k \<le> now"
      using dwf by (auto simp: dl_wf_def)
    with True dwf have "dl_wf now ?d" by (auto simp: dl_wf_def)
    then have "dall (\<lambda>_. dl_wf now) (dput i ?d (wd_deliveries w))"
      using wf by (intro dall_dput) (simp_all add: wt_wf_def)
    moreover have "dcount is_requesting (wd_deliveries w) = Suc (dcount is_requesting (dput i ?d (wd_deliveries w)))"
      using dcount_dput [OF m Some, of is_requesting ?d] True by (simp add: is_requesting_def)
    moreover have "dcount dl_counted_as_pending (dput i ?d (wd_deliveries w)) =
        dcount dl_counted_as_pending (wd_deliveries w) + (if dl_counted_as_pending d then 0 else 1)"
      using dcount_dput [OF m Some, of dl_counted_as_pending ?d] by (auto split: if_splits)
    ultimately show ?thesis
      using True Some wf length_dput_old [OF m Some, of ?d]
      by (auto simp: delivery_response_def Let_def wt_wf_def zwf)
  qed
qed (use wf in \<open>simp add: delivery_response_def\<close>)

text \<open>Replacing a task that keeps its slot status and its count.\<close>

lemma wt_wf_replace:
  assumes wf: "wt_wf now w" and d: "dget (wd_deliveries w) i = Some d"
    and "dl_wf now d'" "dl_counted_as_pending d' = dl_counted_as_pending d"
    and "wd_permits w + (if is_requesting d then 1 else 0) = p + (if is_requesting d' then 1 else 0)"
  shows "wt_wf now (w\<lparr>wd_permits := p, wd_deliveries := dput i d' (wd_deliveries w)\<rparr>)"
proof -
  have m: "dwf (wd_deliveries w)" using wf by (simp add: wt_wf_def)
  have "dall (\<lambda>_. dl_wf now) (dput i d' (wd_deliveries w))"
    using wf assms(3) by (intro dall_dput) (simp_all add: wt_wf_def)
  with wf assms(4,5) show ?thesis
    using dcount_dput [OF m d, of is_requesting d'] dcount_dput [OF m d, of dl_counted_as_pending d']
      length_dput_old [OF m d, of d']
    by (auto simp: wt_wf_def zwf split: if_splits)
qed

lemma wt_wf_wake:
  assumes wf: "wt_wf now w"
  shows "wt_wf now (delivery_wake now i w)"
proof (cases "dget (wd_deliveries w) i")
  case (Some d)
  have dwf: "dl_wf now d" using wf Some by (auto simp: wt_wf_def dest: dall_get)
  show ?thesis
  proof (cases "dl_phase d")
    case (Sleeping t)
    let ?d = "d\<lparr>dl_phase := AwaitingSlot, dl_backoff := min (dl_backoff d * 2) MAX_RETRY_BACKOFF\<rparr>"
    show ?thesis
    proof (cases "t \<le> now")
      case True
      with dwf Sleeping have "dl_wf now ?d" by (auto simp: dl_wf_def)
      from wt_wf_replace [OF wf Some this, of "wd_permits w"] True Some Sleeping show ?thesis
        by (simp add: delivery_wake_def is_requesting_def)
    qed (use wf Some Sleeping in \<open>simp add: delivery_wake_def\<close>)
  qed (use wf Some in \<open>simp_all add: delivery_wake_def\<close>)
qed (use wf in \<open>simp add: delivery_wake_def\<close>)

lemma wt_wf_retry:
  assumes wf: "wt_wf now w"
  shows "wt_wf now (delivery_retry i w)"
proof (cases "dget (wd_deliveries w) i")
  case (Some d)
  have dwf: "dl_wf now d" using wf Some by (auto simp: wt_wf_def dest: dall_get)
  show ?thesis
  proof (cases "dl_phase d = AwaitingSlot \<and> wd_permits w \<noteq> 0")
    case True
    let ?d = "d\<lparr>dl_phase := Requesting, dl_attempts := dl_attempts d + 1\<rparr>"
    from True dwf have "dl_wf now ?d" by (auto simp: dl_wf_def)
    from wt_wf_replace [OF wf Some this, of "wd_permits w - 1"] True Some show ?thesis
      by (simp add: delivery_retry_def is_requesting_def)
  qed (use wf Some in \<open>auto simp: delivery_retry_def\<close>)
qed (use wf in \<open>simp add: delivery_retry_def\<close>)

definition wh_wf :: "nat \<Rightarrow> instant \<times> webhook_dispatcher \<Rightarrow> bool" where
  "wh_wf sz s \<longleftrightarrow> wq_wf sz (snd s) \<and> wt_wf (fst s) (snd s)"

lemma wh_wf_new: "wh_wf sz (now, spawn_with_overflow overflow)"
  by (simp add: wh_wf_def wq_wf_def wt_wf_def ws_wf_def spawn_with_overflow_def dcount_def)

lemma tasks_queue [simp]:
  "wt_wf now (enqueue sz t aid ev w) = wt_wf now w" "wt_wf now (wh_forward_recv w) = wt_wf now w"
  "wt_wf now (wh_forward_send sz w) = wt_wf now w" "wt_wf now (drain_recv lookup w) = wt_wf now w"
  by (auto simp: wt_wf_def enqueue_def record_drop_def wh_forward_recv_def wh_forward_send_def
      drain_recv_def Let_def split: webhook_overflow.split option.split list.split)

lemma wh_wf_do: "wh_wf sz s \<Longrightarrow> wh_wf sz (wh_do sz lookup op s)"
  by (cases s; cases op)
     (auto simp: wh_wf_def wq_wf_enqueue wq_wf_forward wq_wf_drain_recv wq_wf_tasks wt_wf_drain_target
        wt_wf_response wt_wf_wake wt_wf_retry elim: wt_wf_mono)

lemma wh_wf_run: "wh_wf sz s \<Longrightarrow> wh_wf sz (fold (wh_do sz lookup) ops s)"
  by (induction ops arbitrary: s) (simp_all add: wh_wf_do)

lemma dl_wf_attempts: "dl_wf now d \<Longrightarrow> dl_attempts d \<le> 10"
  using slept_window by (fastforce simp: dl_wf_def split: delivery_phase.splits)

text \<open>
  C35: Under every interleaving of producers, drain loop and deliveries: at most 256 requests run at
  once, at most 10,000 deliveries wait for a retry, the queue and the staged bytes stay within their
  bounds, every delivery goes to a target whose filters match its event, and none is attempted more
  than ten times.
\<close>

theorem webhook_resource_bounds:
  "let w = snd (fold (wh_do sz lookup) ops (now, spawn_with_overflow overflow)) in
     length (filter (\<lambda>(_, d). dl_phase d = Requesting) (wd_deliveries w)) \<le> MAX_IN_FLIGHT_DELIVERIES \<and>
     length (filter (\<lambda>(_, d). dl_counted_as_pending d) (wd_deliveries w)) \<le> MAX_PENDING_RETRIES \<and>
     wd_in_flight w = length (wd_deliveries w) \<and>
     length (wd_queue w) \<le> WEBHOOK_QUEUE_CAPACITY \<and>
     (case wd_block w of Some s \<Rightarrow> ws_bytes s \<le> WEBHOOK_STAGING_MAX_BYTES | None \<Rightarrow> True) \<and>
     list_all (\<lambda>(_, d). matches_filters (dl_target d) (dl_event d) \<and> dl_attempts d \<le> 10)
       (wd_deliveries w)"
proof -
  obtain t w where run: "fold (wh_do sz lookup) ops (now, spawn_with_overflow overflow) = (t, w)"
    by fastforce
  have "wh_wf sz (t, w)" using wh_wf_run [OF wh_wf_new, of sz lookup ops now overflow] run by simp
  then have wq: "wq_wf sz w" and wt: "wt_wf t w" by (simp_all add: wh_wf_def)
  have "list_all (\<lambda>(_, d). matches_filters (dl_target d) (dl_event d) \<and> dl_attempts d \<le> 10) (wd_deliveries w)"
    using wt dl_wf_attempts by (fastforce simp: wt_wf_def dall_def list_all_iff dl_wf_def)
  moreover have "case wd_block w of Some s \<Rightarrow> ws_bytes s \<le> WEBHOOK_STAGING_MAX_BYTES | None \<Rightarrow> True"
    using wq by (auto simp: wq_wf_def ws_wf_def split: option.splits)
  moreover have "dcount is_requesting (wd_deliveries w) \<le> MAX_IN_FLIGHT_DELIVERIES"
    using wt by (simp add: wt_wf_def)
  ultimately show ?thesis
    using wq wt by (simp add: run Let_def wq_wf_def wt_wf_def dcount_def is_requesting_def)
qed

section \<open>Every delivery ends\<close>

text \<open>A failed attempt, the pause, and the next attempt.\<close>

definition retry_round :: "nat \<Rightarrow> wh_op list" where
  "retry_round i = [WhResponse i False, WhAdvance MAX_RETRY_BACKOFF, WhWake i, WhRetry i]"

lemma backoff_at_le: "backoff_at k \<le> MAX_RETRY_BACKOFF"
  by (cases k) (simp_all add: INITIAL_RETRY_BACKOFF_def MAX_RETRY_BACKOFF_def from_secs_def)

lemma retry_round_step:
  assumes wf: "wh_wf sz (now, w)"
    and d: "dget (wd_deliveries w) i = Some d" "dl_phase d = Requesting"
  shows "let w' = snd (fold (wh_do sz lookup) (retry_round i) (now, w)) in
           dget (wd_deliveries w') i = None \<or>
           (\<exists>d'. dget (wd_deliveries w') i = Some d' \<and> dl_phase d' = Requesting \<and>
                 dl_attempts d' = Suc (dl_attempts d))"
proof -
  let ?w1 = "delivery_response now i False w" and ?now = "now + MAX_RETRY_BACKOFF"
  have dwf: "dl_wf now d" using wf d(1) by (auto simp: wh_wf_def wt_wf_def dest: dall_get)
  then have b: "dl_backoff d \<le> MAX_RETRY_BACKOFF"
    using d(2) backoff_at_le by (auto simp: dl_wf_def)
  have gone: "delivery_retry i (delivery_wake ?now i x) = x" if "dget (wd_deliveries x) i = None" for x
    using that by (simp add: delivery_wake_def delivery_retry_def)
  show ?thesis
  proof (cases "dget (wd_deliveries ?w1) i")
    case None
    then show ?thesis by (simp add: retry_round_def gone)
  next
    case (Some d1)
    with d have "d1 = d\<lparr>dl_counted_as_pending := True, dl_phase := Sleeping (now + dl_backoff d)\<rparr>"
      and "wd_permits ?w1 = Suc (wd_permits w)"
      by (auto simp: delivery_response_def finish_delivery_def Let_def split: if_splits)
    with Some b show ?thesis
      by (simp add: retry_round_def delivery_wake_def delivery_retry_def)
  qed
qed

lemma retry_rounds_end:
  "wh_wf sz (now, w) \<Longrightarrow>
     (case dget (wd_deliveries w) i of
        Some d \<Rightarrow> dl_phase d = Requesting \<and> 10 < dl_attempts d + n | None \<Rightarrow> True) \<Longrightarrow>
     dget (wd_deliveries (snd (fold (wh_do sz lookup) (concat (replicate n (retry_round i))) (now, w)))) i = None"
proof (induction n arbitrary: now w)
  case 0
  show ?case
  proof (cases "dget (wd_deliveries w) i")
    case (Some d)
    with "0.prems"(1) have "dl_attempts d \<le> 10"
      by (auto simp: wh_wf_def wt_wf_def intro!: dl_wf_attempts dest: dall_get)
    with "0.prems"(2) Some show ?thesis by simp
  qed simp
next
  case (Suc n)
  obtain now1 w1 where r: "fold (wh_do sz lookup) (retry_round i) (now, w) = (now1, w1)" by fastforce
  have wf1: "wh_wf sz (now1, w1)" using wh_wf_run [OF Suc.prems(1), of lookup "retry_round i"] r by simp
  have "case dget (wd_deliveries w1) i of
      Some d \<Rightarrow> dl_phase d = Requesting \<and> 10 < dl_attempts d + n | None \<Rightarrow> True"
  proof (cases "dget (wd_deliveries w) i")
    case None
    then have "w1 = w"
      using r by (simp add: retry_round_def delivery_response_def delivery_wake_def delivery_retry_def)
    with None show ?thesis by simp
  next
    case (Some d)
    with Suc.prems(2) have d: "dl_phase d = Requesting" "10 < dl_attempts d + Suc n" by simp_all
    from retry_round_step [OF Suc.prems(1) Some d(1), of lookup] r d(2) show ?thesis by auto
  qed
  from Suc.IH [OF wf1 this] show ?case by (simp add: r)
qed

text \<open>How far a delivery has come: three moves to an attempt.\<close>

definition delivery_rank :: "delivery \<Rightarrow> nat" where
  "delivery_rank d =
     3 * dl_attempts d + (case dl_phase d of Requesting \<Rightarrow> 0 | Sleeping _ \<Rightarrow> 1 | AwaitingSlot \<Rightarrow> 2)"

lemma delivery_rank_bound:
  assumes "dl_wf now d"
  shows "1 \<le> delivery_rank d" "delivery_rank d \<le> 30"
proof -
  have k: "k \<le> 9" if "slept k \<le> RETRY_WINDOW" for k using that by (rule slept_window)
  show "1 \<le> delivery_rank d" using assms by (auto simp: dl_wf_def delivery_rank_def split: delivery_phase.splits)
  show "delivery_rank d \<le> 30"
  proof (cases "dl_phase d")
    case (Sleeping t)
    with assms obtain n where "dl_attempts d = Suc n" "slept (Suc n) \<le> RETRY_WINDOW" by (auto simp: dl_wf_def)
    with k [of "Suc n"] Sleeping show ?thesis by (simp add: delivery_rank_def)
  qed (use assms in \<open>auto simp: dl_wf_def delivery_rank_def dest: k\<close>)
qed

text \<open>Any operation, of this delivery or of anything else, leaves it, ends it or moves it on by one.\<close>

lemma delivery_step:
  assumes d: "dget (wd_deliveries w) i = Some d"
  shows "dget (wd_deliveries (snd (wh_do sz lookup op (now, w)))) i \<in> {None, Some d} \<or>
         (\<exists>d'. dget (wd_deliveries (snd (wh_do sz lookup op (now, w)))) i = Some d' \<and>
               delivery_rank d' = Suc (delivery_rank d))"
proof (cases op)
  case WhDrainTarget
  have "i \<noteq> fresh_task (wd_deliveries w)" using d fresh_task_new [of "wd_deliveries w"] by auto
  with d WhDrainTarget show ?thesis
    by (auto simp: drain_target_def start_delivery_def split: option.split list.split)
next
  case (WhResponse j ok)
  with d show ?thesis
    by (auto simp: delivery_response_def finish_delivery_def Let_def delivery_rank_def split: option.split)
next
  case (WhWake j)
  with d show ?thesis
    by (auto simp: delivery_wake_def delivery_rank_def split: option.split delivery_phase.split)
next
  case (WhRetry j)
  with d show ?thesis
    by (auto simp: delivery_retry_def delivery_rank_def split: option.split)
qed (use d in \<open>auto simp: enqueue_def record_drop_def wh_forward_recv_def wh_forward_send_def drain_recv_def Let_def
       split: option.split list.split webhook_overflow.split\<close>)

text \<open>The number of operations of a history that change one delivery, until it is gone.\<close>

fun delivery_moves ::
  "nat \<Rightarrow> (string \<Rightarrow> compiled_target list) \<Rightarrow> nat \<Rightarrow> wh_op list \<Rightarrow> instant \<times> webhook_dispatcher \<Rightarrow> nat" where
  "delivery_moves sz lookup i [] s = 0"
| "delivery_moves sz lookup i (op # ops) s =
     (case dget (wd_deliveries (snd s)) i of
        None \<Rightarrow> 0
      | Some d \<Rightarrow>
          (let s' = wh_do sz lookup op s
           in (if dget (wd_deliveries (snd s')) i = Some d then 0 else 1) + delivery_moves sz lookup i ops s'))"

lemma delivery_moves_gone [simp]:
  "dget (wd_deliveries (snd s)) i = None \<Longrightarrow> delivery_moves sz lookup i ops s = 0"
  by (cases ops) simp_all

lemma delivery_moves_bound:
  assumes "wh_wf sz s" "dget (wd_deliveries (snd s)) i = Some d"
  shows "delivery_moves sz lookup i ops s + delivery_rank d \<le> 31"
  using assms
proof (induction ops arbitrary: s d)
  case Nil
  then have "dl_wf (fst s) d" by (cases s) (auto simp: wh_wf_def wt_wf_def dest: dall_get)
  from delivery_rank_bound(2) [OF this] show ?case by simp
next
  case (Cons op ops)
  let ?s = "wh_do sz lookup op s"
  have wf: "wh_wf sz ?s" using Cons.prems(1) by (rule wh_wf_do)
  have rank: "delivery_rank d \<le> 30"
    using Cons.prems by (cases s) (auto simp: wh_wf_def wt_wf_def intro!: delivery_rank_bound(2) dest: dall_get)
  from delivery_step [of "snd s" i d sz lookup op "fst s"] Cons.prems(2)
  consider "dget (wd_deliveries (snd ?s)) i = None" | "dget (wd_deliveries (snd ?s)) i = Some d"
    | d' where "dget (wd_deliveries (snd ?s)) i = Some d'" "delivery_rank d' = Suc (delivery_rank d)" by auto
  then show ?case
  proof cases
    case 1
    with rank Cons.prems(2) show ?thesis by (simp add: Let_def)
  next
    case 2
    with Cons.IH [OF wf 2] Cons.prems(2) show ?thesis by (simp add: Let_def)
  next
    case 3
    with Cons.IH [OF wf 3(1)] Cons.prems(2) show ?thesis by (auto simp: Let_def)
  qed
qed

text \<open>No delivery is stuck: its next move is open, if need be after a request of another ends.\<close>

lemma delivery_moves_next:
  assumes wf: "wh_wf sz (now, w)" and d: "dget (wd_deliveries w) i = Some d"
  shows "\<exists>ops. 0 < delivery_moves sz lookup i ops (now, w)"
proof (cases "dl_phase d")
  case Requesting
  with d have "0 < delivery_moves sz lookup i [WhResponse i True] (now, w)"
    by (simp add: delivery_response_def finish_delivery_def Let_def)
  then show ?thesis by blast
next
  case (Sleeping t)
  with d have "0 < delivery_moves sz lookup i [WhAdvance t, WhWake i] (now, w)"
    by (auto simp: delivery_wake_def Let_def dest: arg_cong [where f = dl_phase])
  then show ?thesis by blast
next
  case AwaitingSlot
  show ?thesis
  proof (cases "wd_permits w")
    case 0
    then have "dcount is_requesting (wd_deliveries w) \<noteq> 0"
      using wf by (simp add: wh_wf_def wt_wf_def MAX_IN_FLIGHT_DELIVERIES_def)
    then obtain j e where "(j, e) \<in> set (wd_deliveries w)" "is_requesting e"
      by (auto simp: dcount_def filter_empty_conv)
    moreover have "dwf (wd_deliveries w)" using wf by (simp add: wh_wf_def wt_wf_def)
    ultimately have j: "dget (wd_deliveries w) j = Some e" "dl_phase e = Requesting"
      by (simp_all add: dwf_in_iff is_requesting_def)
    with d AwaitingSlot have "j \<noteq> i" by auto
    with d AwaitingSlot j have "0 < delivery_moves sz lookup i [WhResponse j True, WhRetry i] (now, w)"
      by (auto simp: delivery_response_def finish_delivery_def delivery_retry_def Let_def
          dest: arg_cong [where f = dl_phase])
    then show ?thesis by blast
  next
    case (Suc n)
    with d AwaitingSlot have "0 < delivery_moves sz lookup i [WhRetry i] (now, w)"
      by (auto simp: delivery_retry_def Let_def dest: arg_cong [where f = dl_phase])
    then show ?thesis by blast
  qed
qed

text \<open>
  C36: Every delivery ends. Whatever state the dispatcher has reached and whatever every task does
  from then on, in any order, a delivery moves at most thirty times (three moves to an attempt) and
  is then gone; as long as it is there its next move is open, if need be after another request has
  ended and given its slot back; a pause never lasts beyond the retry window counted from the start
  of the delivery; and when its requests keep failing, and it gets a slot for each, ten rounds of
  failing, pausing and retrying end it.
\<close>

theorem webhook_delivery_ends:
  assumes "fold (wh_do sz lookup) ops (start, spawn_with_overflow overflow) = (now, w)"
    and "dget (wd_deliveries w) i = Some d"
  shows "delivery_moves sz lookup i further (now, w) \<le> 30 \<and>
         (\<exists>turns. 0 < delivery_moves sz lookup i turns (now, w)) \<and>
         (\<forall>t. dl_phase d = Sleeping t \<longrightarrow> t \<le> dl_started d + RETRY_WINDOW) \<and>
         (dl_phase d = Requesting \<longrightarrow>
            dget (wd_deliveries (snd (fold (wh_do sz lookup) (concat (replicate 10 (retry_round i))) (now, w)))) i = None)"
proof (intro conjI)
  have wf: "wh_wf sz (now, w)" using wh_wf_run [OF wh_wf_new, of sz lookup ops start overflow] assms(1) by simp
  have dwf: "dl_wf now d" using wf assms(2) by (auto simp: wh_wf_def wt_wf_def dest: dall_get)
  show "delivery_moves sz lookup i further (now, w) \<le> 30"
    using delivery_moves_bound [OF wf, of i d lookup further] delivery_rank_bound(1) [OF dwf] assms(2) by simp
  show "\<exists>turns. 0 < delivery_moves sz lookup i turns (now, w)" by (rule delivery_moves_next [OF wf assms(2)])
  show "\<forall>t. dl_phase d = Sleeping t \<longrightarrow> t \<le> dl_started d + RETRY_WINDOW"
    using dwf by (auto simp: dl_wf_def)
  have "0 < dl_attempts d" if "dl_phase d = Requesting" using dwf that by (auto simp: dl_wf_def)
  with assms(2) wf show "dl_phase d = Requesting \<longrightarrow> dget (wd_deliveries (snd (fold (wh_do sz lookup)
      (concat (replicate 10 (retry_round i))) (now, w)))) i = None"
    by (intro impI retry_rounds_end) simp_all
qed

text \<open>One target, and an event that has just been sent to it.\<close>

definition sample_target :: compiled_target where
  "sample_target = \<lparr>ct_app_id = ''1'', ct_app_key = ''key'', ct_app_secret = ''s'',
     ct_url = ''http://a/'', ct_event_filter = [], ct_channel_prefix = None\<rparr>"

lemma sample_delivery_run:
  "\<exists>d w. fold (wh_do 120 (\<lambda>_. [sample_target])) [WhEnqueue ''1'' (WhCacheMiss ''c''), WhDrainRecv, WhDrainTarget]
           (0, spawn_with_overflow WhBestEffort) = (0, w) \<and>
         dget (wd_deliveries w) 1 = Some d \<and> dl_phase d = Requesting"
  by (simp add: spawn_with_overflow_def enqueue_def WEBHOOK_QUEUE_CAPACITY_def drain_recv_def
      drain_target_def matches_filters_def sample_target_def start_delivery_def fresh_task_def
      MAX_IN_FLIGHT_DELIVERIES_def)

theorem webhook_delivery_ends_witness:
  "\<exists>w. fold (wh_do 120 (\<lambda>_. [sample_target])) [WhEnqueue ''1'' (WhCacheMiss ''c''), WhDrainRecv, WhDrainTarget]
         (0, spawn_with_overflow WhBestEffort) = (0, w) \<and>
       dget (wd_deliveries w) 1 \<noteq> None \<and>
       delivery_moves 120 (\<lambda>_. [sample_target]) 1 (concat (replicate 100 (retry_round 1))) (0, w) \<le> 30 \<and>
       dget (wd_deliveries (snd (fold (wh_do 120 (\<lambda>_. [sample_target]))
         (concat (replicate 10 (retry_round 1))) (0, w)))) 1 = None"
proof -
  from sample_delivery_run obtain d w where
    w: "fold (wh_do 120 (\<lambda>_. [sample_target])) [WhEnqueue ''1'' (WhCacheMiss ''c''), WhDrainRecv, WhDrainTarget]
       (0, spawn_with_overflow WhBestEffort) = (0, w)"
    "dget (wd_deliveries w) 1 = Some d" and "dl_phase d = Requesting" by blast
  with webhook_delivery_ends [OF w] show ?thesis by blast
qed

end
