(* ===== verification/Config_Model.thy ===== *)
theory Config_Model
  imports Sample_Ext
begin

text \<open>
  Configuration (\<open>zatat-config/src/lib.rs\<close>): environment overrides, defaults, and the index of
  applications that the server looks requests up in, with its atomic replacement on reload. Reading
  TOML and merging values is the work of the \<open>figment\<close> crate, which is a parameter.
\<close>

section \<open>Settings\<close>

datatype overflow_mode = OverflowBestEffort | OverflowBlock

record raw_app =
  ra_id :: string
  ra_key :: string
  ra_secret :: string
  ra_ping_interval :: nat
  ra_activity_timeout :: nat
  ra_max_message_size :: nat
  ra_max_connections :: "nat option"
  ra_allowed_origins :: "string list"
  ra_accept_client_events_from :: accept_client_events_from
  ra_rate_limiting :: "rate_limit_config option"
  ra_webhooks :: "json list"
  ra_emit_subscription_count :: bool
  ra_encryption_master_key :: "string option"
  ra_cache_ttl_seconds :: nat
  ra_max_presence_members_per_channel :: nat
  ra_max_presence_member_size_bytes :: nat
  ra_max_channels_per_connection :: nat

record redis_config =
  rc_url :: "string option"
  rc_host :: string
  rc_port :: nat
  rc_db :: nat
  rc_username :: "string option"
  rc_password :: "string option"
  rc_timeout_seconds :: nat

record raw_scaling =
  rs_enabled :: bool
  rs_channel :: string
  rs_redis :: redis_config
  rs_overflow_mode :: overflow_mode

record raw_server =
  rv_host :: string
  rv_port :: nat
  rv_path :: string
  rv_max_request_size :: nat
  rv_restart_signal_file :: string
  rv_restart_poll_interval_seconds :: nat
  rv_tls :: "(string \<times> string) option"
  rv_scaling :: "raw_scaling option"
  rv_prometheus :: "(string \<times> string option) option"
  rv_webhook_overflow_mode :: overflow_mode

record raw_config =
  rw_server :: raw_server
  rw_apps :: "raw_app list"

definition redis_default :: redis_config where
  "redis_default = \<lparr>rc_url = None, rc_host = ''127.0.0.1'', rc_port = 6379, rc_db = 0,
     rc_username = None, rc_password = None, rc_timeout_seconds = 60\<rparr>"

definition raw_server_default :: raw_server where
  "raw_server_default = \<lparr>rv_host = ''0.0.0.0'', rv_port = 8080, rv_path = [],
     rv_max_request_size = 10000, rv_restart_signal_file = ''/tmp/zatat.restart'',
     rv_restart_poll_interval_seconds = 5, rv_tls = None, rv_scaling = None, rv_prometheus = None,
     rv_webhook_overflow_mode = OverflowBestEffort\<rparr>"

text \<open>The entry with every optional field left out.\<close>

definition raw_app_default :: "string \<Rightarrow> string \<Rightarrow> string \<Rightarrow> raw_app" where
  "raw_app_default aid key secret = \<lparr>ra_id = aid, ra_key = key, ra_secret = secret,
     ra_ping_interval = 30, ra_activity_timeout = 30, ra_max_message_size = 10000,
     ra_max_connections = None, ra_allowed_origins = [],
     ra_accept_client_events_from = AcceptMembers, ra_rate_limiting = None, ra_webhooks = [],
     ra_emit_subscription_count = False, ra_encryption_master_key = None,
     ra_cache_ttl_seconds = 1800, ra_max_presence_members_per_channel = 100,
     ra_max_presence_member_size_bytes = 2048,
     ra_max_channels_per_connection = default_max_channels_per_connection\<rparr>"

record scaling_config =
  sc_enabled :: bool
  sc_channel :: string
  sc_redis :: redis_config
  sc_overflow_mode :: overflow_mode

record server_config =
  sc_host :: string
  sc_port :: nat
  sc_path :: string
  sc_max_request_size :: nat
  sc_restart_signal_file :: string
  sc_restart_poll_interval :: duration
  sc_tls :: "(string \<times> string) option"
  sc_scaling :: "scaling_config option"
  sc_prometheus :: "(string \<times> string option) option"
  sc_webhook_overflow_mode :: overflow_mode

record app_index =
  ai_by_id :: "(app_id, application) dmap"
  ai_by_key :: "(app_key, application) dmap"

record config =
  cf_server :: server_config
  cf_apps :: app_index

datatype config_error =
    Figment string
  | InvalidApplication application_error
  | DuplicateAppKey string
  | DuplicateAppId string
  | AppEnvIndexGap nat nat

section \<open>Environment variables\<close>

definition ENV_PREFIX :: string where
  "ENV_PREFIX = ''ZATAT_''"

definition APPS_PREFIX :: string where
  "APPS_PREFIX = ''apps__''"

definition APP_TEXT_FIELDS :: "string list" where
  "APP_TEXT_FIELDS = [''id'', ''key'', ''secret'', ''encryption_master_key'']"

definition SERVER_TEXT_FIELDS :: "string list" where
  "SERVER_TEXT_FIELDS =
     [''server.host'', ''server.path'', ''server.restart_signal_file'', ''server.tls.cert'',
      ''server.tls.key'', ''server.scaling.channel'', ''server.scaling.redis.url'',
      ''server.scaling.redis.host'', ''server.scaling.redis.username'',
      ''server.scaling.redis.password'', ''server.prometheus.listen'',
      ''server.prometheus.bearer_token'']"

text \<open>
  \<open>get(..n)\<close>, the comparison ignoring case and the slice after it. The prefixes are ASCII, so a
  match ends at a character boundary.
\<close>

definition strip_ignoring_case :: "string \<Rightarrow> string \<Rightarrow> string option" where
  "strip_ignoring_case pre s =
     (if length pre \<le> length s \<and> eq_ignore_ascii_case (take (length pre) s) pre
      then Some (drop (length pre) s) else None)"

text \<open>\<open>replace("__", ".")\<close>: non-overlapping matches, from the left.\<close>

fun dotted :: "string \<Rightarrow> string" where
  "dotted (a # b # s) =
     (if a = CHR ''_'' \<and> b = CHR ''_'' then CHR ''.'' # dotted s else a # dotted (b # s))"
| "dotted s = s"

definition env_path :: "string \<Rightarrow> string option" where
  "env_path name =
     map_option (\<lambda>key. dotted (to_ascii_lowercase key)) (strip_ignoring_case ENV_PREFIX name)"

text \<open>\<open>usize::from_str\<close>: an optional plus sign and digits, within 64 bits.\<close>

definition parse_usize :: "string \<Rightarrow> nat option" where
  "parse_usize s =
     (let digits = (case s of c # cs \<Rightarrow> if c = CHR ''+'' then cs else s | [] \<Rightarrow> [])
      in case parse_nat digits of Some n \<Rightarrow> if n < 2 ^ 64 then Some n else None | None \<Rightarrow> None)"

definition app_env_index :: "string \<Rightarrow> nat option" where
  "app_env_index key =
     Option.bind (strip_ignoring_case APPS_PREFIX key) (\<lambda>rest.
       Option.bind (split_once ''__'' rest) (\<lambda>(index, field).
         if field = [] then None else parse_usize index))"

datatype env_value = TextValue string | TomlValue string

definition app_env_field :: "string \<Rightarrow> string" where
  "app_env_field key =
     (case split_once ''__'' (drop (length APPS_PREFIX) key) of Some (_, f) \<Rightarrow> f | None \<Rightarrow> [])"

text \<open>The overrides of every index, in the order of the indices and, within one, of the variables.\<close>

fun group_overrides ::
  "(string \<times> string) list \<Rightarrow> (nat \<times> (string \<times> string) list) list \<Rightarrow>
   (nat \<times> (string \<times> string) list) list" where
  "group_overrides [] m = m"
| "group_overrides ((name, value) # vars) m =
     (case strip_ignoring_case ENV_PREFIX name of
        None \<Rightarrow> group_overrides vars m
      | Some key \<Rightarrow>
          (case app_env_index key of
             None \<Rightarrow> group_overrides vars m
           | Some index \<Rightarrow>
               (let old = (case map_of m index of Some l \<Rightarrow> l | None \<Rightarrow> [])
                in group_overrides vars (bt_put index (old @ [(app_env_field key, value)]) m))))"

definition app_field_value :: "string \<times> string \<Rightarrow> string \<times> env_value" where
  "app_field_value fv =
     (case fv of (field, value) \<Rightarrow>
        let path = dotted (to_ascii_lowercase field)
        in (path, if path \<in> set APP_TEXT_FIELDS then TextValue value else TomlValue value))"

text \<open>
  The parameter \<open>extract_app\<close> stands for figment: the settings an entry already has, overlaid with
  the given values, read as an application entry.
\<close>

fun apply_overrides ::
  "(raw_app option \<Rightarrow> (string \<times> env_value) list \<Rightarrow> string + raw_app) \<Rightarrow>
   (nat \<times> (string \<times> string) list) list \<Rightarrow> raw_app list \<Rightarrow> config_error + raw_app list" where
  "apply_overrides extract_app [] apps = Inr apps"
| "apply_overrides extract_app ((index, fs) # rest) apps =
     (if index > length apps then Inl (AppEnvIndexGap index (length apps))
      else
        case extract_app (if index < length apps then Some (apps ! index) else None)
               (map app_field_value fs) of
          Inl err \<Rightarrow> Inl (Figment err)
        | Inr app \<Rightarrow>
            apply_overrides extract_app rest
              (if index = length apps then apps @ [app] else apps[index := app]))"

definition apply_app_env_overrides ::
  "(raw_app option \<Rightarrow> (string \<times> env_value) list \<Rightarrow> string + raw_app) \<Rightarrow> raw_app list \<Rightarrow>
   (string \<times> string) list \<Rightarrow> config_error + raw_app list" where
  "apply_app_env_overrides extract_app apps vars = apply_overrides extract_app (group_overrides vars []) apps"

text \<open>The values merged over the file, in the order of the variables.\<close>

definition merged_values :: "(string \<times> string) list \<Rightarrow> (string \<times> env_value) list" where
  "merged_values vars =
     List.map_filter (\<lambda>(name, value).
       case env_path name of
         None \<Rightarrow> None
       | Some path \<Rightarrow>
           if path = [] then None
           else if starts_with path ''apps.'' \<and> app_env_index (drop (length ENV_PREFIX) name) \<noteq> None
           then None
           else Some (path, if path \<in> set SERVER_TEXT_FIELDS then TextValue value else TomlValue value))
       vars"

text \<open>The parameter \<open>extract\<close> is figment reading the file overlaid with the given values.\<close>

definition load_raw_with ::
  "((string \<times> env_value) list \<Rightarrow> string + raw_config) \<Rightarrow>
   (raw_app option \<Rightarrow> (string \<times> env_value) list \<Rightarrow> string + raw_app) \<Rightarrow>
   (string \<times> string) list \<Rightarrow> config_error + raw_config" where
  "load_raw_with extract extract_app vars =
     (case extract (merged_values vars) of
        Inl err \<Rightarrow> Inl (Figment err)
      | Inr raw \<Rightarrow>
          (case apply_app_env_overrides extract_app (rw_apps raw) vars of
             Inl err \<Rightarrow> Inl err
           | Inr apps \<Rightarrow> Inr (raw\<lparr>rw_apps := apps\<rparr>)))"

section \<open>The application index\<close>

definition compile_app :: "ext \<Rightarrow> raw_app \<Rightarrow> application_error + application" where
  "compile_app E raw =
     (case application_new E (ra_id raw) (ra_key raw) (ra_secret raw) (ra_ping_interval raw)
             (ra_activity_timeout raw) (ra_max_message_size raw) (ra_max_connections raw)
             (ra_accept_client_events_from raw) (ra_rate_limiting raw) (ra_allowed_origins raw) of
        Inl err \<Rightarrow> Inl err
      | Inr app \<Rightarrow>
          Inr (with_max_channels_per_connection (ra_max_channels_per_connection raw)
            (with_presence_limits (ra_max_presence_members_per_channel raw)
               (ra_max_presence_member_size_bytes raw)
              (with_cache_ttl_seconds
                 (if ra_cache_ttl_seconds raw = 0 then None else Some (ra_cache_ttl_seconds raw))
                (with_encryption_master_key (ra_encryption_master_key raw)
                  (with_subscription_count (ra_emit_subscription_count raw)
                    (with_webhooks (ra_webhooks raw) app)))))))"

fun build_apps :: "ext \<Rightarrow> raw_app list \<Rightarrow> app_index \<Rightarrow> config_error + app_index" where
  "build_apps E [] idx = Inr idx"
| "build_apps E (raw # raws) idx =
     (case compile_app E raw of
        Inl err \<Rightarrow> Inl (InvalidApplication err)
      | Inr app \<Rightarrow>
          if dhas (ai_by_id idx) (app_id app) then Inl (DuplicateAppId (ra_id raw))
          else if dhas (ai_by_key idx) (app_key app) then Inl (DuplicateAppKey (ra_key raw))
          else build_apps E raws
                 (idx\<lparr>ai_by_id := dput (app_id app) app (ai_by_id idx),
                      ai_by_key := dput (app_key app) app (ai_by_key idx)\<rparr>))"

definition build_app_index :: "ext \<Rightarrow> raw_app list \<Rightarrow> config_error + app_index" where
  "build_app_index E raws = build_apps E raws \<lparr>ai_by_id = [], ai_by_key = []\<rparr>"

definition compile_server :: "raw_server \<Rightarrow> server_config" where
  "compile_server s =
     \<lparr>sc_host = rv_host s, sc_port = rv_port s, sc_path = rv_path s,
      sc_max_request_size = rv_max_request_size s,
      sc_restart_signal_file = rv_restart_signal_file s,
      sc_restart_poll_interval = from_secs (rv_restart_poll_interval_seconds s),
      sc_tls = rv_tls s,
      sc_scaling = map_option (\<lambda>r. \<lparr>sc_enabled = rs_enabled r, sc_channel = rs_channel r,
        sc_redis = rs_redis r, sc_overflow_mode = rs_overflow_mode r\<rparr>) (rv_scaling s),
      sc_prometheus = rv_prometheus s,
      sc_webhook_overflow_mode = rv_webhook_overflow_mode s\<rparr>"

definition compile_config :: "ext \<Rightarrow> raw_config \<Rightarrow> config_error + config" where
  "compile_config E raw =
     (case build_app_index E (rw_apps raw) of
        Inl err \<Rightarrow> Inl err
      | Inr idx \<Rightarrow> Inr \<lparr>cf_server = compile_server (rw_server raw), cf_apps = idx\<rparr>)"

definition app_by_id :: "app_id \<Rightarrow> config \<Rightarrow> application option" where
  "app_by_id aid cf = dget (ai_by_id (cf_apps cf)) aid"

definition app_by_key :: "app_key \<Rightarrow> config \<Rightarrow> application option" where
  "app_by_key key cf = dget (ai_by_key (cf_apps cf)) key"

section \<open>Reloading\<close>

record apps_reload =
  rl_loaded :: nat
  rl_revoked :: "app_id list"
  rl_origins_changed :: "app_id list"

definition compare_app ::
  "app_index \<Rightarrow> app_id \<times> application \<Rightarrow> apps_reload \<Rightarrow> apps_reload" where
  "compare_app nxt entry r =
     (case entry of (aid, old) \<Rightarrow>
        case dget (ai_by_id nxt) aid of
          None \<Rightarrow> r\<lparr>rl_revoked := rl_revoked r @ [aid]\<rparr>
        | Some new \<Rightarrow>
            if app_key new \<noteq> app_key old then r\<lparr>rl_revoked := rl_revoked r @ [aid]\<rparr>
            else if allowed_origins_raw new \<noteq> allowed_origins_raw old
            then r\<lparr>rl_origins_changed := rl_origins_changed r @ [aid]\<rparr>
            else r)"

definition reload_apps_with ::
  "ext \<Rightarrow> (config_error + raw_config) \<Rightarrow> config \<Rightarrow> (config_error + apps_reload) \<times> config" where
  "reload_apps_with E loaded cf =
     (case loaded of
        Inl err \<Rightarrow> (Inl err, cf)
      | Inr raw \<Rightarrow>
          (case build_app_index E (rw_apps raw) of
             Inl err \<Rightarrow> (Inl err, cf)
           | Inr nxt \<Rightarrow>
               (Inr (fold (compare_app nxt) (ai_by_id (cf_apps cf))
                  \<lparr>rl_loaded = length (ai_by_id nxt), rl_revoked = [], rl_origins_changed = []\<rparr>),
                cf\<lparr>cf_apps := nxt\<rparr>)))"

section \<open>Facts about the index\<close>

lemma compile_app_ids: "compile_app E raw = Inr app \<Longrightarrow> app_id app = ra_id raw \<and> app_key app = ra_key raw"
  by (auto simp: compile_app_def application_new_def with_max_channels_per_connection_def
      with_presence_limits_def with_cache_ttl_seconds_def with_encryption_master_key_def
      with_subscription_count_def with_webhooks_def split: sum.splits)

definition keyed :: "('a \<Rightarrow> 'k) \<Rightarrow> 'a list \<Rightarrow> ('k, 'a) dmap" where
  "keyed f xs = map (\<lambda>x. (f x, x)) xs"

definition add_apps :: "application list \<Rightarrow> app_index \<Rightarrow> app_index" where
  "add_apps apps idx =
     idx\<lparr>ai_by_id := ai_by_id idx @ keyed app_id apps, ai_by_key := ai_by_key idx @ keyed app_key apps\<rparr>"

definition fresh_raws :: "raw_app list \<Rightarrow> app_index \<Rightarrow> bool" where
  "fresh_raws raws idx \<longleftrightarrow>
     distinct (dkeys (ai_by_id idx) @ map ra_id raws) \<and> distinct (dkeys (ai_by_key idx) @ map ra_key raws)"

lemma add_apps_Cons:
  assumes "\<not> dhas (ai_by_id idx) (app_id app)" "\<not> dhas (ai_by_key idx) (app_key app)"
  shows "add_apps (app # apps) idx =
         add_apps apps (idx\<lparr>ai_by_id := dput (app_id app) app (ai_by_id idx),
                            ai_by_key := dput (app_key app) app (ai_by_key idx)\<rparr>)"
  using assms by (simp add: add_apps_def keyed_def dhas_def dput_new)

text \<open>The index is built exactly when it can be, and then lists every application under both keys.\<close>

lemma build_apps_sound:
  "build_apps E raws idx = Inr idx' \<Longrightarrow> distinct (dkeys (ai_by_id idx)) \<Longrightarrow> distinct (dkeys (ai_by_key idx)) \<Longrightarrow>
     \<exists>apps. map (compile_app E) raws = map Inr apps \<and> fresh_raws raws idx \<and> idx' = add_apps apps idx"
proof (induction raws arbitrary: idx)
  case Nil
  then show ?case by (auto simp: add_apps_def keyed_def fresh_raws_def)
next
  case (Cons raw raws)
  from Cons.prems(1) obtain app where app: "compile_app E raw = Inr app" by (auto split: sum.splits)
  note ids = compile_app_ids [OF app]
  let ?new = "idx\<lparr>ai_by_id := dput (app_id app) app (ai_by_id idx),
                  ai_by_key := dput (app_key app) app (ai_by_key idx)\<rparr>"
  from Cons.prems(1) app have f: "\<not> dhas (ai_by_id idx) (app_id app)" "\<not> dhas (ai_by_key idx) (app_key app)"
    and b: "build_apps E raws ?new = Inr idx'" by (auto split: if_splits)
  have n: "dput (ra_id raw) app (ai_by_id idx) = ai_by_id idx @ [(ra_id raw, app)]"
    "dput (ra_key raw) app (ai_by_key idx) = ai_by_key idx @ [(ra_key raw, app)]"
    using f by (simp_all add: dhas_def dput_new ids)
  have d: "distinct (dkeys (ai_by_id ?new))" "distinct (dkeys (ai_by_key ?new))"
    using Cons.prems(2,3) f by (simp_all add: ids n dhas_iff)
  from Cons.IH [OF b d] obtain apps where a: "map (compile_app E) raws = map Inr apps"
    "fresh_raws raws ?new" "idx' = add_apps apps ?new" by blast
  have "fresh_raws (raw # raws) idx"
    using a(2) by (simp add: fresh_raws_def ids n)
  with a app add_apps_Cons [OF f, of apps] show ?case
    by (intro exI [of _ "app # apps"]) simp
qed

lemma build_apps_complete:
  "map (compile_app E) raws = map Inr apps \<Longrightarrow> fresh_raws raws idx \<Longrightarrow>
     build_apps E raws idx = Inr (add_apps apps idx)"
proof (induction raws arbitrary: idx apps)
  case Nil
  then show ?case by (simp add: add_apps_def keyed_def)
next
  case (Cons raw raws)
  from Cons.prems(1) obtain app rest where apps: "apps = app # rest" and app: "compile_app E raw = Inr app"
    and rest: "map (compile_app E) raws = map Inr rest" by (auto simp: map_eq_Cons_conv Cons_eq_map_conv)
  note ids = compile_app_ids [OF app]
  have f: "\<not> dhas (ai_by_id idx) (app_id app)" "\<not> dhas (ai_by_key idx) (app_key app)"
    using Cons.prems(2) ids by (auto simp: fresh_raws_def dhas_iff)
  let ?new = "idx\<lparr>ai_by_id := dput (app_id app) app (ai_by_id idx),
                  ai_by_key := dput (app_key app) app (ai_by_key idx)\<rparr>"
  have n: "dput (ra_id raw) app (ai_by_id idx) = ai_by_id idx @ [(ra_id raw, app)]"
    "dput (ra_key raw) app (ai_by_key idx) = ai_by_key idx @ [(ra_key raw, app)]"
    using f by (simp_all add: dhas_def dput_new ids)
  have "fresh_raws raws ?new" using Cons.prems(2) by (simp add: fresh_raws_def ids n)
  from Cons.IH [OF rest this] f app show ?case
    unfolding apps add_apps_Cons [OF f, of rest] by simp
qed

lemma dget_keyed: "distinct (map f xs) \<Longrightarrow> x \<in> set xs \<Longrightarrow> dget (keyed f xs) (f x) = Some x"
  by (induction xs) (auto simp: keyed_def, metis image_eqI)

lemma length_keyed [simp]: "length (keyed f xs) = length xs"
  by (simp add: keyed_def)

lemma compiled_ids:
  "map (compile_app E) raws = map Inr apps \<Longrightarrow>
     map app_id apps = map ra_id raws \<and> map app_key apps = map ra_key raws"
proof (induction raws arbitrary: apps)
  case (Cons raw raws)
  then obtain app rest where "apps = app # rest" "compile_app E raw = Inr app"
    "map (compile_app E) raws = map Inr rest" by (auto simp: map_eq_Cons_conv Cons_eq_map_conv)
  with Cons.IH [of rest] compile_app_ids [of E raw app] show ?case by simp
qed simp

text \<open>
  C37: The application index. It is built exactly when every entry compiles and no id and no key
  occurs twice; then both tables hold exactly the compiled entries, so that looking an entry up by
  its id and by its key gives the same application, with the settings of its own entry.
\<close>

theorem build_app_index_spec:
  "case build_app_index E raws of
     Inr idx \<Rightarrow>
       distinct (map ra_id raws) \<and> distinct (map ra_key raws) \<and>
       length (ai_by_id idx) = length raws \<and> length (ai_by_key idx) = length raws \<and>
       (\<forall>raw\<in>set raws. \<exists>app. compile_app E raw = Inr app \<and>
          dget (ai_by_id idx) (ra_id raw) = Some app \<and> dget (ai_by_key idx) (ra_key raw) = Some app)
   | Inl err \<Rightarrow>
       \<not> ((\<forall>raw\<in>set raws. \<exists>app. compile_app E raw = Inr app) \<and>
          distinct (map ra_id raws) \<and> distinct (map ra_key raws))"
proof (cases "build_app_index E raws")
  case (Inr idx)
  let ?e = "\<lparr>ai_by_id = [], ai_by_key = []\<rparr>"
  from build_apps_sound [of E raws ?e idx] Inr obtain apps where
    a: "map (compile_app E) raws = map Inr apps" "fresh_raws raws ?e" "idx = add_apps apps ?e"
    by (auto simp: build_app_index_def)
  note ids = compiled_ids [OF a(1)]
  have d: "distinct (map app_id apps)" "distinct (map app_key apps)"
    using a(2) ids by (simp_all add: fresh_raws_def)
  have "\<exists>app. compile_app E raw = Inr app \<and> dget (ai_by_id idx) (ra_id raw) = Some app \<and>
      dget (ai_by_key idx) (ra_key raw) = Some app" if "raw \<in> set raws" for raw
  proof -
    have "compile_app E raw \<in> set (map Inr apps)" unfolding a(1) [symmetric] using that by simp
    then obtain app where app: "app \<in> set apps" "compile_app E raw = Inr app" by auto
    from compile_app_ids [OF app(2)] dget_keyed [OF d(1) app(1)] dget_keyed [OF d(2) app(1)] app(2)
    show ?thesis by (simp add: a(3) add_apps_def)
  qed
  moreover have "length apps = length raws" using arg_cong [OF a(1), of length] by simp
  ultimately show ?thesis using Inr a(2) by (simp add: a(3) add_apps_def fresh_raws_def)
next
  case (Inl err)
  have False if ok: "\<forall>raw\<in>set raws. \<exists>app. compile_app E raw = Inr app"
    and d: "distinct (map ra_id raws)" "distinct (map ra_key raws)"
  proof -
    from ok obtain f where "\<And>raw. raw \<in> set raws \<Longrightarrow> compile_app E raw = Inr (f raw)" by metis
    then have "map (compile_app E) raws = map Inr (map f raws)" by simp
    from build_apps_complete [OF this, of "\<lparr>ai_by_id = [], ai_by_key = []\<rparr>"] d Inl show False
      by (simp add: build_app_index_def fresh_raws_def)
  qed
  with Inl show ?thesis by auto
qed

theorem build_app_index_spec_witness:
  "\<exists>idx app. build_app_index sample_ext [raw_app_default ''1'' ''key'' ''s''] = Inr idx \<and>
     dget (ai_by_id idx) ''1'' = Some app \<and> dget (ai_by_key idx) ''key'' = Some app"
proof -
  let ?raws = "[raw_app_default ''1'' ''key'' ''s'']"
  have "build_app_index sample_ext ?raws \<noteq> Inl err" for err
    by (simp add: build_app_index_def compile_app_def application_new_def build_origin_globset_def
        raw_app_default_def sample_ext_def dhas_def)
  then obtain idx where idx: "build_app_index sample_ext ?raws = Inr idx"
    by (cases "build_app_index sample_ext ?raws") auto
  with build_app_index_spec [where E = sample_ext and raws = ?raws] show ?thesis
    by (auto simp: raw_app_default_def)
qed

section \<open>Reloading\<close>

lemma fold_compare:
  "distinct (dkeys old) \<Longrightarrow>
     set (rl_revoked (fold (compare_app nxt) old r)) = set (rl_revoked r) \<union>
       {aid. \<exists>a. dget old aid = Some a \<and>
          (case dget (ai_by_id nxt) aid of None \<Rightarrow> True | Some b \<Rightarrow> app_key b \<noteq> app_key a)} \<and>
     set (rl_origins_changed (fold (compare_app nxt) old r)) = set (rl_origins_changed r) \<union>
       {aid. \<exists>a b. dget old aid = Some a \<and> dget (ai_by_id nxt) aid = Some b \<and>
          app_key b = app_key a \<and> allowed_origins_raw b \<noteq> allowed_origins_raw a}"
proof (induction old arbitrary: r)
  case (Cons p old)
  obtain aid a where p: "p = (aid, a)" by (cases p)
  have none: "dget old aid = None" using Cons.prems by (simp add: p map_of_eq_None_iff)
  from Cons.prems have d: "distinct (dkeys old)" by simp
  show ?case
    unfolding p fold_Cons comp_def Cons.IH [OF d, THEN conjunct1] Cons.IH [OF d, THEN conjunct2]
    using none by (auto simp: compare_app_def split: option.splits if_splits)
qed simp

text \<open>
  C38: Reloading replaces the whole table or nothing. A failing reload leaves the configuration as it
  was. A successful one installs the new index and reports as revoked exactly the applications that
  disappeared or changed their key, and as changed exactly those that kept their key but not their
  allowed origins.
\<close>

theorem reload_apps_spec:
  assumes "distinct (dkeys (ai_by_id (cf_apps cf)))"
  shows "case reload_apps_with E loaded cf of
           (Inl err, cf') \<Rightarrow> cf' = cf
         | (Inr r, cf') \<Rightarrow>
             (\<exists>raw. loaded = Inr raw \<and> build_app_index E (rw_apps raw) = Inr (cf_apps cf')) \<and>
             cf_server cf' = cf_server cf \<and>
             set (rl_revoked r) = {aid. \<exists>a. app_by_id aid cf = Some a \<and>
               (\<nexists>b. app_by_id aid cf' = Some b \<and> app_key b = app_key a)} \<and>
             set (rl_origins_changed r) = {aid. \<exists>a b. app_by_id aid cf = Some a \<and>
               app_by_id aid cf' = Some b \<and> app_key b = app_key a \<and>
               allowed_origins_raw b \<noteq> allowed_origins_raw a}"
proof (cases "\<exists>raw nxt. loaded = Inr raw \<and> build_app_index E (rw_apps raw) = Inr nxt")
  case True
  then obtain raw nxt where l: "loaded = Inr raw" "build_app_index E (rw_apps raw) = Inr nxt" by blast
  from fold_compare [OF assms, of nxt
      "\<lparr>rl_loaded = length (ai_by_id nxt), rl_revoked = [], rl_origins_changed = []\<rparr>"] l
  show ?thesis by (auto simp: reload_apps_with_def app_by_id_def split: option.splits)
next
  case False
  then show ?thesis by (auto simp: reload_apps_with_def split: sum.splits)
qed

theorem reload_apps_spec_witness:
  "let cf = \<lparr>cf_server = compile_server raw_server_default,
             cf_apps = \<lparr>ai_by_id = [(''1'', sample_app)], ai_by_key = [(''key'', sample_app)]\<rparr>\<rparr>;
       loaded = Inr \<lparr>rw_server = raw_server_default, rw_apps = []\<rparr>
   in \<exists>r cf'. reload_apps_with sample_ext loaded cf = (Inr r, cf') \<and> set (rl_revoked r) = {''1''}"
proof -
  let ?cf = "\<lparr>cf_server = compile_server raw_server_default,
    cf_apps = \<lparr>ai_by_id = [(''1'', sample_app)], ai_by_key = [(''key'', sample_app)]\<rparr>\<rparr>"
  let ?l = "Inr \<lparr>rw_server = raw_server_default, rw_apps = []\<rparr> :: config_error + raw_config"
  obtain r where r: "reload_apps_with sample_ext ?l ?cf = (Inr r, ?cf\<lparr>cf_apps := \<lparr>ai_by_id = [], ai_by_key = []\<rparr>\<rparr>)"
    by (simp add: reload_apps_with_def build_app_index_def)
  have "distinct (dkeys (ai_by_id (cf_apps ?cf)))" by simp
  from reload_apps_spec [OF this, where E = sample_ext and loaded = ?l] have "set (rl_revoked r) = {''1''}"
    unfolding r by (simp add: app_by_id_def)
  with r show ?thesis by (simp add: Let_def)
qed

end
