(* ===== verification/Server_State.thy ===== *)
theory Server_State
  imports Fleet_Sync Webhooks Config_Model
begin

text \<open>
  The shared state of a node (\<open>zatat-ws/src/state.rs\<close>) and the tracker of its connections
  (\<open>zatat-ws/src/tasks.rs\<close>): the configuration, the dispatcher (which owns the channel registry and
  the mailboxes), the webhook dispatcher, the shutdown flag and the tracker.

  A \<open>Connection\<close> is shared between its task and the tracker, so connections live in a store: a
  connection and the sending half of its mailbox are created together, and the identity of the
  mailbox names both.
\<close>

section \<open>State\<close>

record tracked_connection =
  tk_conn :: nat
  tk_handle :: connection_handle

type_synonym tracker = "(string, tracked_connection) dmap"

record server =
  sv_config :: config
  sv_disp :: dispatcher
  sv_webhooks :: webhook_dispatcher
  sv_draining :: bool
  sv_tracker :: tracker
  sv_conns :: "(nat, connection) dmap"
  sv_event_size :: nat

definition publish_overflow_of :: "server_config \<Rightarrow> publish_overflow" where
  "publish_overflow_of sc =
     (case sc_scaling sc of
        None \<Rightarrow> BestEffort
      | Some s \<Rightarrow> (case sc_overflow_mode s of OverflowBestEffort \<Rightarrow> BestEffort | OverflowBlock \<Rightarrow> Block))"

definition webhook_overflow_of :: "server_config \<Rightarrow> webhook_overflow" where
  "webhook_overflow_of sc =
     (case sc_webhook_overflow_mode sc of OverflowBestEffort \<Rightarrow> WhBestEffort | OverflowBlock \<Rightarrow> WhBlock)"

text \<open>The node id is the UUID drawn at start-up, the last argument the size of an event in memory.\<close>

definition with_provider :: "string \<Rightarrow> bool \<Rightarrow> nat \<Rightarrow> config \<Rightarrow> server" where
  "with_provider node_id scaling_enabled event_size cf =
     \<lparr>sv_config = cf,
      sv_disp = (dispatcher_new node_id scaling_enabled (publish_overflow_of (cf_server cf)))
                  \<lparr>d_transition_sink := True\<rparr>,
      sv_webhooks = spawn_with_overflow (webhook_overflow_of (cf_server cf)),
      sv_draining = False, sv_tracker = [], sv_conns = [], sv_event_size = event_size\<rparr>"

definition shutdown_now :: "server \<Rightarrow> server" where
  "shutdown_now sv = sv\<lparr>sv_draining := True\<rparr>"

definition is_draining :: "server \<Rightarrow> bool" where
  "is_draining sv = sv_draining sv"

definition connection_count_total :: "server \<Rightarrow> nat" where
  "connection_count_total sv =
     sum_list (map (\<lambda>(aid, _). connection_count aid (d_channels (sv_disp sv)))
       (ai_by_id (cf_apps (sv_config sv))))"

section \<open>Webhooks\<close>

definition compile_webhook_targets_for_app :: "ext \<Rightarrow> application \<Rightarrow> compiled_target list" where
  "compile_webhook_targets_for_app E app =
     List.map_filter (\<lambda>raw.
       map_option (\<lambda>cfg.
         \<lparr>ct_app_id = app_id app, ct_app_key = app_key app, ct_app_secret = app_secret app,
          ct_url = wc_url cfg, ct_event_filter = wc_event_types cfg,
          ct_channel_prefix = wc_filter_by_prefix cfg\<rparr>)
         (x_webhook E raw)) (app_webhooks app)"

text \<open>The lookup handed to the webhook dispatcher reads the live table of applications.\<close>

definition webhook_lookup :: "ext \<Rightarrow> server \<Rightarrow> string \<Rightarrow> compiled_target list" where
  "webhook_lookup E sv aid =
     (case app_by_id aid (sv_config sv) of
        None \<Rightarrow> []
      | Some app \<Rightarrow> compile_webhook_targets_for_app E app)"

definition sv_enqueue :: "instant \<Rightarrow> string \<Rightarrow> webhook_event \<Rightarrow> server \<Rightarrow> server" where
  "sv_enqueue now aid ev sv =
     sv\<lparr>sv_webhooks := enqueue (sv_event_size sv) now aid ev (sv_webhooks sv)\<rparr>"

fun transition_event :: "fleet_transition \<Rightarrow> webhook_event" where
  "transition_event (MemberGone channel uid) = WhMemberRemoved channel uid"
| "transition_event (ChannelVacated channel) = WhChannelVacated channel"

text \<open>
  The transition sink: what the dispatcher reported while it handled an envelope goes to the
  webhook dispatcher, in order.
\<close>

definition transition_sink :: "instant \<Rightarrow> server \<Rightarrow> server" where
  "transition_sink now sv =
     (fold (\<lambda>(app, t). sv_enqueue now (app_id app) (transition_event t)) (d_reported (sv_disp sv)) sv)
       \<lparr>sv_disp := (sv_disp sv)\<lparr>d_reported := []\<rparr>\<rparr>"

text \<open>An envelope from the bus, its reports delivered to the sink.\<close>

definition sv_incoming :: "ext \<Rightarrow> instant \<Rightarrow> scaling_envelope \<Rightarrow> server \<Rightarrow> server" where
  "sv_incoming E now env sv =
     transition_sink now
       (sv\<lparr>sv_disp := handle_incoming E now (\<lambda>aid. app_by_id aid (sv_config sv)) env (sv_disp sv)\<rparr>)"

definition on_disp :: "(dispatcher \<Rightarrow> dispatcher) \<Rightarrow> server \<Rightarrow> server" where
  "on_disp f sv = sv\<lparr>sv_disp := f (sv_disp sv)\<rparr>"

definition sv_channels :: "server \<Rightarrow> manager" where
  "sv_channels sv = d_channels (sv_disp sv)"

definition sv_try_send :: "connection_handle \<Rightarrow> outbound \<Rightarrow> server \<Rightarrow> server" where
  "sv_try_send h msg sv = on_disp (\<lambda>d. d\<lparr>d_net := snd (try_send h msg (d_net d))\<rparr>) sv"

section \<open>The tracker\<close>

definition tracker_register :: "string \<Rightarrow> tracked_connection \<Rightarrow> tracker \<Rightarrow> tracker" where
  "tracker_register sid t tr = dput sid t tr"

definition tracker_unregister :: "socket_id \<Rightarrow> tracker \<Rightarrow> tracker" where
  "tracker_unregister sid tr = ddel sid tr"

text \<open>The entries \<open>for_each\<close> visits: those whose mailbox still has a receiver.\<close>

definition tracker_for_each :: "(tracked_connection \<Rightarrow> server \<Rightarrow> server) \<Rightarrow> server \<Rightarrow> server" where
  "tracker_for_each f sv =
     fold (\<lambda>(_, t) sv. if is_closed (tk_handle t) (d_net (sv_disp sv)) then sv else f t sv)
       (sv_tracker sv) sv"

section \<open>Fields\<close>

lemma on_disp_simps [simp]:
  "sv_disp (on_disp f sv) = f (sv_disp sv)"
  "sv_config (on_disp f sv) = sv_config sv"
  "sv_webhooks (on_disp f sv) = sv_webhooks sv"
  "sv_draining (on_disp f sv) = sv_draining sv"
  "sv_tracker (on_disp f sv) = sv_tracker sv"
  "sv_conns (on_disp f sv) = sv_conns sv"
  "sv_event_size (on_disp f sv) = sv_event_size sv"
  by (simp_all add: on_disp_def)

lemma sv_enqueue_simps [simp]:
  "sv_disp (sv_enqueue now aid ev sv) = sv_disp sv"
  "sv_config (sv_enqueue now aid ev sv) = sv_config sv"
  "sv_draining (sv_enqueue now aid ev sv) = sv_draining sv"
  "sv_tracker (sv_enqueue now aid ev sv) = sv_tracker sv"
  "sv_conns (sv_enqueue now aid ev sv) = sv_conns sv"
  "sv_event_size (sv_enqueue now aid ev sv) = sv_event_size sv"
  by (simp_all add: sv_enqueue_def)

section \<open>Steps of the shared state\<close>

definition config_ok :: "config \<Rightarrow> bool" where
  "config_ok cf \<longleftrightarrow>
     distinct (dkeys (ai_by_id (cf_apps cf))) \<and> dall (\<lambda>aid app. app_id app = aid) (ai_by_id (cf_apps cf))"

lemma config_ok_id: "config_ok cf \<Longrightarrow> app_by_id aid cf = Some app \<Longrightarrow> app_id app = aid"
  by (auto simp: config_ok_def app_by_id_def dest: dall_get)

lemma config_ok_build:
  assumes "build_app_index E raws = Inr (cf_apps cf)"
  shows "config_ok cf"
proof -
  let ?e = "\<lparr>ai_by_id = [], ai_by_key = []\<rparr>"
  from build_apps_sound [of E raws ?e "cf_apps cf"] assms obtain apps where
    a: "map (compile_app E) raws = map Inr apps" "fresh_raws raws ?e" "cf_apps cf = add_apps apps ?e"
    by (auto simp: build_app_index_def)
  have keys: "dkeys (keyed app_id xs) = map app_id xs" and "dall (\<lambda>aid app. app_id app = aid) (keyed app_id xs)" for xs :: "application list"
    by (induction xs) (simp_all add: keyed_def dall_def)
  with a(2) compiled_ids [OF a(1)] show ?thesis
    by (simp add: config_ok_def a(3) add_apps_def fresh_raws_def)
qed

text \<open>
  A change of the registry's view that keeps the dispatcher's invariant and touches nothing else of
  what the node knows about its own connections. \<open>quiet\<close> steps change no view at all.
\<close>

definition schange ::
  "((app_id \<Rightarrow> registry_view) \<Rightarrow> app_id \<Rightarrow> registry_view) \<Rightarrow> server \<Rightarrow> server \<Rightarrow> bool" where
  "schange v sv sv' \<longleftrightarrow>
     sv_config sv' = sv_config sv \<and> sv_draining sv' = sv_draining sv \<and>
     sv_tracker sv' = sv_tracker sv \<and> sv_conns sv' = sv_conns sv \<and>
     (disp_wf (sv_disp sv) \<longrightarrow>
        disp_wf (sv_disp sv') \<and> boxes (d_net (sv_disp sv')) = boxes (d_net (sv_disp sv)) \<and>
        reg_view (sv_channels sv') = v (reg_view (sv_channels sv)))"

definition quiet :: "server \<Rightarrow> server \<Rightarrow> bool" where
  "quiet = schange (\<lambda>r. r)"

lemma schange_trans: "schange v sv sv' \<Longrightarrow> schange w sv' sv'' \<Longrightarrow> schange (\<lambda>r. w (v r)) sv sv''"
  by (simp add: schange_def)

lemma schange_quiet: "quiet sv sv' \<Longrightarrow> schange w sv' sv'' \<Longrightarrow> schange w sv sv''"
  unfolding quiet_def by (drule (1) schange_trans) simp

lemma quiet_schange: "schange w sv sv' \<Longrightarrow> quiet sv' sv'' \<Longrightarrow> schange w sv sv''"
  unfolding quiet_def by (drule (1) schange_trans) simp

interpretation calm: step_preorder quiet
  by unfold_locales (simp add: quiet_def schange_def, metis quiet_def schange_quiet)

lemma quiet_disp: "(\<And>d. dstep d (f d)) \<Longrightarrow> quiet sv (on_disp f sv)"
  by (simp add: quiet_def schange_def sv_channels_def dstep_def)

lemma quiet_disp_at: "dstep (sv_disp sv) d \<Longrightarrow> quiet sv (sv\<lparr>sv_disp := d\<rparr>)"
  by (simp add: quiet_def schange_def sv_channels_def dstep_def)

lemma quiet_enqueue: "quiet sv (sv_enqueue now aid ev sv)"
  by (simp add: quiet_def schange_def sv_channels_def)

lemma quiet_try_send: "quiet sv (sv_try_send h msg sv)"
  unfolding sv_try_send_def by (rule quiet_disp) (simp add: dstep_updates)

lemma quiet_transition_sink: "quiet sv (transition_sink now sv)"
proof -
  let ?f = "\<lambda>(app, t). sv_enqueue now (app_id app) (transition_event t)"
  let ?sv = "fold ?f (d_reported (sv_disp sv)) sv"
  have same: "sv_disp (fold ?f rs s) = sv_disp s" for rs s
    by (induction rs arbitrary: s) (simp_all add: case_prod_beta)
  have "quiet sv ?sv" by (rule calm.fold_step) (simp add: case_prod_beta quiet_enqueue)
  also have "quiet ?sv (?sv\<lparr>sv_disp := (sv_disp ?sv)\<lparr>d_reported := []\<rparr>\<rparr>)"
    by (rule quiet_disp_at) (rule dstep_updates(7))
  finally show ?thesis by (simp only: transition_sink_def same)
qed

lemma quiet_incoming: "quiet sv (sv_incoming E now env sv)"
  unfolding sv_incoming_def
  by (rule calm.after [OF quiet_transition_sink]) (rule quiet_disp_at [OF dstep_handle_incoming])

text \<open>A change of the registry alone.\<close>

lemma schange_channels:
  assumes "quiet sv sv1" "mgr_wf (sv_channels sv) \<Longrightarrow> mgr_wf mgr"
    and "mgr_wf (sv_channels sv) \<Longrightarrow> reg_view mgr = v (reg_view (sv_channels sv))"
  shows "schange v sv (on_disp (\<lambda>d. d\<lparr>d_channels := mgr\<rparr>) sv1)"
proof -
  have fields: "sv_config sv1 = sv_config sv" "sv_draining sv1 = sv_draining sv"
    "sv_tracker sv1 = sv_tracker sv" "sv_conns sv1 = sv_conns sv"
    using assms(1) by (simp_all add: quiet_def schange_def)
  show ?thesis
  proof (cases "disp_wf (sv_disp sv)")
    case True
    then have mgr: "mgr_wf (sv_channels sv)" by (simp add: disp_wf_def sv_channels_def)
    from True assms(1) have d1: "disp_wf (sv_disp sv1)"
      and box: "boxes (d_net (sv_disp sv1)) = boxes (d_net (sv_disp sv))"
      by (simp_all add: quiet_def schange_def)
    have "disp_wf ((sv_disp sv1)\<lparr>d_channels := mgr\<rparr>)"
      using d1 assms(2) [OF mgr] by (simp add: disp_wf_def)
    then show ?thesis
      unfolding schange_def on_disp_simps sv_channels_def using fields box assms(3) [OF mgr]
      by (simp add: sv_channels_def)
  qed (simp add: schange_def fields)
qed

lemmas quiet_after =
  calm.after [OF quiet_enqueue] calm.after [OF quiet_try_send]

section \<open>A sample node\<close>

definition sample_config :: config where
  "sample_config =
     \<lparr>cf_server = compile_server raw_server_default,
      cf_apps = \<lparr>ai_by_id = [(''1'', sample_app)], ai_by_key = [(''key'', sample_app)]\<rparr>\<rparr>"

definition sample_server :: server where
  "sample_server = with_provider ''node'' False 100 sample_config"

lemma sample_server_simps:
  "sv_config sample_server = sample_config" "sv_draining sample_server = False"
  "sv_tracker sample_server = []" "sv_conns sample_server = []"
  "app_by_id ''1'' sample_config = Some sample_app" "app_by_key ''key'' sample_config = Some sample_app"
  "sc_path (cf_server sample_config) = []" "sc_max_request_size (cf_server sample_config) = 10000"
  "d_channels (sv_disp sample_server) = manager_new" "d_net (sv_disp sample_server) = []"
  by (simp_all add: sample_server_def with_provider_def sample_config_def app_by_id_def app_by_key_def
      compile_server_def raw_server_default_def dispatcher_new_def sample_app_def)

lemma config_ok_sample: "config_ok sample_config"
  by (simp add: config_ok_def sample_config_def dall_def sample_app_def)

lemma disp_wf_provider: "disp_wf (sv_disp (with_provider node scaling sz cf))"
  using disp_wf_new [of node scaling "publish_overflow_of (cf_server cf)"]
  by (simp add: with_provider_def disp_wf_def)

end
