(* ===== verification/Ws_Handler.thy ===== *)
theory Ws_Handler
  imports Server_State
begin

text \<open>
  The protocol handlers of a WebSocket connection (\<open>zatat-ws/src/handler.rs\<close>): subscribing,
  unsubscribing, signing in, client events, and the clean-up when a connection ends. A handler
  takes the connection and the node's state and returns the reply to write, if any, with both.
\<close>

section \<open>Reading a frame\<close>

definition MAX_WATCHLIST_SIZE :: nat where
  "MAX_WATCHLIST_SIZE = 100"

definition json_or_null :: "ext \<Rightarrow> string \<Rightarrow> json" where
  "json_or_null E s = (case x_from_str E s of Some v \<Rightarrow> v | None \<Rightarrow> JNull)"

definition data_object :: "ext \<Rightarrow> json \<Rightarrow> (string \<times> json) list" where
  "data_object E data =
     (let obj = (case data of JString s \<Rightarrow> json_or_null E s | v \<Rightarrow> v)
      in case obj of JObject m \<Rightarrow> fold (\<lambda>(k, v). bt_put k v) m [] | _ \<Rightarrow> [])"

definition field_str :: "(string \<times> json) list \<Rightarrow> string \<Rightarrow> string option" where
  "field_str obj k = Option.bind (map_of obj k) json_as_str"

text \<open>An id is a string, or a number as it prints.\<close>

fun id_text :: "json \<Rightarrow> string option" where
  "id_text (JString s) = Some s"
| "id_text (JNumber n) = Some n"
| "id_text _ = None"

section \<open>What follows from joining and leaving\<close>

definition occupied_on_peers :: "instant \<Rightarrow> application \<Rightarrow> string \<Rightarrow> channel_kind \<Rightarrow> server \<Rightarrow> bool" where
  "occupied_on_peers now app channel kind sv =
     (if is_presence kind
      then remote_members_for now (app_id app) channel (d_presence_cache (sv_disp sv)) \<noteq> []
      else pcc_sum now (app_id app) channel (d_peer_channel_counts (sv_disp sv)) > 0)"

definition sv_broadcast_protocol :: "string \<Rightarrow> socket_id option \<Rightarrow> channel \<Rightarrow> server \<Rightarrow> server" where
  "sv_broadcast_protocol frame except ch =
     on_disp (\<lambda>d. d\<lparr>d_net := broadcast_protocol frame except ch (d_net d)\<rparr>)"

definition announce_subscription_count ::
  "ext \<Rightarrow> instant \<Rightarrow> application \<Rightarrow> channel \<Rightarrow> nat \<Rightarrow> bool \<Rightarrow> server \<Rightarrow> server" where
  "announce_subscription_count E now app ch local_count vacated_withheld sv =
     (let channel = ch_name ch;
          sv1 =
            (if emit_subscription_count app
             then
               (let peer_sum = pcc_sum now (app_id app) channel (d_peer_channel_counts (sv_disp sv));
                    total = local_count + peer_sum
                in sv_enqueue now (app_id app) (WhSubscriptionCount channel total)
                     (sv_broadcast_protocol (subscription_count E channel total) None ch sv))
             else sv)
      in on_disp (publish_subscription_count E now app channel local_count vacated_withheld) sv1)"

text \<open>
  The closure \<open>admit\<close>, run under the channel's transition lock. Its own state is what it stores for
  later: the remote members it read and whether the user is on a peer.
\<close>

definition admit_member ::
  "instant \<Rightarrow> application \<Rightarrow> string \<Rightarrow> presence_member option \<Rightarrow> channel \<Rightarrow>
   server \<times> presence_snapshot_member list \<times> bool \<Rightarrow> bool \<times> server \<times> presence_snapshot_member list \<times> bool" where
  "admit_member now app channel presence ch st =
     (case st of (sv, _, _) \<Rightarrow>
        case presence of
          None \<Rightarrow> (True, st)
        | Some pm \<Rightarrow>
            (let cache = d_presence_cache (sv_disp sv);
                 remote = remote_members_for now (app_id app) channel cache;
                 remotely_present =
                   pc_is_present_excluding now (app_id app) channel (pm_user_id pm) None cache;
                 cap = max_presence_members_per_channel app;
                 remote_only = fold hs_insert
                   (filter (\<lambda>uid. \<not> has_user_id uid ch) (map psm_user_id remote)) []
             in (if has_user_id (pm_user_id pm) ch \<or> remotely_present then True
                 else user_count ch + length remote_only < cap,
                 sv, remote, remotely_present)))"

definition on_subscribed ::
  "ext \<Rightarrow> instant \<Rightarrow> application \<Rightarrow> socket_id \<Rightarrow> string \<Rightarrow> presence_member option \<Rightarrow> bool \<Rightarrow>
   channel \<Rightarrow> subscribe_result \<Rightarrow> server \<times> presence_snapshot_member list \<times> bool \<Rightarrow>
   server \<times> presence_snapshot_member list \<times> bool" where
  "on_subscribed E now app sid channel presence occupied_elsewhere ch r st =
     (case st of (sv, remote, remotely_present) \<Rightarrow>
        if \<not> sr_was_new r then st
        else
          (let sv1 = (if sr_member_count r = 1 \<and> \<not> occupied_elsewhere
                      then sv_enqueue now (app_id app) (WhChannelOccupied channel) sv else sv)
           in case presence of
                None \<Rightarrow>
                  (announce_subscription_count E now app ch (sr_member_count r) False sv1,
                   remote, remotely_present)
              | Some pm \<Rightarrow>
                  if \<not> sr_user_added r then (sv1, remote, remotely_present)
                  else
                    (let sv2 =
                       (if \<not> remotely_present
                        then sv_enqueue now (app_id app) (WhMemberAdded channel (pm_user_id pm))
                               (sv_broadcast_protocol
                                  (member_added E channel (pm_user_id pm) (pm_user_info pm))
                                  (Some sid) ch sv1)
                        else sv1)
                     in (on_disp (publish_member_added E now app channel (pm_user_id pm)
                           (pm_user_info pm)) sv2, remote, remotely_present))))"

definition on_unsubscribed ::
  "ext \<Rightarrow> instant \<Rightarrow> application \<Rightarrow> string \<Rightarrow> channel \<Rightarrow> unsubscribe_outcome \<Rightarrow> server \<Rightarrow> server" where
  "on_unsubscribed E now app channel ch outcome sv =
     (let kind = from_name channel in
      if \<not> uo_was_member outcome then sv
      else
        (let vacated_withheld =
               uo_member_count outcome = 0 \<and> occupied_on_peers now app channel kind sv;
             sv1 = (if vacated_withheld then on_disp (note_withheld now app channel None) sv
                    else if uo_member_count outcome = 0
                    then sv_enqueue now (app_id app) (WhChannelVacated channel) sv
                    else sv)
         in if \<not> is_presence kind
            then announce_subscription_count E now app ch (uo_member_count outcome)
                   vacated_withheld sv1
            else
              case uo_user_removed outcome of
                None \<Rightarrow> sv1
              | Some uid \<Rightarrow>
                  (let still_remotely =
                         pc_is_present_excluding now (app_id app) channel uid None
                           (d_presence_cache (sv_disp sv1));
                       sv2 = (if still_remotely
                              then on_disp (note_withheld now app channel (Some uid)) sv1
                              else sv_enqueue now (app_id app) (WhMemberRemoved channel uid)
                                     (sv_broadcast_protocol (member_removed E channel uid) None ch sv1))
                   in on_disp (publish_member_removed E now app channel uid still_remotely
                        vacated_withheld) sv2)))"

definition leave_channel ::
  "ext \<Rightarrow> instant \<Rightarrow> application \<Rightarrow> socket_id \<Rightarrow> string \<Rightarrow> server \<Rightarrow> server" where
  "leave_channel E now app sid channel sv =
     (case unsubscribe_with now (app_id app) channel sid (on_unsubscribed E now app channel)
             (sv_channels sv) sv of
        (_, mgr, sv1) \<Rightarrow> on_disp (\<lambda>d. d\<lparr>d_channels := mgr\<rparr>) sv1)"

section \<open>Subscribing\<close>

definition merge_presence :: "presence_data \<Rightarrow> presence_snapshot_member list \<Rightarrow> presence_data" where
  "merge_presence loc remote =
     (let (hash, ids) =
        fold (\<lambda>m (hash, ids).
          if map_of hash (psm_user_id m) = None
          then (bt_put (psm_user_id m)
                  (case psm_user_info m of Some v \<Rightarrow> v | None \<Rightarrow> JNull) hash,
                bs_insert (psm_user_id m) ids)
          else (hash, ids)) remote (pd_hash loc, bs_of (pd_ids loc))
      in \<lparr>pd_count = length ids, pd_ids = ids, pd_hash = hash\<rparr>)"

text \<open>The checks that come before the presence data: the name, the token and the cap.\<close>

definition check_subscription ::
  "ext \<Rightarrow> application \<Rightarrow> connection \<Rightarrow> (string \<times> json) list \<Rightarrow> string + string" where
  "check_subscription E app conn obj =
     (case field_str obj ''channel'' of
        None \<Rightarrow> Inl (error_frame E InvalidMessageFormat)
      | Some channel \<Rightarrow>
          if length channel > MAX_CHANNEL_NAME_LEN then Inl (error_frame E InvalidMessageFormat)
          else if \<not> is_valid_channel_name channel then Inl (error_frame E InvalidMessageFormat)
          else if is_private (from_name channel) \<and>
                  (case field_str obj ''auth'' of
                     None \<Rightarrow> True
                   | Some auth \<Rightarrow>
                       verify_channel_auth E (app_key app) (c_socket_id conn) channel
                         (field_str obj ''channel_data'') auth (app_secret app) \<noteq> Inr ())
          then Inl (error_frame E Unauthorized)
          else if \<not> is_subscribed channel conn \<and>
                  conn_subscription_count conn \<ge> max_channels_per_connection app
          then Inl (error_with_message E 4301
                 ''Connection is subscribed to the maximum number of channels'')
          else Inr channel)"

definition presence_request ::
  "ext \<Rightarrow> application \<Rightarrow> channel_kind \<Rightarrow> string option \<Rightarrow> string + presence_member option" where
  "presence_request E app kind channel_data =
     (if \<not> is_presence kind then Inr None
      else
        case channel_data of
          None \<Rightarrow> Inl (error_frame E InvalidMessageFormat)
        | Some cd \<Rightarrow>
            if length cd > max_presence_member_size_bytes app
            then Inl (error_with_message E 4301 ''Presence member data exceeds limit'')
            else
              (let parsed = json_or_null E cd in
               case Option.bind (json_get parsed ''user_id'') id_text of
                 None \<Rightarrow> Inl (error_frame E InvalidMessageFormat)
               | Some uid \<Rightarrow>
                   Inr (Some \<lparr>pm_user_id = uid, pm_user_info = json_get parsed ''user_info''\<rparr>)))"

text \<open>The frame that confirms a subscription, with the fleet's roster for a presence channel.\<close>

definition succeeded_frame ::
  "ext \<Rightarrow> string \<Rightarrow> presence_data option \<Rightarrow> presence_snapshot_member list \<Rightarrow> string" where
  "succeeded_frame E channel snapshot remote =
     (if is_presence (from_name channel)
      then case map_option (\<lambda>loc. if remote = [] then loc else merge_presence loc remote) snapshot of
             Some p \<Rightarrow> subscription_succeeded_with_presence E channel p
           | None \<Rightarrow> subscription_succeeded E channel None
      else subscription_succeeded E channel None)"

text \<open>The replay of a cache channel's last event, or the notice that there is none.\<close>

definition cache_replay ::
  "ext \<Rightarrow> instant \<Rightarrow> application \<Rightarrow> connection_handle \<Rightarrow> string \<Rightarrow> string option \<Rightarrow> server \<Rightarrow> server" where
  "cache_replay E now app h channel cached sv =
     (if \<not> is_cache (from_name channel) then sv
      else
        case cached of
          Some payload \<Rightarrow> sv_try_send h (Text payload) sv
        | None \<Rightarrow>
            (let (notify, sv1) =
               (case find_channel (app_id app) channel (sv_channels sv) of
                  None \<Rightarrow> (False, sv)
                | Some ch \<Rightarrow>
                    (case claim_cache_miss_notification now ch of (ok, ch') \<Rightarrow>
                       (ok, on_disp (\<lambda>d. d\<lparr>d_channels :=
                              store_channel (app_id app) ch' (d_channels d)\<rparr>) sv)));
                 sv2 = (if notify then sv_enqueue now (app_id app) (WhCacheMiss channel) sv1 else sv1)
             in sv_try_send h (Text (cache_miss E channel)) sv2))"

definition handle_subscribe ::
  "ext \<Rightarrow> instant \<Rightarrow> application \<Rightarrow> connection_handle \<Rightarrow> json \<Rightarrow> connection \<Rightarrow> server \<Rightarrow>
   string option \<times> connection \<times> server" where
  "handle_subscribe E now app h data conn sv =
     (let obj = data_object E data in
      case check_subscription E app conn obj of
        Inl reply \<Rightarrow> (Some reply, conn, sv)
      | Inr channel \<Rightarrow>
          (case presence_request E app (from_name channel) (field_str obj ''channel_data'') of
             Inl reply \<Rightarrow> (Some reply, conn, sv)
           | Inr presence \<Rightarrow>
               (let occupied_elsewhere = occupied_on_peers now app channel (from_name channel) sv in
                case subscribe_with now app channel (c_socket_id conn) h presence
                       (admit_member now app channel presence)
                       (on_subscribed E now app (c_socket_id conn) channel presence occupied_elsewhere)
                       (sv_channels sv) (sv, [], False) of
                  (outcome, mgr, sv1, remote, _) \<Rightarrow>
                    (let sv2 = on_disp (\<lambda>d. d\<lparr>d_channels := mgr\<rparr>) sv1 in
                     case outcome of
                       None \<Rightarrow>
                         (Some (error_with_message E 4301 ''Presence channel is over capacity''),
                          conn, sv2)
                     | Some out \<Rightarrow>
                         (Some (succeeded_frame E channel (so_presence_snapshot out) remote),
                          add_subscription channel conn,
                          cache_replay E now app h channel (so_cached_payload out) sv2)))))"

definition handle_unsubscribe ::
  "ext \<Rightarrow> instant \<Rightarrow> application \<Rightarrow> json \<Rightarrow> connection \<Rightarrow> server \<Rightarrow>
   string option \<times> connection \<times> server" where
  "handle_unsubscribe E now app data conn sv =
     (case field_str (data_object E data) ''channel'' of
        None \<Rightarrow> (None, conn, sv)
      | Some channel \<Rightarrow>
          (None, remove_subscription channel conn,
           leave_channel E now app (c_socket_id conn) channel sv))"

section \<open>Signing in\<close>

definition fanout_watchlist_event :: "ext \<Rightarrow> app_id \<Rightarrow> string \<Rightarrow> string \<Rightarrow> dispatcher \<Rightarrow> dispatcher" where
  "fanout_watchlist_event E aid uid event d =
     fold (\<lambda>watcher d. d_send (watchlist_frame E event uid)
             (connections_for_user aid watcher (d_channels d)) d)
       (watchers_of aid uid (d_channels d)) d"

definition online_frame :: "ext \<Rightarrow> string list \<Rightarrow> string" where
  "online_frame E uids =
     encode_envelope E ''pusher_internal:watchlist_events''
       (Some (JObject [(''events'', JArray [JObject
          [(''name'', JString ''online''), (''user_ids'', JArray (map JString uids))]])])) None"

text \<open>Registering the watchlist of a user that signs in, and the frame with those already online.\<close>

definition start_watching ::
  "ext \<Rightarrow> instant \<Rightarrow> app_id \<Rightarrow> string \<Rightarrow> connection_handle \<Rightarrow> string list \<Rightarrow> dispatcher \<Rightarrow> dispatcher" where
  "start_watching E now aid uid h list d =
     (let d1 = d\<lparr>d_channels := fold (\<lambda>watched. add_watcher aid watched uid) list (d_channels d)\<rparr>;
          online = filter (\<lambda>u. is_user_online aid u (d_channels d1) \<or>
                     pus_is_present_excluding now aid u None (d_peer_user_sessions d1)) list
      in d_send (online_frame E online) [h] d1)"

definition signin_transition ::
  "ext \<Rightarrow> instant \<Rightarrow> application \<Rightarrow> string \<Rightarrow> socket_id \<Rightarrow> connection_handle \<Rightarrow> string list option \<Rightarrow>
   dispatcher \<Rightarrow> dispatcher" where
  "signin_transition E now app uid sid h watchlist d =
     (let was_online_locally = is_user_online (app_id app) uid (d_channels d);
          was_online_remotely =
            pus_is_present_excluding now (app_id app) uid None (d_peer_user_sessions d);
          (first_local_socket, mgr) = bind_user (app_id app) uid sid (d_channels d);
          d1 = d\<lparr>d_channels := mgr\<rparr>;
          d2 = (case watchlist of
                  None \<Rightarrow> d1
                | Some list \<Rightarrow> start_watching E now (app_id app) uid h list d1);
          d3 = (if \<not> was_online_locally \<and> \<not> was_online_remotely
                then fanout_watchlist_event E (app_id app) uid ''online'' d2 else d2)
      in if first_local_socket then publish_user_online E now app uid d3 else d3)"

text \<open>
  The identity a sign-in proves: the token must be the one the application's secret signs for this
  socket and user data, and the data must carry a non-empty id.
\<close>

definition check_signin ::
  "ext \<Rightarrow> application \<Rightarrow> connection \<Rightarrow> (string \<times> json) list \<Rightarrow> string + string \<times> json \<times> string" where
  "check_signin E app conn obj =
     (case field_str obj ''auth'' of
        None \<Rightarrow> Inl (error_frame E Unauthorized)
      | Some auth \<Rightarrow>
          (case field_str obj ''user_data'' of
             None \<Rightarrow> Inl (error_frame E Unauthorized)
           | Some user_data \<Rightarrow>
               if verify_user_auth E (app_key app) (c_socket_id conn) user_data auth (app_secret app)
                    \<noteq> Inr ()
               then Inl (error_frame E Unauthorized)
               else
                 (let parsed = json_or_null E user_data in
                  case Option.bind (json_get parsed ''id'') id_text of
                    None \<Rightarrow> Inl (error_frame E InvalidMessageFormat)
                  | Some uid \<Rightarrow>
                      if uid = [] then Inl (error_frame E InvalidMessageFormat)
                      else Inr (user_data, parsed, uid))))"

text \<open>The watchlist of a sign-in and whether it was cut; \<^const>\<open>None\<close> when it is malformed.\<close>

definition parse_watchlist :: "json \<Rightarrow> (bool \<times> string list option) option" where
  "parse_watchlist parsed =
     (case json_get parsed ''watchlist'' of
        None \<Rightarrow> Some (False, None)
      | Some (JArray arr) \<Rightarrow>
          Some (length arr > MAX_WATCHLIST_SIZE,
                Some (List.map_filter json_as_str (take MAX_WATCHLIST_SIZE arr)))
      | Some _ \<Rightarrow> None)"

definition handle_signin ::
  "ext \<Rightarrow> instant \<Rightarrow> application \<Rightarrow> connection_handle \<Rightarrow> json \<Rightarrow> connection \<Rightarrow> server \<Rightarrow>
   string option \<times> connection \<times> server" where
  "handle_signin E now app h data conn sv =
     (case check_signin E app conn (data_object E data) of
        Inl reply \<Rightarrow> (Some reply, conn, sv)
      | Inr (user_data, parsed, uid) \<Rightarrow>
          (case c_user_id conn of
             Some existing_user \<Rightarrow>
               (Some (if existing_user = uid then signin_success E user_data
                      else error_frame E Unauthorized), conn, sv)
           | None \<Rightarrow>
               (case parse_watchlist parsed of
                  None \<Rightarrow> (Some (error_frame E InvalidMessageFormat), conn, sv)
                | Some (truncated, watchlist) \<Rightarrow>
                    (let conn1 = conn_bind_user uid conn;
                         conn2 = (case watchlist of None \<Rightarrow> conn1 | Some list \<Rightarrow> set_watchlist list conn1);
                         sv1 = on_disp (with_user_transition (app_id app) uid
                                 (signin_transition E now app uid (c_socket_id conn) h watchlist)) sv;
                         sv2 = (if truncated
                                then sv_try_send h (Text (error_with_message E 4302
                                       ''Watchlist exceeds 100 users; only the first 100 are watched'')) sv1
                                else sv1)
                     in (Some (signin_success E user_data), conn2, sv2)))))"

section \<open>Client events\<close>

definition data_text :: "ext \<Rightarrow> json \<Rightarrow> string" where
  "data_text E data = (case data of JString s \<Rightarrow> s | v \<Rightarrow> x_to_string E v)"

definition handle_client_event ::
  "ext \<Rightarrow> instant \<Rightarrow> application \<Rightarrow> string \<Rightarrow> inbound_frame \<Rightarrow> connection \<Rightarrow> server \<Rightarrow>
   string option \<times> connection \<times> server" where
  "handle_client_event E now app event frame conn sv =
     (if accept_client_events_from app = AcceptNone
      then (Some (error_frame E ClientEventsDisabled), conn, sv)
      else
        case if_channel frame of
          None \<Rightarrow> (Some (error_frame E InvalidMessageFormat), conn, sv)
        | Some channel \<Rightarrow>
            if \<not> is_private (from_name channel)
            then (Some (error_frame E ClientEventsDisabled), conn, sv)
            else
              case find_channel (app_id app) channel (sv_channels sv) of
                None \<Rightarrow> (Some (error_frame E NotChannelMember), conn, sv)
              | Some ch \<Rightarrow>
                  if \<not> ch_contains (c_socket_id conn) ch
                  then (Some (error_frame E NotChannelMember), conn, sv)
                  else
                    (let data = data_text E (if_data frame);
                         sender = (if is_presence (from_name channel)
                                   then presence_user_id (c_socket_id conn) ch else None);
                         encoded = encode_client_event event data channel sender;
                         sv1 = on_disp (\<lambda>d. d\<lparr>d_net :=
                                 broadcast_client_event encoded (Some (c_socket_id conn)) ch (d_net d)\<rparr>) sv;
                         sv2 = on_disp (publish_client_event E now app channel event data
                                 (c_socket_id conn) sender) sv1;
                         reporter = (case sender of Some u \<Rightarrow> Some u | None \<Rightarrow> c_user_id conn)
                     in (None, conn,
                         sv_enqueue now (app_id app)
                           (WhClientEvent channel event data (Some (c_socket_id conn)) reporter) sv2)))"

section \<open>Dispatch and clean-up\<close>

definition live_app :: "application \<Rightarrow> server \<Rightarrow> application" where
  "live_app app sv = (case app_by_id (app_id app) (sv_config sv) of Some a \<Rightarrow> a | None \<Rightarrow> app)"

definition handle_inbound ::
  "ext \<Rightarrow> instant \<Rightarrow> application \<Rightarrow> connection_handle \<Rightarrow> string \<Rightarrow> connection \<Rightarrow> server \<Rightarrow>
   string option \<times> connection \<times> server" where
  "handle_inbound E now app0 h text conn sv =
     (let app = live_app app0 sv in
      case parse_inbound E text of
        None \<Rightarrow> (Some (error_frame E InvalidMessageFormat), conn, sv)
      | Some frame \<Rightarrow>
          (let ev = if_event frame in
           if ev = ''pusher:ping'' then (Some (pong_frame E), conn, sv)
           else if ev = ''pusher:subscribe'' then handle_subscribe E now app h (if_data frame) conn sv
           else if ev = ''pusher:unsubscribe'' then handle_unsubscribe E now app (if_data frame) conn sv
           else if ev = ''pusher:signin'' then handle_signin E now app h (if_data frame) conn sv
           else if starts_with ev ''client-''
           then if length ev > MAX_EVENT_NAME_LEN
                then (Some (error_frame E InvalidMessageFormat), conn, sv)
                else handle_client_event E now app ev frame conn sv
           else (None, conn, sv)))"

definition user_departure ::
  "ext \<Rightarrow> instant \<Rightarrow> application \<Rightarrow> string \<Rightarrow> socket_id \<Rightarrow> dispatcher \<Rightarrow> dispatcher" where
  "user_departure E now app uid sid d =
     (let (last_socket, mgr) = unbind_user (app_id app) uid sid (d_channels d);
          d1 = d\<lparr>d_channels := mgr\<rparr>
      in if \<not> last_socket then d1
         else
           (let still_remotely =
                  pus_is_present_excluding now (app_id app) uid None (d_peer_user_sessions d1);
                d2 = (if \<not> still_remotely
                      then fanout_watchlist_event E (app_id app) uid ''offline'' d1 else d1);
                d3 = publish_user_offline E now app uid d2
            in d3\<lparr>d_channels := remove_all_watches_for (app_id app) uid (d_channels d3)\<rparr>))"

definition cleanup_connection ::
  "ext \<Rightarrow> instant \<Rightarrow> application \<Rightarrow> connection \<Rightarrow> socket_id \<Rightarrow> server \<Rightarrow> server" where
  "cleanup_connection E now app conn sid sv =
     (let sv1 = fold (leave_channel E now app sid) (c_subscriptions conn) sv;
          sv2 = (case c_user_id conn of
                   None \<Rightarrow> sv1
                 | Some uid \<Rightarrow>
                     on_disp (with_user_transition (app_id app) uid
                       (user_departure E now app uid sid)) sv1)
      in on_disp (\<lambda>d. d\<lparr>d_channels := unregister_connection (app_id app) sid (d_channels d)\<rparr>) sv2)"

end
