(* ===== verification/Ws_Session.thy ===== *)
theory Ws_Session
  imports Ws_Handler
begin

text \<open>
  The life of one WebSocket connection (\<open>run_connection\<close> in \<open>zatat-ws/src/handler.rs\<close>) and the
  routes that lead to it (\<open>zatat-ws/src/router.rs\<close>).

  \<open>tokio::select!\<close> takes any branch that is ready, so one turn of the connection's loop is a function
  of the branch taken; a branch that is not ready changes nothing. How a write ends is an input as
  well. The sink holds every frame the server handed to the transport, in order.
\<close>

section \<open>The routes\<close>

definition url_host_or_self :: "string \<Rightarrow> string" where
  "url_host_or_self raw =
     (case split_once ''://'' raw of
        None \<Rightarrow> raw
      | Some (_, rest) \<Rightarrow>
          (let authority = takeWhile (\<lambda>c. c \<noteq> CHR ''/'') rest
           in case strip_prefix authority ''['' of
                Some inner \<Rightarrow> takeWhile (\<lambda>c. c \<noteq> CHR '']'') inner
              | None \<Rightarrow> takeWhile (\<lambda>c. c \<noteq> CHR '':'') authority))"

text \<open>\<open>saturating_mul\<close> of a \<open>u32\<close> widened to \<open>usize\<close>.\<close>

definition transport_message_limit :: "nat \<Rightarrow> nat" where
  "transport_message_limit app_max_message_size =
     max (min (app_max_message_size * 4) (2 ^ 64 - 1)) (64 * 1024)"

text \<open>
  What an upgrade request leads to: a plain HTTP answer, an upgrade that is closed at once with a
  code and a reason, or a connection of an application under a transport limit.
\<close>

datatype upgrade =
    HttpReply nat string
  | RejectWith nat nat string
  | AcceptFor nat application "string option"

definition EM_DASH :: string where
  "EM_DASH = [CHR 0xE2, CHR 0x80, CHR 0x94]"

definition health :: "server \<Rightarrow> nat \<times> string" where
  "health sv = (if is_draining sv then (503, ''draining'') else (200, ''ok''))"

definition origin_blocked :: "ext \<Rightarrow> application \<Rightarrow> string option \<Rightarrow> bool" where
  "origin_blocked E app origin =
     (case origin of Some o' \<Rightarrow> \<not> origin_is_allowed E app (url_host_or_self o') | None \<Rightarrow> False)"

definition ws_upgrade ::
  "ext \<Rightarrow> string \<Rightarrow> string option \<Rightarrow> string option \<Rightarrow> server \<Rightarrow> upgrade" where
  "ws_upgrade E key protocol origin sv =
     (if is_draining sv then HttpReply 503 ''server is shutting down''
      else
        case app_by_key key (sv_config sv) of
          None \<Rightarrow>
            RejectWith (64 * 1024) 4001
              (''Application does not exist for key '' @ [CHR 0x27] @ key @ [CHR 0x27])
        | Some app \<Rightarrow>
            (let limit = transport_message_limit (max_message_size app);
                 supported = (case protocol of
                   None \<Rightarrow> True | Some p \<Rightarrow> p \<in> set [''5'', ''6'', ''7''])
             in if \<not> supported
                then RejectWith limit 4007
                       (''Unsupported protocol version '' @ [CHR 0x27] @ the protocol @ [CHR 0x27] @
                        '' '' @ EM_DASH @ '' server supports 5, 6, 7'')
                else if origin_blocked E app origin
                then RejectWith limit 4009
                       (''Origin '' @ [CHR 0x27] @ (case origin of Some o' \<Rightarrow> o' | None \<Rightarrow> []) @ [CHR 0x27] @
                        '' is not in the allowed list for app '' @ [CHR 0x27] @ app_id app @ [CHR 0x27])
                else AcceptFor limit app origin))"

section \<open>Frames and sessions\<close>

datatype server_frame = SText string | SClose nat string

datatype client_frame = CText string | CBinaryOrPing | CClose

record session =
  ss_app :: application
  ss_handle :: connection_handle
  ss_limiter :: "rate_limiter option"
  ss_terminate_on_limit :: bool
  ss_sink :: "server_frame list"
  ss_running :: bool

definition MAILBOX_CAPACITY :: nat where
  "MAILBOX_CAPACITY = 4096"

definition close_frames :: "ext \<Rightarrow> nat \<Rightarrow> string \<Rightarrow> server_frame list" where
  "close_frames E c reason = [SText (error_with_message E c reason), SClose c reason]"

text \<open>A connection that the router rejects: the error, the close frame, and nothing else.\<close>

definition run_rejected_connection :: "ext \<Rightarrow> nat \<Rightarrow> string \<Rightarrow> server_frame list" where
  "run_rejected_connection E c reason = close_frames E c reason"

definition ss_send :: "server_frame list \<Rightarrow> session \<Rightarrow> session" where
  "ss_send frames ss = ss\<lparr>ss_sink := ss_sink ss @ frames\<rparr>"

definition new_mailbox :: mailbox where
  "new_mailbox = \<lparr>mb_queue = [], mb_capacity = MAILBOX_CAPACITY, mb_closed = False, mb_kick = False\<rparr>"

definition fresh_sender :: "net \<Rightarrow> nat" where
  "fresh_sender net = Suc (fold max (dkeys net) 0)"

definition session_limiter :: "application \<Rightarrow> rate_limiter option" where
  "session_limiter app =
     (case rate_limiting app of
        Some r \<Rightarrow> if rl_enabled r then Some (rate_limiter_new (rl_max_attempts r) (rl_decay_seconds r)) else None
      | None \<Rightarrow> None)"

text \<open>Dropping the receiver of the mailbox and the task's hold on the connection.\<close>

definition drop_connection :: "nat \<Rightarrow> server \<Rightarrow> server" where
  "drop_connection tx sv =
     (on_disp (\<lambda>d. d\<lparr>d_net := (case dget (d_net d) tx of
         Some mb \<Rightarrow> dput tx (mb\<lparr>mb_closed := True\<rparr>) (d_net d) | None \<Rightarrow> d_net d)\<rparr>) sv)
       \<lparr>sv_conns := ddel tx (sv_conns sv)\<rparr>"

text \<open>
  The first half of \<open>run_connection\<close>, up to the loop: the socket id is the one drawn, \<open>ok\<close> whether the
  greeting could be written.
\<close>

definition open_connection ::
  "ext \<Rightarrow> int \<Rightarrow> application \<Rightarrow> socket_id \<Rightarrow> string option \<Rightarrow> bool \<Rightarrow> server \<Rightarrow> session \<times> server" where
  "open_connection E wall app sid origin ok sv =
     (let tx = fresh_sender (d_net (sv_disp sv));
          h = \<lparr>h_socket_id = sid, h_tx = tx\<rparr>;
          sv0 = (on_disp (\<lambda>d. d\<lparr>d_net := dput tx new_mailbox (d_net d)\<rparr>) sv)
                  \<lparr>sv_conns := dput tx (connection_new wall app sid origin) (sv_conns sv)\<rparr>;
          ss = \<lparr>ss_app = app, ss_handle = h, ss_limiter = session_limiter app,
                ss_terminate_on_limit = (case rate_limiting app of
                  Some c \<Rightarrow> rl_terminate_on_limit c | None \<Rightarrow> False),
                ss_sink = [], ss_running = True\<rparr>
      in case register_connection app h (sv_channels sv0) of
           (Inl _, mgr) \<Rightarrow>
             ((ss_send (close_frames E 4004 (message OverConnectionQuota)) ss)\<lparr>ss_running := False\<rparr>,
              drop_connection tx (on_disp (\<lambda>d. d\<lparr>d_channels := mgr\<rparr>) sv0))
         | (Inr _, mgr) \<Rightarrow>
             (let sv1 = on_disp (\<lambda>d. d\<lparr>d_channels := mgr\<rparr>) sv0;
                  sv2 = sv1\<lparr>sv_tracker := tracker_register sid \<lparr>tk_conn = tx, tk_handle = h\<rparr> (sv_tracker sv1)\<rparr>;
                  ss1 = ss_send [SText (connection_established E sid (activity_timeout app))] ss
              in if ok then (ss1, sv2)
                 else
                   (ss1\<lparr>ss_running := False\<rparr>,
                    drop_connection tx
                      (on_disp (\<lambda>d. d\<lparr>d_channels := unregister_connection (app_id app) sid (d_channels d)\<rparr>)
                        (sv2\<lparr>sv_tracker := tracker_unregister sid (sv_tracker sv2)\<rparr>)))))"

section \<open>One turn of the loop\<close>

datatype write_end = Written | WriteFailed | KickedMeanwhile | DrainedMeanwhile

datatype loop_event =
    Draining
  | Kicked
  | Outgoing write_end
  | Incoming "client_frame option" bool

text \<open>Leaving the loop: the clean-up that follows it.\<close>

definition close_session :: "ext \<Rightarrow> instant \<Rightarrow> session \<Rightarrow> server \<Rightarrow> session \<times> server" where
  "close_session E now ss sv =
     (let sid = h_socket_id (ss_handle ss);
          tx = h_tx (ss_handle ss);
          sv1 = sv\<lparr>sv_tracker := tracker_unregister sid (sv_tracker sv)\<rparr>;
          sv2 = (case dget (sv_conns sv1) tx of
                   Some conn \<Rightarrow> cleanup_connection E now (ss_app ss) conn sid sv1
                 | None \<Rightarrow> sv1)
      in (ss\<lparr>ss_running := False\<rparr>, drop_connection tx sv2))"

definition going_away :: "ext \<Rightarrow> instant \<Rightarrow> session \<Rightarrow> server \<Rightarrow> session \<times> server" where
  "going_away E now ss sv = close_session E now (ss_send [SClose 1001 ''server going away''] ss) sv"

definition kicked_out :: "ext \<Rightarrow> instant \<Rightarrow> session \<Rightarrow> server \<Rightarrow> session \<times> server" where
  "kicked_out E now ss sv =
     close_session E now (ss_send (close_frames E 4301 ''slow subscriber'') ss) sv"

definition put_mailbox :: "nat \<Rightarrow> mailbox \<Rightarrow> server \<Rightarrow> server" where
  "put_mailbox tx mb = on_disp (\<lambda>d. d\<lparr>d_net := dput tx mb (d_net d)\<rparr>)"

text \<open>Writing the next frame of the mailbox, which a kick or the shutdown may interrupt.\<close>

definition write_next ::
  "ext \<Rightarrow> instant \<Rightarrow> write_end \<Rightarrow> string \<Rightarrow> mailbox \<Rightarrow> session \<Rightarrow> server \<Rightarrow> session \<times> server" where
  "write_next E now w text mb ss sv =
     (case w of
        Written \<Rightarrow> (ss_send [SText text] ss, sv)
      | WriteFailed \<Rightarrow> close_session E now (ss_send [SText text] ss) sv
      | KickedMeanwhile \<Rightarrow>
          kicked_out E now ss (put_mailbox (h_tx (ss_handle ss)) (mb\<lparr>mb_kick := False\<rparr>) sv)
      | DrainedMeanwhile \<Rightarrow> going_away E now ss sv)"

definition write_ready :: "write_end \<Rightarrow> mailbox \<Rightarrow> server \<Rightarrow> bool" where
  "write_ready w mb sv \<longleftrightarrow>
     (case w of KickedMeanwhile \<Rightarrow> mb_kick mb | DrainedMeanwhile \<Rightarrow> is_draining sv | _ \<Rightarrow> True)"

definition outgoing_turn ::
  "ext \<Rightarrow> instant \<Rightarrow> write_end \<Rightarrow> mailbox \<Rightarrow> session \<Rightarrow> server \<Rightarrow> session \<times> server" where
  "outgoing_turn E now w mb ss sv =
     (case mb_queue mb of
        [] \<Rightarrow> (ss, sv)
      | msg # rest \<Rightarrow>
          if \<not> write_ready w mb sv then (ss, sv)
          else
            (let mb1 = mb\<lparr>mb_queue := rest\<rparr>;
                 sv1 = put_mailbox (h_tx (ss_handle ss)) mb1 sv
             in case msg of
                  Text t \<Rightarrow> write_next E now w t mb1 ss sv1
                | Ping \<Rightarrow> write_next E now w (ping_frame E) mb1 ss sv1
                | Close c reason \<Rightarrow> close_session E now (ss_send (close_frames E c reason) ss) sv1))"

definition limiter_check :: "instant \<Rightarrow> session \<Rightarrow> bool \<times> session" where
  "limiter_check now ss =
     (case ss_limiter ss of
        None \<Rightarrow> (True, ss)
      | Some rl \<Rightarrow> (case check now rl of (ok, rl') \<Rightarrow> (ok, ss\<lparr>ss_limiter := Some rl'\<rparr>)))"

definition set_conn :: "nat \<Rightarrow> connection \<Rightarrow> server \<Rightarrow> server" where
  "set_conn tx conn sv = sv\<lparr>sv_conns := dput tx conn (sv_conns sv)\<rparr>"

text \<open>A reply, after which the loop goes on if it could be written.\<close>

definition reply_or_close ::
  "ext \<Rightarrow> instant \<Rightarrow> bool \<Rightarrow> string \<Rightarrow> session \<Rightarrow> server \<Rightarrow> session \<times> server" where
  "reply_or_close E now ok text ss sv =
     (let ss1 = ss_send [SText text] ss in if ok then (ss1, sv) else close_session E now ss1 sv)"

definition incoming_turn ::
  "ext \<Rightarrow> instant \<Rightarrow> int \<Rightarrow> client_frame \<Rightarrow> bool \<Rightarrow> connection \<Rightarrow> session \<Rightarrow> server \<Rightarrow> session \<times> server" where
  "incoming_turn E now wall frame ok conn ss sv =
     (let tx = h_tx (ss_handle ss);
          conn1 = touch wall conn;
          sv1 = set_conn tx conn1 sv
      in case limiter_check now ss of
           (False, ss1) \<Rightarrow>
             reply_or_close E now (ok \<and> \<not> ss_terminate_on_limit ss1)
               (error_frame E RateLimitExceeded) ss1 sv1
         | (True, ss1) \<Rightarrow>
             (case frame of
                CText text \<Rightarrow>
                  if length text > max_message_size (ss_app ss1)
                  then reply_or_close E now ok (error_frame E InvalidMessageFormat) ss1 sv1
                  else
                    (case handle_inbound E now (ss_app ss1) (ss_handle ss1) text conn1 sv1 of
                       (reply, conn2, sv2) \<Rightarrow>
                         (let sv3 = set_conn tx conn2 sv2 in
                          case reply of
                            Some response \<Rightarrow> reply_or_close E now ok response ss1 sv3
                          | None \<Rightarrow> (ss1, sv3)))
              | _ \<Rightarrow> (ss1, sv1)))"

definition run_turn ::
  "ext \<Rightarrow> instant \<Rightarrow> int \<Rightarrow> loop_event \<Rightarrow> session \<Rightarrow> server \<Rightarrow> session \<times> server" where
  "run_turn E now wall ev ss sv =
     (case (ss_running ss, dget (d_net (sv_disp sv)) (h_tx (ss_handle ss)),
            dget (sv_conns sv) (h_tx (ss_handle ss))) of
        (True, Some mb, Some conn) \<Rightarrow>
          (case ev of
             Draining \<Rightarrow> if is_draining sv then going_away E now ss sv else (ss, sv)
           | Kicked \<Rightarrow>
               if mb_kick mb
               then kicked_out E now ss (put_mailbox (h_tx (ss_handle ss)) (mb\<lparr>mb_kick := False\<rparr>) sv)
               else (ss, sv)
           | Outgoing w \<Rightarrow> outgoing_turn E now w mb ss sv
           | Incoming None ok \<Rightarrow> close_session E now ss sv
           | Incoming (Some CClose) ok \<Rightarrow> close_session E now ss sv
           | Incoming (Some frame) ok \<Rightarrow> incoming_turn E now wall frame ok conn ss sv)
      | _ \<Rightarrow> (ss, sv))"

end
