(* ===== verification/Handler_Effects.thy ===== *)
theory Handler_Effects
  imports Ws_Handler
begin

text \<open>
  What a frame from a client can do to a node: every handler's effect on the view of the registry
  (\<open>zatat-ws/src/handler.rs\<close>). A frame changes memberships and sessions of its own socket only, in one
  of four ways, each warranted by what the frame carries; ending a connection removes its socket
  from everything it was recorded in.
\<close>

section \<open>What a frame can change\<close>

text \<open>The consequences of a join or a leave are announcements: no membership changes in them.\<close>

lemma quiet_broadcast: "quiet sv (sv_broadcast_protocol frame except ch sv)"
  unfolding sv_broadcast_protocol_def by (rule quiet_disp) (simp add: dstep_updates)

lemma quiet_publish: "quiet sv (on_disp (publish_payload E now app seq payload) sv)"
  by (rule quiet_disp) (rule dstep_publish)

lemma quiet_publishes:
  "quiet sv (on_disp (publish_subscription_count E now app channel n w) sv)"
  "quiet sv (on_disp (publish_member_added E now app channel uid info) sv)"
  "quiet sv (on_disp (publish_member_removed E now app channel uid wh vw) sv)"
  "quiet sv (on_disp (publish_client_event E now app channel event data sid uo) sv)"
  "quiet sv (on_disp (note_withheld now app channel uo) sv)"
  by (rule quiet_disp; simp add: publish_subscription_count_def publish_member_added_def
        publish_member_removed_def publish_client_event_def dstep_publish dstep_note_withheld)+

lemmas quiet_shape =
  calm.if_step calm.option_step quiet_after calm.after [OF quiet_broadcast]
  calm.after [OF quiet_publishes(1)] calm.after [OF quiet_publishes(2)]
  calm.after [OF quiet_publishes(3)] calm.after [OF quiet_publishes(4)]
  calm.after [OF quiet_publishes(5)] calm.refl

lemma quiet_announce: "quiet sv (announce_subscription_count E now app ch n w sv)"
  unfolding announce_subscription_count_def Let_def by (intro quiet_shape)

lemma quiet_on_unsubscribed: "quiet sv (on_unsubscribed E now app channel ch outcome sv)"
  unfolding on_unsubscribed_def Let_def by (intro quiet_shape calm.after [OF quiet_announce])

lemma admit_member_state: "fst (snd (admit_member now app channel presence ch (sv, x))) = sv"
  by (simp add: admit_member_def Let_def case_prod_beta split: option.split)

lemma quiet_on_subscribed:
  "quiet (fst st) (fst (on_subscribed E now app sid channel presence occ ch r st))"
proof -
  obtain sv remote present where st: "st = (sv, remote, present)" by (cases st)
  have "quiet sv (fst (on_subscribed E now app sid channel presence occ ch r (sv, remote, present)))"
  proof (cases presence)
    case None
    then show ?thesis
      by (auto simp: on_subscribed_def Let_def calm.refl
            intro: calm.after [OF quiet_announce] quiet_announce quiet_enqueue)
  next
    case (Some pm)
    have "quiet sv (on_disp (publish_member_added E now app channel (pm_user_id pm) (pm_user_info pm))
        (if b then sv_enqueue now a ev (sv_broadcast_protocol fr (Some sid) ch (if b' then sv_enqueue now a' ev' sv else sv))
         else if b' then sv_enqueue now a' ev' sv else sv))" for b b' a a' ev ev' fr
      by (intro quiet_shape)
    with Some show ?thesis
      by (auto simp: on_subscribed_def Let_def calm.refl quiet_enqueue)
  qed
  then show ?thesis by (simp add: st)
qed

text \<open>Leaving a channel takes the socket out of that channel and changes no other membership.\<close>

definition at_app :: "app_id \<Rightarrow> (registry_view \<Rightarrow> registry_view) \<Rightarrow> (app_id \<Rightarrow> registry_view) \<Rightarrow> app_id \<Rightarrow> registry_view" where
  "at_app aid f r = r(aid := f (r aid))"

lemma at_app_simps [simp]:
  "at_app aid f r aid = f (r aid)" "a \<noteq> aid \<Longrightarrow> at_app aid f r a = r a"
  "at_app aid f (at_app aid g r) = at_app aid (\<lambda>v. f (g v)) r"
  "at_app aid (\<lambda>v. v) r = r"
  by (simp_all add: at_app_def)

lemma unsubscribe_with_state:
  assumes "\<And>ch out s. quiet s (f ch out s)"
  shows "quiet sv (snd (snd (unsubscribe_with now aid channel sid f mgr sv)))"
  using assms by (auto simp: unsubscribe_with_def Let_def case_prod_beta calm.refl split: option.split)

lemma leave_channel_change:
  "schange (at_app (app_id app) (view_leave channel sid)) sv (leave_channel E now app sid channel sv)"
proof -
  let ?r = "unsubscribe_with now (app_id app) channel sid (on_unsubscribed E now app channel)
      (sv_channels sv) sv"
  have "quiet sv (snd (snd ?r))" by (rule unsubscribe_with_state) (rule quiet_on_unsubscribed)
  then have "schange (at_app (app_id app) (view_leave channel sid)) sv
      (on_disp (\<lambda>d. d\<lparr>d_channels := fst (snd ?r)\<rparr>) (snd (snd ?r)))"
    by (rule schange_channels) (auto simp: at_app_def reg_view_unsubscribe)
  then show ?thesis by (simp add: leave_channel_def case_prod_beta)
qed

lemma subscribe_with_state:
  assumes admit: "\<And>ch. fst (snd (admit ch st)) = fst st"
    and on_sub: "\<And>ch r st. quiet (fst st) (fst (on_sub ch r st))"
  shows "quiet (fst st) (fst (snd (snd (subscribe_with now app name sid h p admit on_sub mgr st))))"
    and "fst (subscribe_with now app name sid h p admit on_sub mgr st) = None \<longleftrightarrow>
           \<not> fst (admit (channel_at app name mgr) st)"
proof -
  let ?ch = "channel_at app name mgr"
  show "quiet (fst st) (fst (snd (snd (subscribe_with now app name sid h p admit on_sub mgr st))))"
  proof (cases "fst (admit ?ch st)")
    case True
    obtain r ch1 where "subscribe sid h p ?ch = (r, ch1)" by fastforce
    with True on_sub [of "snd (admit ?ch st)" ch1 r] show ?thesis
      unfolding subscribe_with_cases Let_def by (simp add: case_prod_beta admit)
  next
    case False
    then show ?thesis
      unfolding subscribe_with_cases Let_def by (simp add: case_prod_beta admit calm.refl)
  qed
  show "fst (subscribe_with now app name sid h p admit on_sub mgr st) = None \<longleftrightarrow> \<not> fst (admit ?ch st)"
    unfolding subscribe_with_cases Let_def by (simp add: case_prod_beta)
qed

lemma quiet_cache_replay: "quiet sv (cache_replay E now app h channel cached sv)"
proof (cases "find_channel (app_id app) channel (sv_channels sv)")
  case None
  then show ?thesis
    unfolding cache_replay_def Let_def
    by (intro calm.if_step calm.option_step calm.refl) (simp_all add: quiet_try_send)
next
  case (Some ch)
  let ?ch = "snd (claim_cache_miss_notification now ch)"
  let ?d = "\<lambda>d. d\<lparr>d_channels := store_channel (app_id app) ?ch (d_channels d)\<rparr>"
  have "mgr_wf (sv_channels sv) \<Longrightarrow> mgr_wf (store_channel (app_id app) ?ch (sv_channels sv)) \<and>
      reg_view (store_channel (app_id app) ?ch (sv_channels sv)) = reg_view (sv_channels sv)"
    using mgr_wf_find [OF _ Some] Some ch_wf_claim [of ch now]
    by (auto simp: channel_entry_ok_def ch_is_empty_def claim_cache_miss_notification_def
          intro!: mgr_wf_store reg_view_store)
  then have "quiet sv (on_disp ?d sv)"
    using dstep_updates(4) [of "sv_disp sv"] by (simp add: on_disp_def sv_channels_def quiet_disp_at)
  then have "quiet sv (sv_try_send h (Text (cache_miss E channel))
      (if b then sv_enqueue now (app_id app) (WhCacheMiss channel) (on_disp ?d sv) else on_disp ?d sv))" for b
    by (intro quiet_after calm.if_step)
  with Some show ?thesis
    unfolding cache_replay_def Let_def
    by (intro calm.if_step calm.option_step calm.refl) (simp_all add: quiet_try_send case_prod_beta)
qed

text \<open>Subscribing either changes no membership or adds the socket to a channel that passed the checks.\<close>

lemma handle_subscribe_change:
  assumes "handle_subscribe E now app h data conn sv = (reply, conn', sv')"
  shows "(conn' = conn \<and> quiet sv sv') \<or>
         (\<exists>channel. check_subscription E app conn (data_object E data) = Inr channel \<and>
            conn' = add_subscription channel conn \<and>
            schange (at_app (app_id app) (view_join channel (c_socket_id conn))) sv sv')"
proof (cases "check_subscription E app conn (data_object E data)")
  case (Inr channel)
  note check = Inr
  let ?sid = "c_socket_id conn"
  show ?thesis
  proof (cases "presence_request E app (from_name channel) (field_str (data_object E data) ''channel_data'')")
    case (Inr presence)
    let ?admit = "admit_member now app channel presence"
    let ?on = "on_subscribed E now app ?sid channel presence
      (occupied_on_peers now app channel (from_name channel) sv)"
    let ?st = "(sv, [] :: presence_snapshot_member list, False)"
    let ?r = "subscribe_with now app channel ?sid h presence ?admit ?on (sv_channels sv) ?st"
    let ?sv2 = "on_disp (\<lambda>d. d\<lparr>d_channels := fst (snd ?r)\<rparr>) (fst (snd (snd ?r)))"
    have state: "quiet sv (fst (snd (snd ?r)))"
      using subscribe_with_state(1) [of ?admit ?st ?on now app channel ?sid h presence "sv_channels sv"]
      by (simp add: admit_member_state quiet_on_subscribed)
    note none = subscribe_with_state(2) [of ?admit ?st ?on now app channel ?sid h presence "sv_channels sv",
        simplified admit_member_state quiet_on_subscribed fst_conv simp_thms]
    have change: "schange (if fst ?r = None then (\<lambda>r. r) else at_app (app_id app) (view_join channel ?sid))
        sv ?sv2"
      using state by (rule schange_channels) (auto simp: reg_view_subscribe none at_app_def)
    show ?thesis
    proof (cases "fst ?r")
      case None
      then have "conn' = conn \<and> sv' = ?sv2"
        using assms check Inr by (auto simp: handle_subscribe_def Let_def case_prod_beta)
      with change None show ?thesis by (simp add: quiet_def)
    next
      case (Some out)
      then have res: "conn' = add_subscription channel conn \<and>
          sv' = cache_replay E now app h channel (so_cached_payload out) ?sv2"
        using assms check Inr by (auto simp: handle_subscribe_def Let_def case_prod_beta)
      from change Some have "schange (at_app (app_id app) (view_join channel ?sid)) sv ?sv2" by simp
      from quiet_schange [OF this quiet_cache_replay] check res show ?thesis by auto
    qed
  qed (use assms check in \<open>simp add: handle_subscribe_def calm.refl\<close>)
qed (use assms in \<open>simp add: handle_subscribe_def calm.refl\<close>)

text \<open>The same for a dispatcher, for what happens under a user's lock.\<close>

definition dchange ::
  "((app_id \<Rightarrow> registry_view) \<Rightarrow> app_id \<Rightarrow> registry_view) \<Rightarrow> dispatcher \<Rightarrow> dispatcher \<Rightarrow> bool" where
  "dchange v d d' \<longleftrightarrow>
     (disp_wf d \<longrightarrow> disp_wf d' \<and> boxes (d_net d') = boxes (d_net d) \<and>
        reg_view (d_channels d') = v (reg_view (d_channels d)))"

lemma dchange_step: "dstep d d' \<Longrightarrow> dchange (\<lambda>r. r) d d'"
  by (simp add: dchange_def dstep_def)

lemma dchange_trans: "dchange v d d' \<Longrightarrow> dchange w d' d'' \<Longrightarrow> dchange (\<lambda>r. w (v r)) d d''"
  by (simp add: dchange_def)

lemma dchange_dstep: "dchange v d d' \<Longrightarrow> dstep d' d'' \<Longrightarrow> dchange v d d''"
  by (simp add: dchange_def dstep_def)

lemma dstep_dchange: "dstep d d' \<Longrightarrow> dchange v d' d'' \<Longrightarrow> dchange v d d''"
  by (simp add: dchange_def dstep_def)

lemma dchange_channels:
  "(mgr_wf (d_channels d) \<Longrightarrow> mgr_wf mgr \<and> reg_view mgr = v (reg_view (d_channels d))) \<Longrightarrow>
     dchange v d (d\<lparr>d_channels := mgr\<rparr>)"
  by (simp add: dchange_def disp_wf_def)

lemma dchange_user_transition:
  assumes "\<And>d. dchange v d (body d)"
  shows "dchange v d (with_user_transition aid uid body d)"
proof -
  let ?d1 = "d\<lparr>d_channels := user_lock_enter aid uid (d_channels d)\<rparr>"
  have "dstep d ?d1" by (simp add: dstep_updates mgr_wf_lock_enter)
  from dstep_dchange [OF this assms [of ?d1]]
  have "dchange v d ((body ?d1)\<lparr>d_channels := user_lock_exit aid uid (d_channels (body ?d1))\<rparr>)"
    by (rule dchange_dstep) (simp add: dstep_updates mgr_wf_lock_exit)
  then show ?thesis by (simp add: with_user_transition_def Let_def)
qed

lemma schange_disp: "(\<And>d. dchange v d (f d)) \<Longrightarrow> schange v sv (on_disp f sv)"
  by (simp add: schange_def dchange_def sv_channels_def)

lemma dstep_fanout: "dstep d (fanout_watchlist_event E aid uid event d)"
  unfolding fanout_watchlist_event_def
  by (rule disp.fold_step) (rule dstep_net_only [OF net_only_send])

lemma dstep_start_watching: "dstep d (start_watching E now aid uid h list d)"
proof -
  have "reg_view (fold (\<lambda>watched. add_watcher aid watched uid) xs mgr) = reg_view mgr"
    and "mgr_wf mgr \<Longrightarrow> mgr_wf (fold (\<lambda>watched. add_watcher aid watched uid) xs mgr)" for xs mgr
    by (induction xs arbitrary: mgr) (simp_all add: mgr_wf_add_watcher)
  then show ?thesis
    unfolding start_watching_def Let_def
    by (intro disp.after [OF dstep_net_only [OF net_only_send]] dstep_updates(4)) simp
qed

lemma signin_change:
  "dchange (at_app (app_id app) (view_bind uid sid)) d (signin_transition E now app uid sid h watchlist d)"
proof -
  let ?d1 = "d\<lparr>d_channels := snd (bind_user (app_id app) uid sid (d_channels d))\<rparr>"
  have bind: "dchange (at_app (app_id app) (view_bind uid sid)) d ?d1"
    by (rule dchange_channels) (auto simp: reg_view_bind at_app_def)
  have after: "dstep d (if first then publish_user_online E now app uid (if b then
        fanout_watchlist_event E (app_id app) uid ev (case watchlist of None \<Rightarrow> d | Some l \<Rightarrow> start_watching E now (app_id app) uid h l d)
        else (case watchlist of None \<Rightarrow> d | Some l \<Rightarrow> start_watching E now (app_id app) uid h l d))
      else (if b then
        fanout_watchlist_event E (app_id app) uid ev (case watchlist of None \<Rightarrow> d | Some l \<Rightarrow> start_watching E now (app_id app) uid h l d)
        else (case watchlist of None \<Rightarrow> d | Some l \<Rightarrow> start_watching E now (app_id app) uid h l d)))"
    for first b ev d
    unfolding publish_user_online_def
    by (intro disp.if_step disp.option_step disp.after [OF dstep_publish] disp.after [OF dstep_fanout]
        dstep_start_watching disp.refl)
  show ?thesis
    using dchange_dstep [OF bind after]
    by (simp add: signin_transition_def Let_def case_prod_beta)
qed

lemma departure_change:
  "dchange (at_app (app_id app) (view_unbind uid sid)) d (user_departure E now app uid sid d)"
proof -
  let ?d1 = "d\<lparr>d_channels := snd (unbind_user (app_id app) uid sid (d_channels d))\<rparr>"
  have unbind: "dchange (at_app (app_id app) (view_unbind uid sid)) d ?d1"
    by (rule dchange_channels) (auto simp: reg_view_unbind at_app_def)
  have drop: "dstep d (d\<lparr>d_channels := remove_all_watches_for (app_id app) uid (d_channels d)\<rparr>)" for d
    by (rule dstep_updates(4)) auto
  have "dstep d ((publish_user_offline E now app uid (if b then fanout_watchlist_event E (app_id app) uid ev d else d))
      \<lparr>d_channels := remove_all_watches_for (app_id app) uid (d_channels
         (publish_user_offline E now app uid (if b then fanout_watchlist_event E (app_id app) uid ev d else d)))\<rparr>)"
    for b ev d
    unfolding publish_user_offline_def
    by (rule disp.trans [OF _ drop])
       (intro disp.if_step disp.after [OF dstep_publish] dstep_fanout disp.refl)
  from dchange_dstep [OF unbind this] unbind show ?thesis
    by (simp add: user_departure_def Let_def case_prod_beta)
qed

lemma handle_signin_change:
  assumes "handle_signin E now app h data conn sv = (reply, conn', sv')"
  shows "(conn' = conn \<and> quiet sv sv') \<or>
         (\<exists>user_data parsed uid. check_signin E app conn (data_object E data) = Inr (user_data, parsed, uid) \<and>
            c_user_id conn = None \<and> c_user_id conn' = Some uid \<and>
            c_app conn' = c_app conn \<and> c_socket_id conn' = c_socket_id conn \<and>
            c_origin conn' = c_origin conn \<and> c_subscriptions conn' = c_subscriptions conn \<and>
            schange (at_app (app_id app) (view_bind uid (c_socket_id conn))) sv sv')"
proof (cases "check_signin E app conn (data_object E data)")
  case (Inr ident)
  obtain user_data parsed uid where id: "ident = (user_data, parsed, uid)" by (cases ident)
  show ?thesis
  proof (cases "c_user_id conn")
    case None
    show ?thesis
    proof (cases "parse_watchlist parsed")
      case (Some wl)
      obtain truncated watchlist where wl: "wl = (truncated, watchlist)" by (cases wl)
      let ?sv1 = "on_disp (with_user_transition (app_id app) uid
          (signin_transition E now app uid (c_socket_id conn) h watchlist)) sv"
      have "schange (at_app (app_id app) (view_bind uid (c_socket_id conn))) sv ?sv1"
        by (intro schange_disp dchange_user_transition signin_change)
      from quiet_schange [OF this calm.if_step [OF quiet_try_send calm.refl]]
      have "schange (at_app (app_id app) (view_bind uid (c_socket_id conn))) sv sv'"
        using assms Inr id None Some wl by (auto simp: handle_signin_def Let_def)
      moreover have "c_user_id conn' = Some uid \<and> c_app conn' = c_app conn \<and>
          c_socket_id conn' = c_socket_id conn \<and> c_origin conn' = c_origin conn \<and>
          c_subscriptions conn' = c_subscriptions conn"
        using assms Inr id None Some wl
        by (auto simp: handle_signin_def Let_def conn_bind_user_def set_watchlist_def split: option.splits)
      ultimately show ?thesis using Inr id None by auto
    qed (use assms Inr id None in \<open>simp add: handle_signin_def calm.refl\<close>)
  qed (use assms Inr id in \<open>simp add: handle_signin_def calm.refl\<close>)
qed (use assms in \<open>simp add: handle_signin_def calm.refl\<close>)

lemma handle_client_event_quiet:
  assumes "handle_client_event E now app event frame conn sv = (reply, conn', sv')"
  shows "conn' = conn \<and> quiet sv sv'"
proof -
  have "quiet sv (sv_enqueue now aid ev (on_disp (publish_client_event E now app channel e data sid uo)
      (on_disp (\<lambda>d. d\<lparr>d_net := broadcast_client_event fr ex ch (d_net d)\<rparr>) sv)))" for aid ev channel e data sid uo fr ex ch
    by (intro quiet_shape quiet_disp) (simp add: dstep_updates)
  with assms show ?thesis
    unfolding handle_client_event_def Let_def
    by (auto simp: calm.refl split: if_splits option.splits)
qed

text \<open>
  The four things a frame can do to the registry, what each does to the view and to the connection,
  and what must be in the frame for it to happen.
\<close>

datatype frame_effect = NoEffect | Joins string | Leaves string | SignsIn string

fun view_effect :: "socket_id \<Rightarrow> frame_effect \<Rightarrow> registry_view \<Rightarrow> registry_view" where
  "view_effect sid NoEffect v = v"
| "view_effect sid (Joins channel) v = view_join channel sid v"
| "view_effect sid (Leaves channel) v = view_leave channel sid v"
| "view_effect sid (SignsIn uid) v = view_bind uid sid v"

definition conn_after :: "frame_effect \<Rightarrow> connection \<Rightarrow> connection \<Rightarrow> bool" where
  "conn_after eff conn conn' \<longleftrightarrow>
     c_app conn' = c_app conn \<and> c_socket_id conn' = c_socket_id conn \<and> c_origin conn' = c_origin conn \<and>
     c_user_id conn' = (case eff of SignsIn uid \<Rightarrow> Some uid | _ \<Rightarrow> c_user_id conn) \<and>
     c_subscriptions conn' =
       (case eff of Joins channel \<Rightarrow> hs_insert channel (c_subscriptions conn)
        | Leaves channel \<Rightarrow> hs_remove channel (c_subscriptions conn)
        | _ \<Rightarrow> c_subscriptions conn)"

definition frame_fields :: "ext \<Rightarrow> string \<Rightarrow> string \<Rightarrow> (string \<times> json) list option" where
  "frame_fields E text event =
     (case parse_inbound E text of
        Some frame \<Rightarrow> if if_event frame = event then Some (data_object E (if_data frame)) else None
      | None \<Rightarrow> None)"

fun warranted :: "ext \<Rightarrow> application \<Rightarrow> connection \<Rightarrow> string \<Rightarrow> frame_effect \<Rightarrow> bool" where
  "warranted E app conn text NoEffect = True"
| "warranted E app conn text (Joins channel) =
     (case frame_fields E text ''pusher:subscribe'' of
        None \<Rightarrow> False
      | Some obj \<Rightarrow>
          field_str obj ''channel'' = Some channel \<and> is_valid_channel_name channel \<and>
          (is_subscribed channel conn \<or>
           conn_subscription_count conn < max_channels_per_connection app) \<and>
          (is_private (from_name channel) \<longrightarrow>
             (case field_str obj ''auth'' of
                None \<Rightarrow> False
              | Some auth \<Rightarrow> verify_channel_auth E (app_key app) (c_socket_id conn) channel
                  (field_str obj ''channel_data'') auth (app_secret app) = Inr ())))"
| "warranted E app conn text (Leaves channel) =
     (case frame_fields E text ''pusher:unsubscribe'' of
        None \<Rightarrow> False
      | Some obj \<Rightarrow> field_str obj ''channel'' = Some channel)"
| "warranted E app conn text (SignsIn uid) =
     (case frame_fields E text ''pusher:signin'' of
        None \<Rightarrow> False
      | Some obj \<Rightarrow>
          c_user_id conn = None \<and> uid \<noteq> [] \<and>
          (case (field_str obj ''auth'', field_str obj ''user_data'') of
             (Some auth, Some user_data) \<Rightarrow>
               verify_user_auth E (app_key app) (c_socket_id conn) user_data auth (app_secret app) = Inr () \<and>
               Option.bind (json_get (json_or_null E user_data) ''id'') id_text = Some uid
           | _ \<Rightarrow> False))"

lemma check_subscription_warrants:
  "check_subscription E app conn obj = Inr channel \<Longrightarrow> frame_fields E text ''pusher:subscribe'' = Some obj \<Longrightarrow>
     warranted E app conn text (Joins channel)"
  by (auto simp: check_subscription_def split: option.splits if_splits)

lemma check_signin_warrants:
  "check_signin E app conn obj = Inr (user_data, parsed, uid) \<Longrightarrow> c_user_id conn = None \<Longrightarrow>
     frame_fields E text ''pusher:signin'' = Some obj \<Longrightarrow> warranted E app conn text (SignsIn uid)"
  by (auto simp: check_signin_def Let_def split: option.splits if_splits)

lemma live_app_id: "config_ok (sv_config sv) \<Longrightarrow> app_id (live_app app sv) = app_id app"
  by (auto simp: live_app_def config_ok_id split: option.split)

lemma conn_after_NoEffect: "conn_after NoEffect conn conn"
  by (simp add: conn_after_def)

lemma schange_NoEffect: "quiet sv sv' \<Longrightarrow> schange (at_app aid (view_effect sid NoEffect)) sv sv'"
proof -
  have "at_app aid (view_effect sid NoEffect) = (\<lambda>r. r)" by (auto simp: at_app_def)
  then show "quiet sv sv' \<Longrightarrow> ?thesis" by (simp add: quiet_def)
qed

lemma view_effect_eqs:
  "view_join channel sid = view_effect sid (Joins channel)"
  "view_leave channel sid = view_effect sid (Leaves channel)"
  "view_bind uid sid = view_effect sid (SignsIn uid)"
  by auto

lemma handle_inbound_change:
  assumes conf: "config_ok (sv_config sv)"
    and res: "handle_inbound E now app0 h text conn sv = (reply, conn', sv')"
  shows "\<exists>eff. warranted E (live_app app0 sv) conn text eff \<and> conn_after eff conn conn' \<and>
           schange (at_app (app_id app0) (view_effect (c_socket_id conn) eff)) sv sv'"
proof (cases "parse_inbound E text")
  case None
  with res show ?thesis
    by (auto simp: handle_inbound_def intro!: exI [of _ NoEffect] conn_after_NoEffect schange_NoEffect calm.refl)
next
  case (Some frame)
  let ?app = "live_app app0 sv" and ?obj = "data_object E (if_data frame)"
  note aid = live_app_id [OF conf, of app0]
  have quietly: ?thesis if "conn' = conn" "quiet sv sv'"
    using that schange_NoEffect [OF that(2)] conn_after_NoEffect by (intro exI [of _ NoEffect]) simp
  have obj: "frame_fields E text ev = Some ?obj" if "if_event frame = ev" for ev
    using Some that by (simp add: frame_fields_def)
  consider "if_event frame = ''pusher:subscribe''" | "if_event frame = ''pusher:unsubscribe''"
    | "if_event frame = ''pusher:signin''"
    | "if_event frame \<notin> {''pusher:subscribe'', ''pusher:unsubscribe'', ''pusher:signin''}" by blast
  then show ?thesis
  proof cases
    case 1
    with res Some have r: "handle_subscribe E now ?app h (if_data frame) conn sv = (reply, conn', sv')"
      by (simp add: handle_inbound_def Let_def)
    from handle_subscribe_change [OF this] show ?thesis
    proof (elim disjE exE conjE)
      fix channel assume c: "check_subscription E ?app conn ?obj = Inr channel"
        "conn' = add_subscription channel conn"
        "schange (at_app (app_id ?app) (view_join channel (c_socket_id conn))) sv sv'"
      then show ?thesis
        using check_subscription_warrants [OF c(1) obj [OF 1]]
        by (intro exI [of _ "Joins channel"])
           (simp add: conn_after_def add_subscription_def aid view_effect_eqs [symmetric])
    qed (rule quietly)
  next
    case 2
    with res Some have r: "handle_unsubscribe E now ?app (if_data frame) conn sv = (reply, conn', sv')"
      by (simp add: handle_inbound_def Let_def)
    show ?thesis
    proof (cases "field_str ?obj ''channel''")
      case None
      with r show ?thesis by (intro quietly) (simp_all add: handle_unsubscribe_def calm.refl)
    next
      case (Some channel)
      with r leave_channel_change [of ?app channel "c_socket_id conn" sv E now] obj [OF 2]
      show ?thesis
        by (intro exI [of _ "Leaves channel"])
           (auto simp: handle_unsubscribe_def conn_after_def remove_subscription_def aid
              view_effect_eqs [symmetric])
    qed
  next
    case 3
    with res Some have r: "handle_signin E now ?app h (if_data frame) conn sv = (reply, conn', sv')"
      by (simp add: handle_inbound_def Let_def)
    from handle_signin_change [OF this] show ?thesis
    proof (elim disjE exE conjE)
      fix user_data parsed uid
      assume c: "check_signin E ?app conn ?obj = Inr (user_data, parsed, uid)" "c_user_id conn = None"
        "c_user_id conn' = Some uid" "c_app conn' = c_app conn" "c_socket_id conn' = c_socket_id conn"
        "c_origin conn' = c_origin conn" "c_subscriptions conn' = c_subscriptions conn"
        "schange (at_app (app_id ?app) (view_bind uid (c_socket_id conn))) sv sv'"
      then show ?thesis
        using check_signin_warrants [OF c(1,2) obj [OF 3]]
        by (intro exI [of _ "SignsIn uid"]) (simp add: conn_after_def aid view_effect_eqs [symmetric])
    qed (rule quietly)
  next
    case 4
    with res Some have "conn' = conn \<and> quiet sv sv'"
      by (auto simp: handle_inbound_def Let_def calm.refl split: if_splits
            dest!: handle_client_event_quiet)
    then show ?thesis by (intro quietly) simp_all
  qed
qed

section \<open>Clean-up\<close>

definition view_gone :: "socket_id \<Rightarrow> string list \<Rightarrow> string option \<Rightarrow> registry_view \<Rightarrow> registry_view" where
  "view_gone sid subs user v =
     \<lparr>vw_members = (\<lambda>n. if n \<in> set subs then vw_members v n - {sid} else vw_members v n),
      vw_users = (\<lambda>u. if user = Some u then vw_users v u - {sid} else vw_users v u),
      vw_handles = (vw_handles v)(sid := None)\<rparr>"

lemma at_app_id: "at_app aid (\<lambda>v. v) = (\<lambda>r. r)"
  by (auto simp: at_app_def)

lemma schange_app_cong:
  "schange (at_app aid f) sv sv' \<Longrightarrow> (\<And>v. f v = g v) \<Longrightarrow> schange (at_app aid g) sv sv'"
  by (simp add: schange_def at_app_def)

lemma schange_app_trans:
  "schange (at_app aid f) sv sv' \<Longrightarrow> schange (at_app aid g) sv' sv'' \<Longrightarrow> (\<And>v. g (f v) = h v) \<Longrightarrow>
     schange (at_app aid h) sv sv''"
  by (drule (1) schange_trans) (simp add: schange_def at_app_def)

lemma leave_all_change:
  "schange (at_app (app_id app) (\<lambda>v. v\<lparr>vw_members := (\<lambda>n. if n \<in> set subs then vw_members v n - {sid}
                                                     else vw_members v n)\<rparr>))
     sv (fold (leave_channel E now app sid) subs sv)"
proof (induction subs arbitrary: sv)
  case Nil
  show ?case using calm.refl [of sv] by (simp add: quiet_def at_app_id)
next
  case (Cons n subs)
  show ?case unfolding fold_simps
    by (rule schange_app_trans [OF leave_channel_change Cons.IH])
       (auto simp: view_leave_def fun_eq_iff intro!: registry_view_eqI)
qed

lemma departed_change:
  "schange (at_app (app_id app) (\<lambda>v. v\<lparr>vw_users := (\<lambda>u. if user = Some u then vw_users v u - {sid} else vw_users v u)\<rparr>))
     sv (case user of None \<Rightarrow> sv
         | Some uid \<Rightarrow> on_disp (with_user_transition (app_id app) uid (user_departure E now app uid sid)) sv)"
proof (cases user)
  case None
  then show ?thesis using calm.refl [of sv] by (simp add: quiet_def at_app_id)
next
  case (Some uid)
  have "schange (at_app (app_id app) (view_unbind uid sid)) sv
      (on_disp (with_user_transition (app_id app) uid (user_departure E now app uid sid)) sv)"
    by (intro schange_disp dchange_user_transition departure_change)
  then show ?thesis unfolding Some option.case
    by (rule schange_app_cong) (auto simp: view_unbind_def fun_eq_iff intro!: registry_view_eqI)
qed

lemma unregister_change:
  "schange (at_app aid (view_handle sid None)) sv
     (on_disp (\<lambda>d. d\<lparr>d_channels := unregister_connection aid sid (d_channels d)\<rparr>) sv)"
  by (rule schange_disp) (auto intro!: dchange_channels simp: reg_view_unregister at_app_def)

lemma cleanup_change:
  "schange (at_app (app_id app) (view_gone sid (c_subscriptions conn) (c_user_id conn))) sv
     (cleanup_connection E now app conn sid sv)"
  unfolding cleanup_connection_def Let_def
  by (rule schange_app_trans [OF schange_app_trans [OF leave_all_change departed_change refl]
        unregister_change])
     (rule registry_view_eqI; simp add: view_gone_def view_handle_def fun_eq_iff)

end
