(* ===== verification/Registry_Mirror.thy ===== *)
theory Registry_Mirror
  imports Ws_Session Handler_Effects
begin

text \<open>
  What it means for the tables of a node (the channel members, the user index, the connection
  handles, the tracker) to mirror its open connections, and how the mirror follows a connection that
  opens, changes or ends.
\<close>

section \<open>The connections of a node\<close>

record live_conn =
  lc_app :: app_id
  lc_handle :: connection_handle
  lc_user :: "string option"
  lc_subs :: "string set"

abbreviation lc_sid :: "live_conn \<Rightarrow> socket_id" where
  "lc_sid l \<equiv> h_socket_id (lc_handle l)"

definition live_of :: "session \<Rightarrow> connection \<Rightarrow> live_conn" where
  "live_of ss c =
     \<lparr>lc_app = app_id (ss_app ss), lc_handle = ss_handle ss, lc_user = c_user_id c,
      lc_subs = set (c_subscriptions c)\<rparr>"

definition live :: "(nat, connection) dmap \<Rightarrow> (nat, session) dmap \<Rightarrow> nat \<Rightarrow> live_conn option" where
  "live conns sessions tx =
     (case dget sessions tx of
        Some ss \<Rightarrow> if ss_running ss then map_option (live_of ss) (dget conns tx) else None
      | None \<Rightarrow> None)"

section \<open>Mirroring\<close>

text \<open>The registry's view as a function of the live connections.\<close>

definition unique_sockets :: "(nat \<Rightarrow> live_conn option) \<Rightarrow> bool" where
  "unique_sockets L \<longleftrightarrow>
     (\<forall>tx tx' l l'. L tx = Some l \<longrightarrow> L tx' = Some l' \<longrightarrow> lc_sid l = lc_sid l' \<longrightarrow> tx = tx')"

text \<open>Some live connection with this socket id satisfies a predicate.\<close>

definition found :: "(nat \<Rightarrow> live_conn option) \<Rightarrow> socket_id \<Rightarrow> (nat \<Rightarrow> live_conn \<Rightarrow> bool) \<Rightarrow> bool" where
  "found L sid Q \<longleftrightarrow> (\<exists>tx l. L tx = Some l \<and> lc_sid l = sid \<and> Q tx l)"

definition mirrors :: "(nat \<Rightarrow> live_conn option) \<Rightarrow> (app_id \<Rightarrow> registry_view) \<Rightarrow> bool" where
  "mirrors L r \<longleftrightarrow>
     (\<forall>aid sid.
        (\<forall>n. sid \<in> vw_members (r aid) n \<longleftrightarrow> found L sid (\<lambda>_ l. lc_app l = aid \<and> n \<in> lc_subs l)) \<and>
        (\<forall>u. sid \<in> vw_users (r aid) u \<longleftrightarrow> found L sid (\<lambda>_ l. lc_app l = aid \<and> lc_user l = Some u)) \<and>
        (\<forall>h. vw_handles (r aid) sid = Some h \<longleftrightarrow> found L sid (\<lambda>_ l. lc_app l = aid \<and> lc_handle l = h)))"

definition tracks :: "(nat \<Rightarrow> live_conn option) \<Rightarrow> tracker \<Rightarrow> bool" where
  "tracks L tr \<longleftrightarrow>
     (\<forall>sid t. dget tr sid = Some t \<longleftrightarrow>
        found L sid (\<lambda>tx l. t = \<lparr>tk_conn = tx, tk_handle = lc_handle l\<rparr>))"

lemma found_own: "unique_sockets L \<Longrightarrow> L tx = Some l \<Longrightarrow> found L (lc_sid l) Q \<longleftrightarrow> Q tx l"
proof -
  assume L: "unique_sockets L" "L tx = Some l"
  then have "tx' = tx \<and> l' = l" if "L tx' = Some l'" "lc_sid l' = lc_sid l" for tx' l'
    using that unfolding unique_sockets_def by (metis option.inject)
  with L(2) show ?thesis unfolding found_def by blast
qed

lemma found_none: "(\<And>tx l. L tx = Some l \<Longrightarrow> lc_sid l \<noteq> sid) \<Longrightarrow> \<not> found L sid Q"
  unfolding found_def by blast

lemma found_other:
  "(\<And>l. L tx = Some l \<Longrightarrow> lc_sid l \<noteq> sid) \<Longrightarrow> (\<And>l. x = Some l \<Longrightarrow> lc_sid l \<noteq> sid) \<Longrightarrow>
     found (L(tx := x)) sid Q \<longleftrightarrow> found L sid Q"
  unfolding found_def by (metis fun_upd_apply)

fun live_effect :: "frame_effect \<Rightarrow> live_conn \<Rightarrow> live_conn" where
  "live_effect NoEffect l = l"
| "live_effect (Joins n) l = l\<lparr>lc_subs := insert n (lc_subs l)\<rparr>"
| "live_effect (Leaves n) l = l\<lparr>lc_subs := lc_subs l - {n}\<rparr>"
| "live_effect (SignsIn u) l = l\<lparr>lc_user := Some u\<rparr>"

lemma live_effect_fields [simp]:
  "lc_app (live_effect eff l) = lc_app l" "lc_handle (live_effect eff l) = lc_handle l"
  by (cases eff; simp)+

lemma unique_update:
  assumes "unique_sockets L" "L tx = Some l" "lc_handle l' = lc_handle l"
  shows "unique_sockets (L(tx := Some l'))"
  using assms unfolding unique_sockets_def by (simp split: if_splits) metis

lemma unique_remove: "unique_sockets L \<Longrightarrow> unique_sockets (L(tx := None))"
  unfolding unique_sockets_def by (metis fun_upd_apply option.distinct(1))

lemma unique_new:
  assumes "unique_sockets L" "\<And>tx' l'. L tx' = Some l' \<Longrightarrow> lc_sid l' \<noteq> lc_sid l"
  shows "unique_sockets (L(tx := Some l))"
  using assms unfolding unique_sockets_def by (metis fun_upd_apply option.inject)

text \<open>
  The updates of the mirror: a warranted effect, an end, a beginning. What other sockets are
  recorded for is the same before and after; for the socket itself both sides are computed.
\<close>

lemma mirrors_at_app:
  assumes m: "mirrors L r"
    and other: "\<And>sid Q. sid \<noteq> s \<Longrightarrow> found L' sid Q \<longleftrightarrow> found L sid Q"
    and frame: "\<And>v sid n u. sid \<noteq> s \<Longrightarrow> (sid \<in> vw_members (f v) n \<longleftrightarrow> sid \<in> vw_members v n) \<and>
      (sid \<in> vw_users (f v) u \<longleftrightarrow> sid \<in> vw_users v u) \<and> vw_handles (f v) sid = vw_handles v sid"
    and own: "\<And>a. a \<noteq> aid \<Longrightarrow> \<not> found L s (\<lambda>_ l. lc_app l = a) \<and> \<not> found L' s (\<lambda>_ l. lc_app l = a)"
    and here: "\<And>n u h. (s \<in> vw_members (f (r aid)) n \<longleftrightarrow> found L' s (\<lambda>_ l. lc_app l = aid \<and> n \<in> lc_subs l)) \<and>
      (s \<in> vw_users (f (r aid)) u \<longleftrightarrow> found L' s (\<lambda>_ l. lc_app l = aid \<and> lc_user l = Some u)) \<and>
      (vw_handles (f (r aid)) s = Some h \<longleftrightarrow> found L' s (\<lambda>_ l. lc_app l = aid \<and> lc_handle l = h))"
  shows "mirrors L' (at_app aid f r)"
proof -
  have none: "\<not> found L s (\<lambda>_ l. lc_app l = a \<and> Q l)" "\<not> found L' s (\<lambda>_ l. lc_app l = a \<and> Q l)"
    if "a \<noteq> aid" for a Q
    using own [OF that] unfolding found_def by blast+
  have "(\<forall>n. sid \<in> vw_members (at_app aid f r a) n \<longleftrightarrow> found L' sid (\<lambda>_ l. lc_app l = a \<and> n \<in> lc_subs l)) \<and>
      (\<forall>u. sid \<in> vw_users (at_app aid f r a) u \<longleftrightarrow> found L' sid (\<lambda>_ l. lc_app l = a \<and> lc_user l = Some u)) \<and>
      (\<forall>h. vw_handles (at_app aid f r a) sid = Some h \<longleftrightarrow> found L' sid (\<lambda>_ l. lc_app l = a \<and> lc_handle l = h))"
    for a sid
  proof (cases "sid = s")
    case True
    show ?thesis
    proof (cases "a = aid")
      case False
      with True none [OF False] m show ?thesis by (simp add: mirrors_def)
    qed (use True here in simp)
  next
    case False
    with m show ?thesis by (cases "a = aid") (simp_all add: frame other mirrors_def)
  qed
  then show ?thesis by (simp add: mirrors_def)
qed

lemma mirrors_new:
  assumes m: "mirrors L r" and L: "L tx = None" and fresh: "\<And>tx' l'. L tx' = Some l' \<Longrightarrow> lc_sid l' \<noteq> lc_sid l"
    and u: "unique_sockets L" and l: "lc_user l = None" "lc_subs l = {}"
  shows "mirrors (L(tx := Some l)) (at_app (lc_app l) (view_handle (lc_sid l) (Some (lc_handle l))) r)"
proof (rule mirrors_at_app [OF m, where s = "lc_sid l"])
  note now = found_own [OF unique_new [OF u fresh], where tx = tx and l = l, simplified]
  have old: "\<not> found L (lc_sid l) Q" for Q by (rule found_none) (rule fresh)
  show "\<And>sid Q. sid \<noteq> lc_sid l \<Longrightarrow> found (L(tx := Some l)) sid Q \<longleftrightarrow> found L sid Q"
    by (rule found_other) (use L in auto)
  show "\<not> found L (lc_sid l) (\<lambda>_ l. lc_app l = a) \<and> \<not> found (L(tx := Some l)) (lc_sid l) (\<lambda>_ l. lc_app l = a)"
    if "a \<noteq> lc_app l" for a
    using that old now by simp
  show "(lc_sid l \<in> vw_members (view_handle (lc_sid l) (Some (lc_handle l)) (r (lc_app l))) n \<longleftrightarrow>
      found (L(tx := Some l)) (lc_sid l) (\<lambda>_ l'. lc_app l' = lc_app l \<and> n \<in> lc_subs l')) \<and>
    (lc_sid l \<in> vw_users (view_handle (lc_sid l) (Some (lc_handle l)) (r (lc_app l))) us \<longleftrightarrow>
      found (L(tx := Some l)) (lc_sid l) (\<lambda>_ l'. lc_app l' = lc_app l \<and> lc_user l' = Some us)) \<and>
    (vw_handles (view_handle (lc_sid l) (Some (lc_handle l)) (r (lc_app l))) (lc_sid l) = Some h \<longleftrightarrow>
      found (L(tx := Some l)) (lc_sid l) (\<lambda>_ l'. lc_app l' = lc_app l \<and> lc_handle l' = h))" for n us h
    using m old now l by (simp add: mirrors_def view_handle_def)
qed (simp add: view_handle_def)

lemma mirrors_gone:
  assumes m: "mirrors L r" and u: "unique_sockets L" and l: "L tx = Some l" and subs: "set subs = lc_subs l"
  shows "mirrors (L(tx := None)) (at_app (lc_app l) (view_gone (lc_sid l) subs (lc_user l)) r)"
proof (rule mirrors_at_app [OF m, where s = "lc_sid l"])
  note old = found_own [OF u l]
  have now: "\<not> found (L(tx := None)) (lc_sid l) Q" for Q
    using u l by (intro found_none) (auto simp: unique_sockets_def split: if_splits)
  show "\<And>sid Q. sid \<noteq> lc_sid l \<Longrightarrow> found (L(tx := None)) sid Q \<longleftrightarrow> found L sid Q"
    by (rule found_other) (use l in auto)
  show "\<not> found L (lc_sid l) (\<lambda>_ l. lc_app l = a) \<and> \<not> found (L(tx := None)) (lc_sid l) (\<lambda>_ l. lc_app l = a)"
    if "a \<noteq> lc_app l" for a
    using that old now by simp
  show "(lc_sid l \<in> vw_members (view_gone (lc_sid l) subs (lc_user l) (r (lc_app l))) n \<longleftrightarrow>
      found (L(tx := None)) (lc_sid l) (\<lambda>_ l'. lc_app l' = lc_app l \<and> n \<in> lc_subs l')) \<and>
    (lc_sid l \<in> vw_users (view_gone (lc_sid l) subs (lc_user l) (r (lc_app l))) us \<longleftrightarrow>
      found (L(tx := None)) (lc_sid l) (\<lambda>_ l'. lc_app l' = lc_app l \<and> lc_user l' = Some us)) \<and>
    (vw_handles (view_gone (lc_sid l) subs (lc_user l) (r (lc_app l))) (lc_sid l) = Some h \<longleftrightarrow>
      found (L(tx := None)) (lc_sid l) (\<lambda>_ l'. lc_app l' = lc_app l \<and> lc_handle l' = h))" for n us h
    using m old now subs by (simp add: mirrors_def view_gone_def)
qed (simp add: view_gone_def)

lemma mirrors_effect:
  assumes m: "mirrors L r" and u: "unique_sockets L" and l: "L tx = Some l"
    and user: "\<And>uid. eff = SignsIn uid \<Longrightarrow> lc_user l = None"
  shows "mirrors (L(tx := Some (live_effect eff l))) (at_app (lc_app l) (view_effect (lc_sid l) eff) r)"
proof (rule mirrors_at_app [OF m, where s = "lc_sid l"])
  let ?L = "L(tx := Some (live_effect eff l))"
  note old = found_own [OF u l]
  note now = found_own [OF unique_update [OF u l, of "live_effect eff l", simplified],
      where tx = tx and l = "live_effect eff l", simplified]
  show "\<And>sid Q. sid \<noteq> lc_sid l \<Longrightarrow> found ?L sid Q \<longleftrightarrow> found L sid Q"
    by (rule found_other) (use l in auto)
  show "\<not> found L (lc_sid l) (\<lambda>_ l. lc_app l = a) \<and> \<not> found ?L (lc_sid l) (\<lambda>_ l. lc_app l = a)"
    if "a \<noteq> lc_app l" for a
    using that old now by simp
  show "(lc_sid l \<in> vw_members (view_effect (lc_sid l) eff (r (lc_app l))) n \<longleftrightarrow>
      found ?L (lc_sid l) (\<lambda>_ l'. lc_app l' = lc_app l \<and> n \<in> lc_subs l')) \<and>
    (lc_sid l \<in> vw_users (view_effect (lc_sid l) eff (r (lc_app l))) us \<longleftrightarrow>
      found ?L (lc_sid l) (\<lambda>_ l'. lc_app l' = lc_app l \<and> lc_user l' = Some us)) \<and>
    (vw_handles (view_effect (lc_sid l) eff (r (lc_app l))) (lc_sid l) = Some h \<longleftrightarrow>
      found ?L (lc_sid l) (\<lambda>_ l'. lc_app l' = lc_app l \<and> lc_handle l' = h))" for n us h
    using m user unfolding now
    by (cases eff) (auto simp: mirrors_def old view_join_def view_leave_def view_bind_def)
  show "(sid \<in> vw_members (view_effect (lc_sid l) eff v) n \<longleftrightarrow> sid \<in> vw_members v n) \<and>
      (sid \<in> vw_users (view_effect (lc_sid l) eff v) us \<longleftrightarrow> sid \<in> vw_users v us) \<and>
      vw_handles (view_effect (lc_sid l) eff v) sid = vw_handles v sid"
    if "sid \<noteq> lc_sid l" for v sid n us
    using that by (cases eff) (simp_all add: view_join_def view_leave_def view_bind_def)
qed

lemma tracks_update:
  assumes t: "tracks L tr" and u: "unique_sockets L" and l: "L tx = Some l" and h: "lc_handle l' = lc_handle l"
  shows "tracks (L(tx := Some l')) tr"
proof -
  have now: "found (L(tx := Some l')) (lc_sid l) Q \<longleftrightarrow> Q tx l'" for Q
    using found_own [OF unique_update [OF u l h], where tx = tx and l = l'] h by simp
  have "found (L(tx := Some l')) sid (\<lambda>tx l. t = \<lparr>tk_conn = tx, tk_handle = lc_handle l\<rparr>) \<longleftrightarrow>
      found L sid (\<lambda>tx l. t = \<lparr>tk_conn = tx, tk_handle = lc_handle l\<rparr>)" for sid t
  proof (cases "sid = lc_sid l")
    case True
    with now found_own [OF u l] h show ?thesis by simp
  qed (rule found_other, use l h in auto)
  with t show ?thesis by (simp add: tracks_def)
qed

lemma tracks_remove:
  assumes t: "tracks L tr" and u: "unique_sockets L" and l: "L tx = Some l"
  shows "tracks (L(tx := None)) (tracker_unregister (lc_sid l) tr)"
proof -
  have now: "\<not> found (L(tx := None)) (lc_sid l) Q" for Q
    using u l by (intro found_none) (auto simp: unique_sockets_def split: if_splits)
  have "found (L(tx := None)) sid Q \<longleftrightarrow> found L sid Q" if "sid \<noteq> lc_sid l" for sid Q
    by (rule found_other) (use l that in auto)
  with t now show ?thesis by (simp add: tracks_def tracker_unregister_def)
qed

lemma tracks_new:
  assumes t: "tracks L tr" and u: "unique_sockets L" and L: "L tx = None"
    and fresh: "\<And>tx' l'. L tx' = Some l' \<Longrightarrow> lc_sid l' \<noteq> lc_sid l"
  shows "tracks (L(tx := Some l)) (tracker_register (lc_sid l) \<lparr>tk_conn = tx, tk_handle = lc_handle l\<rparr> tr)"
proof -
  have now: "found (L(tx := Some l)) (lc_sid l) Q \<longleftrightarrow> Q tx l" for Q
    using found_own [OF unique_new [OF u fresh], where tx = tx and l = l] by simp
  have "found (L(tx := Some l)) sid Q \<longleftrightarrow> found L sid Q" if "sid \<noteq> lc_sid l" for sid Q
    by (rule found_other) (use L that in auto)
  with t now show ?thesis by (auto simp: tracks_def tracker_register_def)
qed

end
