(* ===== verification/Server_Tasks.thy ===== *)
theory Server_Tasks
  imports Ws_Session
begin

text \<open>
  The background tasks of a node (\<open>zatat-ws/src/tasks.rs\<close>), each as the work of one tick: publishing
  snapshots to peers, expiring what peers stopped refreshing, pinging and closing idle connections,
  closing the connections that a reload invalidated, and watching the restart signal file.
\<close>

section \<open>Snapshots\<close>

definition snapshot_members :: "presence_data \<Rightarrow> presence_snapshot_member list" where
  "snapshot_members p =
     map (\<lambda>(uid, info). \<lparr>psm_user_id = uid,
            psm_user_info = (if info = JNull then None else Some info)\<rparr>) (pd_hash p)"

text \<open>One channel: a presence roster is published at once, any other count is collected.\<close>

definition snapshot_channel ::
  "ext \<Rightarrow> instant \<Rightarrow> application \<Rightarrow> channel \<Rightarrow> channel_count list \<times> dispatcher \<Rightarrow> channel_count list \<times> dispatcher" where
  "snapshot_channel E now app ch st =
     (case st of (counts, d) \<Rightarrow>
        if is_presence (ch_kind ch)
        then
          (case d_next_seq d of (seq, d1) \<Rightarrow>
             case presence_snapshot ch of
               None \<Rightarrow> (counts, d1)
             | Some roster \<Rightarrow>
                 if pd_count roster = 0 then (counts, d1)
                 else (counts, publish_presence_snapshot E now app (ch_name ch)
                                 (snapshot_members roster) seq d1))
        else
          (let n = ch_len ch in
           if n > 0 then (counts @ [\<lparr>cc_channel = ch_name ch, cc_count = n\<rparr>], d) else (counts, d)))"

definition publish_snapshots_for_app ::
  "ext \<Rightarrow> instant \<Rightarrow> application \<Rightarrow> dispatcher \<Rightarrow> dispatcher" where
  "publish_snapshots_for_app E now app d =
     (case d_next_seq d of (counts_seq, d1) \<Rightarrow>
        case fold (snapshot_channel E now app) (mgr_channels (app_id app) (d_channels d1)) ([], d1) of
          (counts, d2) \<Rightarrow>
            (let d3 = publish_channel_count_snapshot E now app counts counts_seq d2 in
             case d_next_seq d3 of (sessions_seq, d4) \<Rightarrow>
               publish_user_session_snapshot E now app
                 (local_user_ids (app_id app) (d_channels d4)) sessions_seq d4))"

definition snapshot_tick :: "ext \<Rightarrow> instant \<Rightarrow> server \<Rightarrow> server" where
  "snapshot_tick E now sv =
     on_disp (\<lambda>d. fold (\<lambda>(_, app). publish_snapshots_for_app E now app)
                     (ai_by_id (cf_apps (sv_config sv))) d) sv"

section \<open>Expiry of peer state\<close>

definition expire_member :: "ext \<Rightarrow> instant \<Rightarrow> expired_member \<Rightarrow> server \<Rightarrow> server" where
  "expire_member E now m sv =
     (case app_by_id (em_app_id m) (sv_config sv) of
        None \<Rightarrow> sv
      | Some app \<Rightarrow>
          (case find_channel (app_id app) (em_channel m) (sv_channels sv) of
             None \<Rightarrow> sv
           | Some ch \<Rightarrow>
               (let remaining = remote_members_for now (em_app_id m) (em_channel m)
                                  (d_presence_cache (sv_disp sv));
                    still_remotely = list_ex (\<lambda>r. psm_user_id r = em_user_id m) remaining
                in if still_remotely \<or> has_user_id (em_user_id m) ch then sv
                   else
                     (let sv1 = sv_broadcast_protocol
                                  (member_removed E (em_channel m) (em_user_id m)) None ch sv;
                          empty = ch_is_empty ch \<and> remaining = []
                      in if is_fleet_leader now (sv_disp sv1)
                         then
                           (let sv2 = sv_enqueue now (app_id app)
                                        (WhMemberRemoved (em_channel m) (em_user_id m)) sv1
                            in if empty
                               then sv_enqueue now (app_id app) (WhChannelVacated (em_channel m)) sv2
                               else sv2)
                         else sv1))))"

definition expire_count ::
  "ext \<Rightarrow> instant \<Rightarrow> string \<times> string \<times> string \<times> nat \<Rightarrow> server \<Rightarrow> server" where
  "expire_count E now entry sv =
     (case entry of (aid, channel, _, stale_count) \<Rightarrow>
        case app_by_id aid (sv_config sv) of
          None \<Rightarrow> sv
        | Some app \<Rightarrow>
            (let loc = find_channel (app_id app) channel (sv_channels sv);
                 peer_sum = pcc_sum now aid channel (d_peer_channel_counts (sv_disp sv));
                 sv1 = (if stale_count > 0 \<and> locally_empty loc \<and> peer_sum = 0 \<and>
                           is_fleet_leader now (sv_disp sv)
                        then sv_enqueue now (app_id app) (WhChannelVacated channel) sv else sv)
             in case loc of
                  None \<Rightarrow> sv1
                | Some ch \<Rightarrow>
                    if is_presence (ch_kind ch) \<or> \<not> emit_subscription_count app then sv1
                    else sv_broadcast_protocol
                           (subscription_count E channel (ch_len ch + peer_sum)) None ch sv1))"

definition expire_session :: "ext \<Rightarrow> instant \<Rightarrow> string \<times> string \<times> string \<Rightarrow> server \<Rightarrow> server" where
  "expire_session E now entry sv =
     (case entry of (aid, _, uid) \<Rightarrow>
        case app_by_id aid (sv_config sv) of
          None \<Rightarrow> sv
        | Some app \<Rightarrow>
            on_disp (with_user_transition (app_id app) uid (\<lambda>d.
              if is_user_online (app_id app) uid (d_channels d) \<or>
                 pus_is_present_excluding now aid uid None (d_peer_user_sessions d)
              then d
              else emit_local_watchlist_event E (app_id app) uid ''offline'' d)) sv)"

definition gc_members :: "ext \<Rightarrow> instant \<Rightarrow> server \<Rightarrow> server" where
  "gc_members E now sv =
     (case pc_gc_expired now (d_presence_cache (sv_disp sv)) of (expired, cache) \<Rightarrow>
        fold (expire_member E now) expired (on_disp (\<lambda>d. d\<lparr>d_presence_cache := cache\<rparr>) sv))"

definition gc_counts :: "ext \<Rightarrow> instant \<Rightarrow> server \<Rightarrow> server" where
  "gc_counts E now sv =
     (case pcc_gc_expired now (d_peer_channel_counts (sv_disp sv)) of (expired, counts) \<Rightarrow>
        fold (expire_count E now) expired (on_disp (\<lambda>d. d\<lparr>d_peer_channel_counts := counts\<rparr>) sv))"

definition gc_sessions :: "ext \<Rightarrow> instant \<Rightarrow> server \<Rightarrow> server" where
  "gc_sessions E now sv =
     (case pus_gc_expired now (d_peer_user_sessions (sv_disp sv)) of (expired, sessions) \<Rightarrow>
        fold (expire_session E now) expired (on_disp (\<lambda>d. d\<lparr>d_peer_user_sessions := sessions\<rparr>) sv))"

definition presence_cache_gc :: "ext \<Rightarrow> instant \<Rightarrow> server \<Rightarrow> server" where
  "presence_cache_gc E now sv =
     on_disp (gc_peer_sequences now) (gc_sessions E now (gc_counts E now (gc_members E now sv)))"

section \<open>Connections\<close>

definition maintain_connection :: "int \<Rightarrow> tracked_connection \<Rightarrow> server \<Rightarrow> server" where
  "maintain_connection wall t sv =
     (case dget (sv_conns sv) (tk_conn t) of
        None \<Rightarrow> sv
      | Some conn \<Rightarrow>
          if is_stale wall conn
          then sv_try_send (tk_handle t) (Close 4201 ''Pong reply not received in time'') sv
          else if is_inactive wall conn
          then set_conn (tk_conn t) (mark_pinged conn) (sv_try_send (tk_handle t) Ping sv)
          else sv)"

definition connection_maintenance :: "instant \<Rightarrow> int \<Rightarrow> server \<Rightarrow> server" where
  "connection_maintenance now wall sv =
     on_disp (\<lambda>d. d\<lparr>d_channels := snd (gc_empty_cache_channels now (d_channels d))\<rparr>)
       (tracker_for_each (maintain_connection wall) sv)"

definition origin_dropped :: "ext \<Rightarrow> application \<Rightarrow> connection \<Rightarrow> bool" where
  "origin_dropped E app conn = origin_blocked E app (c_origin conn)"

definition close_revoked :: "app_id \<Rightarrow> server \<Rightarrow> server" where
  "close_revoked aid sv =
     on_disp (\<lambda>d. d\<lparr>d_net := send_all (Close 4001 ''Application no longer exists for this key'')
                               (connection_handles aid (d_channels d)) (d_net d)\<rparr>) sv"

definition close_origins :: "ext \<Rightarrow> app_id \<Rightarrow> server \<Rightarrow> server" where
  "close_origins E aid sv =
     (case app_by_id aid (sv_config sv) of
        None \<Rightarrow> sv
      | Some app \<Rightarrow>
          tracker_for_each (\<lambda>t sv.
            case dget (sv_conns sv) (tk_conn t) of
              None \<Rightarrow> sv
            | Some conn \<Rightarrow>
                if app_id (c_app conn) = aid \<and> origin_dropped E app conn
                then sv_try_send (tk_handle t)
                       (Close 4009 ''Origin is no longer allowed for this application'') sv
                else sv) sv)"

definition apply_apps_reload :: "ext \<Rightarrow> apps_reload \<Rightarrow> server \<Rightarrow> server" where
  "apply_apps_reload E r sv =
     fold (close_origins E) (rl_origins_changed r) (fold close_revoked (rl_revoked r) sv)"

text \<open>A reload as the signal handler runs it: the new table, then the connections it invalidates.\<close>

definition reload_apps :: "ext \<Rightarrow> (config_error + raw_config) \<Rightarrow> server \<Rightarrow> server" where
  "reload_apps E loaded sv =
     (case reload_apps_with E loaded (sv_config sv) of
        (Inl _, cf) \<Rightarrow> sv\<lparr>sv_config := cf\<rparr>
      | (Inr r, cf) \<Rightarrow> apply_apps_reload E r (sv\<lparr>sv_config := cf\<rparr>))"

section \<open>The restart signal\<close>

definition restart_interval :: "server \<Rightarrow> duration" where
  "restart_interval sv = max (sc_restart_poll_interval (cf_server (sv_config sv))) (from_secs 1)"

text \<open>One poll: the file's modification time when it can be read.\<close>

definition restart_signal_watcher :: "int \<Rightarrow> int option \<Rightarrow> server \<Rightarrow> server" where
  "restart_signal_watcher started_at mtime sv =
     (case mtime of
        Some t \<Rightarrow> if t > started_at then shutdown_now sv else sv
      | None \<Rightarrow> sv)"

end
