(* ===== verification/Http_Api.thy ===== *)
theory Http_Api
  imports Server_Tasks
begin

text \<open>
  The HTTP API (\<open>zatat-http/src/routes.rs\<close>): publishing events, one or a batch, to channels or to a
  user, reading channel statistics across the fleet, and terminating a user's connections. Every
  route resolves the application and verifies the signature before anything else. A handler returns
  an error (a status and a text) or the JSON body of a 200, with the node's state.
\<close>

section \<open>Requests\<close>

record request =
  rq_method :: string
  rq_path :: string
  rq_query :: "string option"
  rq_body :: string

type_synonym api_error = "nat \<times> string"

definition api_error_response :: "api_error \<Rightarrow> nat \<times> json" where
  "api_error_response e = (case e of (status, msg) \<Rightarrow> (status, JObject [(''error'', JString msg)]))"

definition BODY_READ_TIMEOUT :: duration where
  "BODY_READ_TIMEOUT = from_secs 10"

text \<open>
  The layer in front of every route. \<open>arrival\<close> is how long reading the body took, if it ever ended.
\<close>

definition deadline_and_limit ::
  "nat \<Rightarrow> duration option \<Rightarrow> request \<Rightarrow> (request \<Rightarrow> 's \<Rightarrow> (api_error + json) \<times> 's) \<Rightarrow> 's \<Rightarrow>
   (api_error + json) \<times> 's" where
  "deadline_and_limit max_body arrival rq handler s =
     (case arrival of
        None \<Rightarrow> (Inl (408, ''request body not received in time''), s)
      | Some t \<Rightarrow>
          if t > BODY_READ_TIMEOUT then (Inl (408, ''request body not received in time''), s)
          else if length (rq_body rq) > max_body then (Inl (413, ''request body too large''), s)
          else handler rq s)"

definition resolve_app :: "string \<Rightarrow> server \<Rightarrow> api_error + application" where
  "resolve_app aid sv =
     (case app_by_id aid (sv_config sv) of
        Some app \<Rightarrow> Inr app
      | None \<Rightarrow> Inl (404, ''Application does not exist''))"

text \<open>
  Resolving the application and verifying the signature, which every handler starts with. A handler
  that takes no body verifies an empty one.
\<close>

definition authorised ::
  "ext \<Rightarrow> int \<Rightarrow> string \<Rightarrow> request \<Rightarrow> string \<Rightarrow> server \<Rightarrow> api_error + application" where
  "authorised E wall aid rq body sv =
     (case resolve_app aid sv of
        Inl err \<Rightarrow> Inl err
      | Inr app \<Rightarrow>
          (case verify_request E wall app (rq_method rq) (rq_path rq) (rq_query rq)
                  (sc_path (cf_server (sv_config sv))) body of
             Inl err \<Rightarrow> Inl (ve_code err, ve_message err)
           | Inr _ \<Rightarrow> Inr app))"

section \<open>Statistics\<close>

text \<open>\<open>str::trim\<close>: the white space of Unicode, as it is encoded.\<close>

definition WHITE_SPACE :: "string list" where
  "WHITE_SPACE =
     map (\<lambda>n. [char_of n]) ([9..<14] @ [32 :: nat]) @
     [[CHR 0xC2, CHR 0x85], [CHR 0xC2, CHR 0xA0], [CHR 0xE1, CHR 0x9A, CHR 0x80]] @
     map (\<lambda>n. [CHR 0xE2, CHR 0x80, char_of n]) ([128..<139] @ [168, 169, 175 :: nat]) @
     [[CHR 0xE2, CHR 0x81, CHR 0x9F], [CHR 0xE3, CHR 0x80, CHR 0x80]]"

fun strip_any :: "string list \<Rightarrow> string \<Rightarrow> string option" where
  "strip_any [] s = None"
| "strip_any (w # ws) s =
     (if w \<noteq> [] \<and> starts_with s w then Some (drop (length w) s) else strip_any ws s)"

fun trim_steps :: "nat \<Rightarrow> string list \<Rightarrow> string \<Rightarrow> string" where
  "trim_steps 0 ws s = s"
| "trim_steps (Suc n) ws s = (case strip_any ws s of Some s' \<Rightarrow> trim_steps n ws s' | None \<Rightarrow> s)"

definition trim :: "string \<Rightarrow> string" where
  "trim s =
     (let front = trim_steps (length s) WHITE_SPACE s
      in rev (trim_steps (length front) (map rev WHITE_SPACE) (rev front)))"

definition wants :: "string option \<Rightarrow> string \<Rightarrow> bool" where
  "wants info_csv attribute =
     (case info_csv of
        None \<Rightarrow> False
      | Some s \<Rightarrow> list_ex (\<lambda>p. trim p = attribute) (split_on (CHR '','') s))"

definition channel_stats_object :: "channel_stats \<Rightarrow> string option \<Rightarrow> json option \<Rightarrow> json" where
  "channel_stats_object s info cache =
     JObject
       ((if wants info ''occupied'' then [(''occupied'', JBool (st_occupied s))] else []) @
        (if wants info ''subscription_count''
         then [(''subscription_count'', JNumber (show_nat (st_subscription_count s)))] else []) @
        (if wants info ''user_count''
         then (case st_user_count s of Some u \<Rightarrow> [(''user_count'', JNumber (show_nat u))] | None \<Rightarrow> []) else []) @
        (if wants info ''cache'' then [(''cache'', case cache of Some v \<Rightarrow> v | None \<Rightarrow> JNull)] else []))"

definition cache_info ::
  "ext \<Rightarrow> instant \<Rightarrow> application \<Rightarrow> string \<Rightarrow> server \<Rightarrow> json option \<times> server" where
  "cache_info E now app channel sv =
     (case find_channel (app_id app) channel (sv_channels sv) of
        None \<Rightarrow> (None, sv)
      | Some ch \<Rightarrow>
          (case cached_payload_with_ttl now ch of (cached, ch') \<Rightarrow>
             (map_option (\<lambda>(payload, ttl).
                JObject [(''data'', case Option.bind (x_from_str E payload) (\<lambda>f. json_get f ''data'') of
                                      Some v \<Rightarrow> v | None \<Rightarrow> JNull),
                         (''ttl'', case ttl of Some n \<Rightarrow> JNumber (show_nat n) | None \<Rightarrow> JNull)]) cached,
              on_disp (\<lambda>d. d\<lparr>d_channels := store_channel (app_id app) ch' (d_channels d)\<rparr>) sv)))"

definition presence_ids :: "channel \<Rightarrow> string list" where
  "presence_ids ch = List.map_filter (\<lambda>(_, _, p). map_option pm_user_id p) (members_iter ch)"

definition local_presence_ids :: "app_id \<Rightarrow> string \<Rightarrow> server \<Rightarrow> string list" where
  "local_presence_ids aid channel sv =
     (case find_channel aid channel (sv_channels sv) of Some ch \<Rightarrow> presence_ids ch | None \<Rightarrow> [])"

definition fleet_channel_stats ::
  "instant \<Rightarrow> application \<Rightarrow> string \<Rightarrow> server \<Rightarrow> channel_stats" where
  "fleet_channel_stats now app channel sv =
     (let loc = mgr_channel_stats now (app_id app) channel (sv_channels sv);
          local_count = (case loc of Some s \<Rightarrow> st_subscription_count s | None \<Rightarrow> 0);
          cached = (case loc of Some s \<Rightarrow> st_has_cached_payload s | None \<Rightarrow> False)
      in if is_presence (from_name channel)
         then
           (let remote = remote_members_for now (app_id app) channel (d_presence_cache (sv_disp sv));
                user_ids = bs_of (local_presence_ids (app_id app) channel sv @ map psm_user_id remote)
            in \<lparr>st_occupied = (local_count > 0 \<or> remote \<noteq> []), st_subscription_count = local_count,
                st_user_count = Some (length user_ids), st_has_cached_payload = cached\<rparr>)
         else
           (let peer_sum = pcc_sum now (app_id app) channel (d_peer_channel_counts (sv_disp sv))
            in \<lparr>st_occupied = (local_count > 0 \<or> peer_sum > 0),
                st_subscription_count = local_count + peer_sum,
                st_user_count = None, st_has_cached_payload = cached\<rparr>))"

section \<open>Publishing\<close>

definition MAX_CHANNELS_PER_EVENT :: nat where
  "MAX_CHANNELS_PER_EVENT = 100"

definition event_channels :: "event_payload \<Rightarrow> string list" where
  "event_channels ev =
     (case ep_channels ev of
        Some list \<Rightarrow> list
      | None \<Rightarrow> (case ep_channel ev of Some one \<Rightarrow> [one] | None \<Rightarrow> []))"

definition validate_event_name :: "string \<Rightarrow> api_error + unit" where
  "validate_event_name name =
     (if name = [] then Inl (400, ''event name is required'')
      else if length name > MAX_EVENT_NAME_LEN
      then Inl (422, ''event name exceeds '' @ show_nat MAX_EVENT_NAME_LEN @ '' bytes'')
      else Inr ())"

text \<open>The loop over an event's channels; the first objection ends it.\<close>

fun validate_channels :: "ext \<Rightarrow> application \<Rightarrow> string \<Rightarrow> string list \<Rightarrow> api_error + unit" where
  "validate_channels E app data [] = Inr ()"
| "validate_channels E app data (ch # rest) =
     (if ch = [] then Inl (400, ''channel name must not be empty'')
      else if length ch > MAX_CHANNEL_NAME_LEN
      then Inl (422, ''channel name exceeds '' @ show_nat MAX_CHANNEL_NAME_LEN @ '' bytes: '' @ ch)
      else if (case strip_prefix ch SERVER_TO_USER of
                 Some uid \<Rightarrow> uid = [] | None \<Rightarrow> \<not> is_valid_channel_name ch)
      then Inl (400, ''invalid channel name: '' @ ch)
      else
        case validate_publish E app ch data of
          Inl err \<Rightarrow> Inl (400, ch @ '': '' @ publish_error_text err)
        | Inr _ \<Rightarrow> validate_channels E app data rest)"

definition BACKQUOTE :: string where
  "BACKQUOTE = [CHR 0x60]"

definition validate_event_payload :: "ext \<Rightarrow> application \<Rightarrow> event_payload \<Rightarrow> api_error + unit" where
  "validate_event_payload E app ev =
     (case validate_event_name (ep_name ev) of
        Inl err \<Rightarrow> Inl err
      | Inr _ \<Rightarrow>
          (let channels = event_channels ev;
               data = data_text E (ep_data ev)
           in if length channels > MAX_CHANNELS_PER_EVENT
              then Inl (400, ''an event may target at most '' @ show_nat MAX_CHANNELS_PER_EVENT @ '' channels'')
              else if channels = []
              then Inl (400, ''event must specify '' @ BACKQUOTE @ ''channel'' @ BACKQUOTE @ '' or '' @
                          BACKQUOTE @ ''channels'' @ BACKQUOTE)
              else validate_channels E app data channels))"

fun validate_batch :: "ext \<Rightarrow> application \<Rightarrow> event_payload list \<Rightarrow> api_error + unit" where
  "validate_batch E app [] = Inr ()"
| "validate_batch E app (ev # evs) =
     (case validate_event_payload E app ev of
        Inl err \<Rightarrow> Inl err | Inr _ \<Rightarrow> validate_batch E app evs)"

text \<open>\<open>draw i\<close> is the nonce drawn for the channel at position \<open>i\<close>.\<close>

fun dispatch_channels ::
  "ext \<Rightarrow> instant \<Rightarrow> (nat \<Rightarrow> string) \<Rightarrow> application \<Rightarrow> event_payload \<Rightarrow> nat \<Rightarrow> string list \<Rightarrow> dispatcher \<Rightarrow>
   (api_error + unit) \<times> dispatcher" where
  "dispatch_channels E now draw app ev i [] d = (Inr (), d)"
| "dispatch_channels E now draw app ev i (ch # rest) d =
     (case dispatch_message E now (draw i) app ch (ep_name ev) (data_text E (ep_data ev))
             (ep_socket_id ev) d of
        (Inl err, d1) \<Rightarrow> (Inl (500, publish_error_text err), d1)
      | (Inr _, d1) \<Rightarrow> dispatch_channels E now draw app ev (Suc i) rest d1)"

definition dispatch_event ::
  "ext \<Rightarrow> instant \<Rightarrow> (nat \<Rightarrow> string) \<Rightarrow> application \<Rightarrow> event_payload \<Rightarrow> server \<Rightarrow>
   (api_error + unit) \<times> server" where
  "dispatch_event E now draw app ev sv =
     (case dispatch_channels E now draw app ev 0 (event_channels ev) (sv_disp sv) of
        (r, d) \<Rightarrow> (r, sv\<lparr>sv_disp := d\<rparr>))"

text \<open>\<open>serde_json::Map::insert\<close>: a repeated key keeps its place and takes the new value.\<close>

definition stats_of_channels ::
  "instant \<Rightarrow> application \<Rightarrow> string \<Rightarrow> string list \<Rightarrow> server \<Rightarrow> (string \<times> json) list" where
  "stats_of_channels now app info channels sv =
     fold (\<lambda>ch. dput ch (channel_stats_object (fleet_channel_stats now app ch sv) (Some info) None))
       channels []"

definition publish_event ::
  "ext \<Rightarrow> instant \<Rightarrow> int \<Rightarrow> (nat \<Rightarrow> string) \<Rightarrow> string \<Rightarrow> request \<Rightarrow> server \<Rightarrow> (api_error + json) \<times> server" where
  "publish_event E now wall draw aid rq sv =
     (case authorised E wall aid rq (rq_body rq) sv of
        Inl err \<Rightarrow> (Inl err, sv)
      | Inr app \<Rightarrow>
          (case x_event E (rq_body rq) of
             None \<Rightarrow> (Inl (422, ''invalid body: '' @ x_parse_error E ''EventPayload'' (rq_body rq)), sv)
           | Some ev \<Rightarrow>
               (case validate_event_payload E app ev of
                  Inl err \<Rightarrow> (Inl err, sv)
                | Inr _ \<Rightarrow>
                    (case dispatch_event E now draw app ev sv of
                       (Inl err, sv1) \<Rightarrow> (Inl err, sv1)
                     | (Inr _, sv1) \<Rightarrow>
                         (Inr (case ep_info ev of
                                 Some info \<Rightarrow>
                                   JObject [(''channels'', JObject
                                     (stats_of_channels now app info (event_channels ev) sv1))]
                               | None \<Rightarrow> JObject []), sv1)))))"

definition batch_entry :: "instant \<Rightarrow> application \<Rightarrow> event_payload \<Rightarrow> server \<Rightarrow> json" where
  "batch_entry now app ev sv =
     (case (ep_info ev, event_channels ev) of
        (Some info, ch # _) \<Rightarrow> channel_stats_object (fleet_channel_stats now app ch sv) (Some info) None
      | _ \<Rightarrow> JObject [])"

fun dispatch_batch ::
  "ext \<Rightarrow> instant \<Rightarrow> (nat \<Rightarrow> nat \<Rightarrow> string) \<Rightarrow> application \<Rightarrow> nat \<Rightarrow> event_payload list \<Rightarrow> json list \<Rightarrow> server \<Rightarrow>
   (api_error + json list) \<times> server" where
  "dispatch_batch E now draw app i [] out sv = (Inr out, sv)"
| "dispatch_batch E now draw app i (ev # evs) out sv =
     (case dispatch_event E now (draw i) app ev sv of
        (Inl err, sv1) \<Rightarrow> (Inl err, sv1)
      | (Inr _, sv1) \<Rightarrow>
          dispatch_batch E now draw app (Suc i) evs (out @ [batch_entry now app ev sv1]) sv1)"

definition publish_batch_events ::
  "ext \<Rightarrow> instant \<Rightarrow> int \<Rightarrow> (nat \<Rightarrow> nat \<Rightarrow> string) \<Rightarrow> string \<Rightarrow> request \<Rightarrow> server \<Rightarrow> (api_error + json) \<times> server" where
  "publish_batch_events E now wall draw aid rq sv =
     (case authorised E wall aid rq (rq_body rq) sv of
        Inl err \<Rightarrow> (Inl err, sv)
      | Inr app \<Rightarrow>
          (case x_batch E (rq_body rq) of
             None \<Rightarrow> (Inl (422, ''invalid body: '' @ x_parse_error E ''BatchEventsPayload'' (rq_body rq)), sv)
           | Some batch \<Rightarrow>
               if batch = [] then (Inl (400, ''batch must contain at least one event''), sv)
               else
                 (case validate_batch E app batch of
                    Inl err \<Rightarrow> (Inl err, sv)
                  | Inr _ \<Rightarrow>
                      (case dispatch_batch E now draw app 0 batch [] sv of
                         (Inl err, sv1) \<Rightarrow> (Inl err, sv1)
                       | (Inr out, sv1) \<Rightarrow>
                           (Inr (if list_ex (\<lambda>ev. ep_info ev \<noteq> None) batch
                                 then JObject [(''batch'', JArray out)] else JObject []), sv1)))))"

definition user_events ::
  "ext \<Rightarrow> instant \<Rightarrow> int \<Rightarrow> string \<Rightarrow> string \<Rightarrow> request \<Rightarrow> server \<Rightarrow> (api_error + json) \<times> server" where
  "user_events E now wall aid uid rq sv =
     (case authorised E wall aid rq (rq_body rq) sv of
        Inl err \<Rightarrow> (Inl err, sv)
      | Inr app \<Rightarrow>
          (case x_user_event E (rq_body rq) of
             None \<Rightarrow> (Inl (400, ''invalid body: '' @ x_parse_error E ''UserEventPayload'' (rq_body rq)), sv)
           | Some ev \<Rightarrow>
               (case validate_event_name (ue_name ev) of
                  Inl err \<Rightarrow> (Inl err, sv)
                | Inr _ \<Rightarrow>
                    if uid = [] then (Inl (400, ''user id is required''), sv)
                    else
                      (let n = length (connections_for_user (app_id app) uid (sv_channels sv));
                           sv1 = on_disp (dispatch_user_event E now app uid (ue_name ev)
                                   (data_text E (ue_data ev))) sv
                       in (Inr (JObject [(''delivered'', JNumber (show_nat n))]), sv1)))))"

section \<open>Reading the fleet\<close>

record merged =
  mg_occupied :: bool
  mg_subscription_count :: nat
  mg_user_ids :: "string list"
  mg_has_cached_payload :: bool
  mg_is_presence :: bool

definition merged_default :: merged where
  "merged_default = \<lparr>mg_occupied = False, mg_subscription_count = 0, mg_user_ids = [],
     mg_has_cached_payload = False, mg_is_presence = False\<rparr>"

text \<open>One report about a channel, from this node or a peer, added to what is merged so far.\<close>

definition merge_metric ::
  "string \<Rightarrow> bool \<Rightarrow> nat \<Rightarrow> bool \<Rightarrow> string list option \<Rightarrow> (string \<times> merged) list \<Rightarrow> (string \<times> merged) list" where
  "merge_metric name occupied n cached ids m =
     (let entry = (case map_of m name of Some e \<Rightarrow> e | None \<Rightarrow> merged_default);
          entry1 = entry\<lparr>mg_occupied := mg_occupied entry \<or> occupied,
                         mg_subscription_count := mg_subscription_count entry + n,
                         mg_has_cached_payload := mg_has_cached_payload entry \<or> cached\<rparr>;
          entry2 = (case ids of
                      None \<Rightarrow> entry1
                    | Some us \<Rightarrow> entry1\<lparr>mg_is_presence := True,
                                        mg_user_ids := fold bs_insert us (mg_user_ids entry1)\<rparr>)
      in bt_put name entry2 m)"

definition merge_local :: "instant \<Rightarrow> channel \<Rightarrow> (string \<times> merged) list \<Rightarrow> (string \<times> merged) list" where
  "merge_local now ch m =
     (let st = stats now ch
      in merge_metric (ch_name ch) (st_occupied st) (st_subscription_count st)
           (st_has_cached_payload st)
           (if is_presence (ch_kind ch) then Some (presence_ids ch) else None) m)"

definition merge_remote :: "channel_metric \<Rightarrow> (string \<times> merged) list \<Rightarrow> (string \<times> merged) list" where
  "merge_remote c m =
     merge_metric (cm_name c) (cm_occupied c) (cm_subscription_count c) (cm_has_cached_payload c)
       (if cm_user_count c \<noteq> None then Some (cm_presence_user_ids c) else None) m"

definition merged_stats :: "merged \<Rightarrow> channel_stats" where
  "merged_stats m =
     \<lparr>st_occupied = mg_occupied m, st_subscription_count = mg_subscription_count m,
      st_user_count = (if mg_is_presence m then Some (length (mg_user_ids m)) else None),
      st_has_cached_payload = mg_has_cached_payload m\<rparr>"

definition optional_cache ::
  "ext \<Rightarrow> instant \<Rightarrow> application \<Rightarrow> string option \<Rightarrow> string \<Rightarrow> server \<Rightarrow> json option \<times> server" where
  "optional_cache E now app info channel sv =
     (if wants info ''cache'' then cache_info E now app channel sv else (None, sv))"

fun render_channels ::
  "ext \<Rightarrow> instant \<Rightarrow> application \<Rightarrow> string option \<Rightarrow> (string \<times> merged) list \<Rightarrow> server \<Rightarrow>
   (string \<times> json) list \<times> server" where
  "render_channels E now app info [] sv = ([], sv)"
| "render_channels E now app info ((name, m) # rest) sv =
     (if \<not> mg_occupied m then render_channels E now app info rest sv
      else
        case optional_cache E now app info name sv of (cache, sv1) \<Rightarrow>
          case render_channels E now app info rest sv1 of (out, sv2) \<Rightarrow>
            ((name, channel_stats_object (merged_stats m) info cache) # out, sv2))"

definition first_param :: "(string \<times> string) list \<Rightarrow> string \<Rightarrow> string option" where
  "first_param pairs name = map_option snd (find (\<lambda>(k, _). k = name) pairs)"

definition FLEET_QUERY_TIMEOUT :: duration where
  "FLEET_QUERY_TIMEOUT = 750000000"

text \<open>\<open>request_id\<close> is the UUID drawn for the question to the fleet, \<open>replies\<close> what peers answer.\<close>

definition list_channels ::
  "ext \<Rightarrow> instant \<Rightarrow> int \<Rightarrow> string \<Rightarrow> (instant \<times> metrics_reply) list \<Rightarrow> string \<Rightarrow> request \<Rightarrow> server \<Rightarrow>
   (api_error + json) \<times> server" where
  "list_channels E now wall request_id replies aid rq sv =
     (case authorised E wall aid rq [] sv of
        Inl err \<Rightarrow> (Inl err, sv)
      | Inr app \<Rightarrow>
          (let pairs = parse_query (rq_query rq);
               filt = first_param pairs ''filter_by_prefix'';
               info = first_param pairs ''info'';
               chans = filter (\<lambda>ch. case filt of Some f \<Rightarrow> starts_with (ch_name ch) f | None \<Rightarrow> True)
                         (mgr_channels (app_id app) (sv_channels sv));
               m1 = fold (merge_local now) chans []
           in case ask_fleet_for_channels E now request_id app
                     \<lparr>mq_filter_by_prefix = filt, mq_info = info, mq_connections_only = False\<rparr>
                     FLEET_QUERY_TIMEOUT replies (sv_disp sv) of
                (remote, d1) \<Rightarrow>
                  (let m2 = fold merge_remote (case remote of Some l \<Rightarrow> l | None \<Rightarrow> []) m1 in
                   case render_channels E now app info m2 (sv\<lparr>sv_disp := d1\<rparr>) of
                     (obj, sv1) \<Rightarrow> (Inr (JObject [(''channels'', JObject obj)]), sv1))))"

definition info_plus_occupied :: "string option \<Rightarrow> string" where
  "info_plus_occupied info =
     (case info of
        Some s \<Rightarrow> if s \<noteq> [] then s @ '',occupied,subscription_count'' else ''occupied,subscription_count''
      | None \<Rightarrow> ''occupied,subscription_count'')"

definition channel_info ::
  "ext \<Rightarrow> instant \<Rightarrow> int \<Rightarrow> string \<Rightarrow> string \<Rightarrow> request \<Rightarrow> server \<Rightarrow> (api_error + json) \<times> server" where
  "channel_info E now wall aid channel rq sv =
     (case authorised E wall aid rq [] sv of
        Inl err \<Rightarrow> (Inl err, sv)
      | Inr app \<Rightarrow>
          (let info = first_param (parse_query (rq_query rq)) ''info'';
               st = fleet_channel_stats now app channel sv
           in case optional_cache E now app info channel sv of
                (cache, sv1) \<Rightarrow>
                  (Inr (channel_stats_object st (Some (info_plus_occupied info)) cache), sv1)))"

definition channel_users ::
  "ext \<Rightarrow> instant \<Rightarrow> int \<Rightarrow> string \<Rightarrow> string \<Rightarrow> request \<Rightarrow> server \<Rightarrow> (api_error + json) \<times> server" where
  "channel_users E now wall aid channel rq sv =
     (case authorised E wall aid rq [] sv of
        Inl err \<Rightarrow> (Inl err, sv)
      | Inr app \<Rightarrow>
          if \<not> is_presence (from_name channel) then (Inl (400, ''not a presence channel''), sv)
          else
            (let remote = remote_members_for now (app_id app) channel (d_presence_cache (sv_disp sv));
                 seen = bs_of (local_presence_ids (app_id app) channel sv @ map psm_user_id remote)
             in (Inr (JObject [(''users'', JArray (map (\<lambda>i. JObject [(''id'', JString i)]) seen))]), sv)))"

definition connections ::
  "ext \<Rightarrow> instant \<Rightarrow> int \<Rightarrow> string \<Rightarrow> (instant \<times> metrics_reply) list \<Rightarrow> string \<Rightarrow> request \<Rightarrow> server \<Rightarrow>
   (api_error + json) \<times> server" where
  "connections E now wall request_id replies aid rq sv =
     (case authorised E wall aid rq [] sv of
        Inl err \<Rightarrow> (Inl err, sv)
      | Inr app \<Rightarrow>
          (let loc = connection_count (app_id app) (sv_channels sv) in
           case ask_fleet_for_connections E now request_id app FLEET_QUERY_TIMEOUT replies (sv_disp sv) of
             (peers, d1) \<Rightarrow>
               (Inr (JObject [(''connections'',
                  JNumber (show_nat (loc + (case peers of Some n \<Rightarrow> n | None \<Rightarrow> 0))))]),
                sv\<lparr>sv_disp := d1\<rparr>)))"

text \<open>The body is empty for the \<open>DELETE\<close> form and the request's for the \<open>POST\<close> form.\<close>

definition terminate_user_impl ::
  "ext \<Rightarrow> instant \<Rightarrow> int \<Rightarrow> string \<Rightarrow> string \<Rightarrow> request \<Rightarrow> string \<Rightarrow> server \<Rightarrow> (api_error + json) \<times> server" where
  "terminate_user_impl E now wall aid uid rq body sv =
     (case authorised E wall aid rq body sv of
        Inl err \<Rightarrow> (Inl err, sv)
      | Inr app \<Rightarrow>
          (let hs = connections_for_user (app_id app) uid (sv_channels sv);
               d1 = publish_terminate_user E now app uid (d_terminate hs (sv_disp sv))
           in (Inr (JObject [(''terminated'', JNumber (show_nat (length hs)))]), sv\<lparr>sv_disp := d1\<rparr>)))"

definition terminate_user ::
  "ext \<Rightarrow> instant \<Rightarrow> int \<Rightarrow> string \<Rightarrow> string \<Rightarrow> request \<Rightarrow> server \<Rightarrow> (api_error + json) \<times> server" where
  "terminate_user E now wall aid uid rq sv = terminate_user_impl E now wall aid uid rq [] sv"

definition terminate_user_pusher ::
  "ext \<Rightarrow> instant \<Rightarrow> int \<Rightarrow> string \<Rightarrow> string \<Rightarrow> request \<Rightarrow> server \<Rightarrow> (api_error + json) \<times> server" where
  "terminate_user_pusher E now wall aid uid rq sv = terminate_user_impl E now wall aid uid rq (rq_body rq) sv"

section \<open>The router\<close>

text \<open>
  The routes with the arguments of their paths. \<open>draw\<close>, the request id and the replies of peers are
  what the handler draws and receives while it runs.
\<close>

datatype api_route =
    Events "nat \<Rightarrow> string"
  | BatchEvents "nat \<Rightarrow> nat \<Rightarrow> string"
  | Channels string "(instant \<times> metrics_reply) list"
  | ChannelInfo string
  | ChannelUsers string
  | Connections string "(instant \<times> metrics_reply) list"
  | UserEvents string
  | TerminateUser string
  | TerminateUserPusher string

fun api_handler ::
  "ext \<Rightarrow> instant \<Rightarrow> int \<Rightarrow> api_route \<Rightarrow> string \<Rightarrow> request \<Rightarrow> server \<Rightarrow> (api_error + json) \<times> server" where
  "api_handler E now wall (Events draw) aid = publish_event E now wall draw aid"
| "api_handler E now wall (BatchEvents draw) aid = publish_batch_events E now wall draw aid"
| "api_handler E now wall (Channels rid replies) aid = list_channels E now wall rid replies aid"
| "api_handler E now wall (ChannelInfo channel) aid = channel_info E now wall aid channel"
| "api_handler E now wall (ChannelUsers channel) aid = channel_users E now wall aid channel"
| "api_handler E now wall (Connections rid replies) aid = connections E now wall rid replies aid"
| "api_handler E now wall (UserEvents uid) aid = user_events E now wall aid uid"
| "api_handler E now wall (TerminateUser uid) aid = terminate_user E now wall aid uid"
| "api_handler E now wall (TerminateUserPusher uid) aid = terminate_user_pusher E now wall aid uid"

definition build_api_router ::
  "ext \<Rightarrow> instant \<Rightarrow> int \<Rightarrow> duration option \<Rightarrow> api_route \<Rightarrow> string \<Rightarrow> request \<Rightarrow> server \<Rightarrow>
   (api_error + json) \<times> server" where
  "build_api_router E now wall arrival route aid rq sv =
     deadline_and_limit (sc_max_request_size (cf_server (sv_config sv))) arrival rq
       (api_handler E now wall route aid) sv"

end
