(* ===== verification/Task_Effects.thy ===== *)
theory Task_Effects
  imports Server_Tasks Handler_Effects
begin

text \<open>
  What the background tasks of a node (\<open>zatat-ws/src/tasks.rs\<close>) leave alone: none of them changes a
  membership, a session or which mailboxes are open, whatever they send, publish or forget; of a
  connection they change at most when it was pinged. Closing a connection is always left to the
  connection's own task, which the tasks here can only ask.
\<close>

section \<open>Benign steps\<close>

definition benign :: "server \<Rightarrow> server \<Rightarrow> bool" where
  "benign sv sv' \<longleftrightarrow>
     (config_ok (sv_config sv) \<longrightarrow> config_ok (sv_config sv')) \<and> sv_tracker sv' = sv_tracker sv \<and>
     (\<forall>tx. rel_option (conn_after NoEffect) (dget (sv_conns sv) tx) (dget (sv_conns sv') tx)) \<and>
     (disp_wf (sv_disp sv) \<longrightarrow>
        disp_wf (sv_disp sv') \<and> boxes (d_net (sv_disp sv')) = boxes (d_net (sv_disp sv)) \<and>
        reg_view (sv_channels sv') = reg_view (sv_channels sv))"

lemma conn_after_trans:
  "conn_after NoEffect c1 c2 \<Longrightarrow> conn_after NoEffect c2 c3 \<Longrightarrow> conn_after NoEffect c1 c3"
  by (simp add: conn_after_def)

lemma conn_after_refl: "rel_option (conn_after NoEffect) x x"
  by (cases x) (simp_all add: conn_after_def)

interpretation bland: step_preorder benign
proof
  fix s t u
  show "benign s s" by (simp add: benign_def conn_after_refl)
  show "benign s u" if "benign s t" "benign t u"
  proof -
    have "rel_option (conn_after NoEffect) (dget (sv_conns s) tx) (dget (sv_conns u) tx)" for tx
    proof -
      have "rel_option (conn_after NoEffect) (dget (sv_conns s) tx) (dget (sv_conns t) tx)"
        "rel_option (conn_after NoEffect) (dget (sv_conns t) tx) (dget (sv_conns u) tx)"
        using that by (simp_all add: benign_def)
      then show ?thesis by (auto simp: option_rel_Some1 elim!: option.rel_cases intro: conn_after_trans)
    qed
    with that show ?thesis by (simp add: benign_def)
  qed
qed

lemma quiet_benign: "quiet sv sv' \<Longrightarrow> benign sv sv'"
  by (simp add: quiet_def schange_def benign_def conn_after_refl)

lemma quiet_dchange: "(\<And>d. dchange (\<lambda>r. r) d (f d)) \<Longrightarrow> quiet sv (on_disp f sv)"
  unfolding quiet_def by (rule schange_disp)

section \<open>Snapshots\<close>

lemma dstep_next_seq: "dstep d (snd (d_next_seq d))"
  by (auto simp: d_next_seq_def next_seq_def dstep_def disp_wf_def seq_of_def pub_wf_def publish_queue_depth_def case_prod_beta Let_def)

lemma dstep_snapshot_channel: "dstep (snd st) (snd (snapshot_channel E now app ch st))"
proof -
  obtain counts d where st: "st = (counts, d)" by (cases st)
  obtain seq d1 where n: "d_next_seq d = (seq, d1)" by fastforce
  then have d1: "dstep d d1" using dstep_next_seq [of d] by simp
  then have "dstep d (publish_presence_snapshot E now app (ch_name ch) ms seq d1)" for ms
    unfolding publish_presence_snapshot_def by (rule disp.trans [OF _ dstep_publish])
  with d1 show ?thesis
    by (simp add: st n snapshot_channel_def Let_def disp.refl split: option.split)
qed

lemma dstep_publish_snapshots: "dstep d (publish_snapshots_for_app E now app d)"
proof -
  obtain s1 d1 where n1: "d_next_seq d = (s1, d1)" by fastforce
  obtain counts d2 where f: "fold (snapshot_channel E now app) (mgr_channels (app_id app) (d_channels d1)) ([], d1) = (counts, d2)"
    by fastforce
  have fold: "dstep (snd st) (snd (fold (snapshot_channel E now app) chs st))" for chs st
  proof (induction chs arbitrary: st)
    case (Cons ch chs)
    show ?case using disp.trans [OF dstep_snapshot_channel Cons.IH] by simp
  qed (simp add: disp.refl)
  let ?d3 = "publish_channel_count_snapshot E now app counts s1 d2"
  obtain s2 d4 where n2: "d_next_seq ?d3 = (s2, d4)" by fastforce
  have "dstep d d1" using dstep_next_seq [of d] n1 by simp
  also have "dstep d1 d2" using fold [of "([], d1)" "mgr_channels (app_id app) (d_channels d1)"] f by simp
  also have "dstep d2 ?d3" unfolding publish_channel_count_snapshot_def by (rule dstep_publish)
  also have "dstep ?d3 d4" using dstep_next_seq [of ?d3] n2 by simp
  also have "dstep d4 (publish_user_session_snapshot E now app us s2 d4)" for us
    unfolding publish_user_session_snapshot_def by (rule dstep_publish)
  finally show ?thesis using n1 f n2 by (simp add: publish_snapshots_for_app_def Let_def)
qed

lemma quiet_snapshot_tick: "quiet sv (snapshot_tick E now sv)"
  unfolding snapshot_tick_def
  by (intro quiet_disp disp.fold_step) (simp add: case_prod_beta dstep_publish_snapshots)

section \<open>Expiry\<close>

lemma quiet_expire_member: "quiet sv (expire_member E now m sv)"
  unfolding expire_member_def Let_def by (intro quiet_shape)

lemma quiet_expire_count: "quiet sv (expire_count E now entry sv)"
proof -
  obtain aid channel node n where e: "entry = (aid, channel, node, n)" by (cases entry)
  show ?thesis unfolding expire_count_def Let_def e prod.case by (intro quiet_shape)
qed

lemma quiet_expire_session: "quiet sv (expire_session E now entry sv)"
proof -
  obtain aid node uid where e: "entry = (aid, node, uid)" by (cases entry)
  show ?thesis
    unfolding expire_session_def Let_def e prod.case
    by (intro quiet_shape quiet_disp dstep_user_transition disp.if_step disp.refl dstep_emit)
qed

lemma quiet_gc:
  "quiet sv (gc_members E now sv)" "quiet sv (gc_counts E now sv)" "quiet sv (gc_sessions E now sv)"
proof -
  have "cache_wf (d_presence_cache d) \<Longrightarrow> cache_wf (snd (pc_gc_expired now (d_presence_cache d)))"
    "cache_wf (d_peer_channel_counts d) \<Longrightarrow> cache_wf (snd (pcc_gc_expired now (d_peer_channel_counts d)))"
    "cache_wf (d_peer_user_sessions d) \<Longrightarrow> cache_wf (snd (pus_gc_expired now (d_peer_user_sessions d)))" for d
    by (simp_all add: rosters.gc_ok counts.gc_ok usessions.gc_ok)
  then have wf: "quiet sv (on_disp (\<lambda>d. d\<lparr>d_presence_cache := snd (pc_gc_expired now (d_presence_cache (sv_disp sv)))\<rparr>) sv)"
    "quiet sv (on_disp (\<lambda>d. d\<lparr>d_peer_channel_counts := snd (pcc_gc_expired now (d_peer_channel_counts (sv_disp sv)))\<rparr>) sv)"
    "quiet sv (on_disp (\<lambda>d. d\<lparr>d_peer_user_sessions := snd (pus_gc_expired now (d_peer_user_sessions (sv_disp sv)))\<rparr>) sv)"
    unfolding on_disp_def by (intro quiet_disp_at dstep_updates; blast)+
  show "quiet sv (gc_members E now sv)" "quiet sv (gc_counts E now sv)" "quiet sv (gc_sessions E now sv)"
    unfolding gc_members_def gc_counts_def gc_sessions_def case_prod_beta
    by (rule calm.trans [OF _ calm.fold_step], rule wf,
        simp only: quiet_expire_member quiet_expire_count quiet_expire_session)+
qed

lemma quiet_presence_cache_gc: "quiet sv (presence_cache_gc E now sv)"
proof -
  let ?s1 = "gc_members E now sv" and ?s2 = "gc_counts E now (gc_members E now sv)"
  have "quiet sv ?s1" by (rule quiet_gc)
  also have "quiet ?s1 ?s2" by (rule quiet_gc)
  also have "quiet ?s2 (gc_sessions E now ?s2)" by (rule quiet_gc)
  also have "quiet (gc_sessions E now ?s2) (on_disp (gc_peer_sequences now) (gc_sessions E now ?s2))"
    by (rule quiet_dchange) (simp add: dchange_def gc_peer_sequences_def disp_wf_def zwf)
  finally show ?thesis by (simp add: presence_cache_gc_def)
qed

section \<open>Connections and the configuration\<close>

lemma benign_ping:
  assumes "dget (sv_conns sv) tx = Some conn"
  shows "benign sv (set_conn tx (mark_pinged conn) sv)"
  using assms by (auto simp: benign_def set_conn_def sv_channels_def conn_after_refl conn_after_def mark_pinged_def)

lemma benign_maintain: "benign sv (maintain_connection wall t sv)"
proof (cases "dget (sv_conns sv) (tk_conn t)")
  case (Some conn)
  let ?sv = "sv_try_send (tk_handle t) Ping sv"
  have "dget (sv_conns ?sv) (tk_conn t) = Some conn" using Some by (simp add: sv_try_send_def)
  then have "benign sv (set_conn (tk_conn t) (mark_pinged conn) ?sv)"
    by (rule bland.trans [OF quiet_benign [OF quiet_try_send] benign_ping])
  with Some show ?thesis
    by (simp add: maintain_connection_def quiet_benign quiet_try_send bland.refl)
qed (simp add: maintain_connection_def bland.refl)

lemma benign_for_each: "(\<And>t sv. benign sv (f t sv)) \<Longrightarrow> benign sv (tracker_for_each f sv)"
  unfolding tracker_for_each_def by (rule bland.fold_step) (simp add: case_prod_beta bland.refl)

lemma benign_connection_maintenance: "benign sv (connection_maintenance now wall sv)"
  unfolding connection_maintenance_def
  by (rule bland.trans [OF benign_for_each [OF benign_maintain]], rule quiet_benign,
      rule quiet_disp, rule dstep_updates(4)) (simp add: mgr_wf_do [of _ "CollectGarbage now", simplified])

lemma benign_apply_reload: "benign sv (apply_apps_reload E r sv)"
proof -
  have "benign s (close_revoked aid s)" for aid s
    unfolding close_revoked_def by (intro quiet_benign quiet_disp) (simp add: dstep_updates)
  moreover have "benign s (close_origins E aid s)" for aid s
    unfolding close_origins_def
    by (intro bland.option_step bland.refl benign_for_each bland.if_step quiet_benign [OF quiet_try_send])
  ultimately show ?thesis
    unfolding apply_apps_reload_def by (rule bland.trans [OF bland.fold_step bland.fold_step])
qed

lemma benign_config: "(config_ok (sv_config sv) \<Longrightarrow> config_ok cf) \<Longrightarrow> benign sv (sv\<lparr>sv_config := cf\<rparr>)"
  by (simp add: benign_def conn_after_refl sv_channels_def)

lemma reload_config_ok:
  assumes "config_ok cf"
  shows "config_ok (snd (reload_apps_with E loaded cf))"
proof (cases loaded)
  case (Inr raw)
  show ?thesis
  proof (cases "build_app_index E (rw_apps raw)")
    case (Inr nxt)
    have "config_ok (cf\<lparr>cf_apps := nxt\<rparr>)" by (rule config_ok_build [of E "rw_apps raw"]) (simp add: Inr)
    with \<open>loaded = Inr raw\<close> Inr show ?thesis by (simp add: reload_apps_with_def)
  qed (use assms Inr in \<open>simp add: reload_apps_with_def\<close>)
qed (use assms in \<open>simp add: reload_apps_with_def\<close>)

lemma benign_reload_apps: "benign sv (reload_apps E loaded sv)"
proof -
  obtain r cf where r: "reload_apps_with E loaded (sv_config sv) = (r, cf)" by fastforce
  have "benign sv (sv\<lparr>sv_config := cf\<rparr>)"
    using reload_config_ok [of "sv_config sv" E loaded] r by (intro benign_config) simp
  with bland.trans [OF this benign_apply_reload] r show ?thesis
    by (cases r) (simp_all add: reload_apps_def)
qed

lemma benign_shutdown: "benign sv (shutdown_now sv)"
  by (simp add: shutdown_now_def benign_def conn_after_refl sv_channels_def)

lemma benign_restart: "benign sv (restart_signal_watcher started_at mtime sv)"
  by (simp add: restart_signal_watcher_def benign_shutdown bland.refl split: option.split)

end
