(* ===== verification/Api_Effects.thy ===== *)
theory Api_Effects
  imports Http_Api Task_Effects
begin

text \<open>
  What a request to the HTTP API (\<open>zatat-http/src/routes.rs\<close>) can do: nothing without a valid
  signature, nothing when the answer is an error, and never a change of who is connected.
\<close>

section \<open>No route changes a membership\<close>

lemma quiet_disp_to: "dstep (sv_disp sv) d \<Longrightarrow> quiet sv (sv\<lparr>sv_disp := d\<rparr>)"
  by (rule quiet_disp_at)

lemma dstep_dispatch_channels: "dstep d (snd (dispatch_channels E now draw app ev i chs d))"
proof (induction chs arbitrary: i d)
  case (Cons ch chs)
  obtain r d1 where m: "dispatch_message E now (draw i) app ch (ep_name ev) (data_text E (ep_data ev))
      (ep_socket_id ev) d = (r, d1)" by fastforce
  then have "dstep d d1"
    using dstep_dispatch_message [of d E now "draw i" app ch "ep_name ev" "data_text E (ep_data ev)" "ep_socket_id ev"]
    by simp
  with disp.trans [OF this Cons.IH] m show ?case by (cases r) simp_all
qed (simp add: disp.refl)

lemma quiet_dispatch_event: "quiet sv (snd (dispatch_event E now draw app ev sv))"
  using dstep_dispatch_channels [of "sv_disp sv" E now draw app ev 0 "event_channels ev"]
  by (simp add: dispatch_event_def case_prod_beta quiet_disp_at)

lemma quiet_dispatch_batch: "quiet sv (snd (dispatch_batch E now draw app i evs out sv))"
proof (induction evs arbitrary: i out sv)
  case (Cons ev evs)
  obtain r sv1 where d: "dispatch_event E now (draw i) app ev sv = (r, sv1)" by fastforce
  then have "quiet sv sv1" using quiet_dispatch_event [of sv E now "draw i" app ev] by simp
  with calm.trans [OF this Cons.IH] d show ?case by (cases r) simp_all
qed (simp add: calm.refl)

lemma dstep_ask_fleet: "dstep d (snd (ask_fleet E now rid app query wait replies d))"
proof -
  let ?env = "app_envelope app 0 (MetricsRequest rid (d_node_id d) query)"
  let ?d1 = "d\<lparr>d_metrics_inflight := dput rid [] (d_metrics_inflight d)\<rparr>"
  have "dstep d ?d1" by (simp add: dstep_updates zwf)
  also have "dstep ?d1 (d_spawn_publish E now ?env ?d1)" by (rule dstep_spawn_publish)
  also have "dstep (d_spawn_publish E now ?env ?d1) (ask_fleet_end rid (d_spawn_publish E now ?env ?d1))"
    by (simp add: ask_fleet_end_def dstep_updates zwf)
  finally show ?thesis
    by (auto simp: ask_fleet_def ask_fleet_begin_def Let_def disp.refl)
qed

lemma quiet_cache_info: "quiet sv (snd (cache_info E now app channel sv))"
proof (cases "find_channel (app_id app) channel (sv_channels sv)")
  case (Some ch)
  let ?ch = "snd (cached_payload_with_ttl now ch)"
  have same: "?ch = snd (cached_payload now ch)"
    by (simp add: cached_payload_with_ttl_def case_prod_beta Let_def split: option.split)
  have keep: "ch_name ?ch = ch_name ch" "ch_members ?ch = ch_members ch" "ch_kind ?ch = ch_kind ch"
    unfolding same by (simp_all add: cached_payload_def split: option.split)
  have "mgr_wf (sv_channels sv) \<Longrightarrow> mgr_wf (store_channel (app_id app) ?ch (sv_channels sv)) \<and>
      reg_view (store_channel (app_id app) ?ch (sv_channels sv)) = reg_view (sv_channels sv)"
    using mgr_wf_find [OF _ Some] Some ch_wf_cached_payload [of ch now, folded same] keep
    by (auto simp: channel_entry_ok_def ch_is_empty_def intro!: mgr_wf_store reg_view_store)
  then have "quiet sv (on_disp (\<lambda>d. d\<lparr>d_channels := store_channel (app_id app) ?ch (d_channels d)\<rparr>) sv)"
    using dstep_updates(4) [of "sv_disp sv"] by (simp add: on_disp_def sv_channels_def quiet_disp_at)
  with Some show ?thesis by (simp add: cache_info_def case_prod_beta)
qed (simp add: cache_info_def calm.refl)

lemma quiet_optional_cache: "quiet sv (snd (optional_cache E now app info channel sv))"
  by (simp add: optional_cache_def quiet_cache_info calm.refl)

lemma quiet_render: "quiet sv (snd (render_channels E now app info ms sv))"
proof (induction ms arbitrary: sv)
  case (Cons nm ms)
  obtain n m where nm: "nm = (n, m)" by (cases nm)
  show ?case
    using Cons.IH [of sv] calm.trans [OF quiet_optional_cache Cons.IH]
    by (simp add: nm case_prod_beta)
qed (simp add: calm.refl)

lemma quiet_publish_routes:
  "quiet sv (snd (publish_event E now wall draw aid rq sv))"
  "quiet sv (snd (publish_batch_events E now wall draw' aid rq sv))"
proof -
  have step: "quiet sv sv1" if "dispatch_event E now draw app ev sv = (r, sv1)" for app ev r sv1
    using quiet_dispatch_event [of sv E now draw app ev] that by simp
  show "quiet sv (snd (publish_event E now wall draw aid rq sv))"
    by (auto simp: publish_event_def calm.refl dest: step split: sum.split option.split prod.split)
  have step: "quiet sv sv1" if "dispatch_batch E now draw' app 0 evs [] sv = (r, sv1)" for app evs r sv1
    using quiet_dispatch_batch [of sv E now draw' app 0 evs "[]"] that by simp
  show "quiet sv (snd (publish_batch_events E now wall draw' aid rq sv))"
    by (auto simp: publish_batch_events_def calm.refl dest: step split: sum.split option.split prod.split)
qed

lemma quiet_read_routes:
  "quiet sv (snd (list_channels E now wall rid replies aid rq sv))"
  "quiet sv (snd (connections E now wall rid replies aid rq sv))"
  "quiet sv (snd (channel_info E now wall aid channel rq sv))"
  "quiet sv (snd (channel_users E now wall aid channel rq sv))"
proof -
  have ask: "quiet sv (sv\<lparr>sv_disp := snd (ask_fleet E now rid app query wait replies (sv_disp sv))\<rparr>)" for app query wait
    by (rule quiet_disp_at) (rule dstep_ask_fleet)
  show "quiet sv (snd (list_channels E now wall rid replies aid rq sv))"
    by (cases "authorised E wall aid rq [] sv")
       (simp_all add: list_channels_def Let_def case_prod_beta calm.refl ask_fleet_for_channels_def
          calm.trans [OF ask quiet_render])
  show "quiet sv (snd (connections E now wall rid replies aid rq sv))"
    by (cases "authorised E wall aid rq [] sv")
       (simp_all add: connections_def Let_def case_prod_beta calm.refl ask_fleet_for_connections_def ask)
  show "quiet sv (snd (channel_info E now wall aid channel rq sv))"
    by (cases "authorised E wall aid rq [] sv")
       (simp_all add: channel_info_def Let_def case_prod_beta calm.refl quiet_optional_cache)
  show "quiet sv (snd (channel_users E now wall aid channel rq sv))"
    by (cases "authorised E wall aid rq [] sv") (simp_all add: channel_users_def Let_def calm.refl)
qed

lemma quiet_user_routes:
  "quiet sv (snd (user_events E now wall aid uid rq sv))"
  "quiet sv (snd (terminate_user_impl E now wall aid uid rq body sv))"
proof -
  have ev: "dstep d (dispatch_user_event E now app uid event data d)" for app event data d
    unfolding dispatch_user_event_def Let_def
    by (intro disp.after [OF dstep_publish] dstep_net_only net_only_deliver)
  show "quiet sv (snd (user_events E now wall aid uid rq sv))"
    by (auto simp: user_events_def Let_def calm.refl ev quiet_disp split: sum.split option.split)
  have "dstep d (d_terminate hs d)" for hs d by (simp add: d_terminate_def dstep_updates)
  then have "dstep d (publish_terminate_user E now app uid (d_terminate hs d))" for app hs d
    unfolding publish_terminate_user_def by (rule disp.trans [OF _ dstep_publish])
  then show "quiet sv (snd (terminate_user_impl E now wall aid uid rq body sv))"
    by (cases "authorised E wall aid rq body sv")
       (simp_all add: terminate_user_impl_def Let_def calm.refl quiet_disp_at)
qed

lemma quiet_api: "quiet sv (snd (build_api_router E now wall arrival route aid rq sv))"
proof -
  have "quiet sv (snd (api_handler E now wall route aid rq sv))"
    by (cases route)
       (simp_all add: quiet_publish_routes quiet_read_routes quiet_user_routes terminate_user_def
          terminate_user_pusher_def)
  then show ?thesis
    by (simp add: build_api_router_def deadline_and_limit_def calm.refl split: option.split)
qed

section \<open>Requests need a signature\<close>

text \<open>The body a route's signature covers: the routes that take none verify an empty one.\<close>

fun signed_body :: "api_route \<Rightarrow> request \<Rightarrow> string" where
  "signed_body (Events _) rq = rq_body rq"
| "signed_body (BatchEvents _) rq = rq_body rq"
| "signed_body (UserEvents _) rq = rq_body rq"
| "signed_body (TerminateUserPusher _) rq = rq_body rq"
| "signed_body _ rq = []"

lemma unauthorised_route:
  "authorised E wall aid rq (signed_body route rq) sv = Inl err \<Longrightarrow>
     api_handler E now wall route aid rq sv = (Inl err, sv)"
  by (cases route)
     (simp_all add: publish_event_def publish_batch_events_def list_channels_def channel_info_def
        channel_users_def connections_def user_events_def terminate_user_def terminate_user_pusher_def
        terminate_user_impl_def)

text \<open>A route that does not sign the body does not read it either.\<close>

lemma body_unread:
  "signed_body route rq = rq_body rq \<or>
   api_handler E now wall route aid (rq\<lparr>rq_body := b\<rparr>) sv = api_handler E now wall route aid rq sv"
  by (cases route)
     (simp_all add: list_channels_def channel_info_def channel_users_def connections_def terminate_user_def
        terminate_user_impl_def authorised_def cong: sum.case_cong)

lemma authorised_ok:
  "authorised E wall aid rq body sv = Inr app \<Longrightarrow>
     app_by_id aid (sv_config sv) = Some app \<and>
     (\<exists>ts. request_ok E wall app (rq_method rq)
        (strip_path_prefix (rq_path rq) (sc_path (cf_server (sv_config sv)))) (parse_query (rq_query rq)) body ts)"
  unfolding verify_request_iff [symmetric]
  by (auto simp: authorised_def resolve_app_def split: option.splits sum.splits)

text \<open>
  C10: Whatever the route, a request that changes the node or gets anything but an error arrived in
  time and within the size limit, names a configured application, and carries a timestamp inside the
  window and the application's signature over the method, the path without the configured prefix,
  the query parameters (all but \<open>auth_signature\<close>, \<open>body_md5\<close>, \<open>appId\<close>, \<open>appKey\<close> and \<open>channelName\<close>, which
  the protocol leaves out) and, on the four routes that take a body, the hash of the body. The other
  five routes verify the signature of an empty body, and what they do does not depend on the body
  that was sent.
\<close>

theorem api_requires_signature:
  assumes res: "build_api_router E now wall arrival route aid rq sv = (answer, sv')"
    and served: "sv' \<noteq> sv \<or> (\<exists>j. answer = Inr j)"
  shows "(\<exists>t. arrival = Some t \<and> t \<le> BODY_READ_TIMEOUT) \<and>
         length (rq_body rq) \<le> sc_max_request_size (cf_server (sv_config sv)) \<and>
         (\<exists>app ts. app_by_id aid (sv_config sv) = Some app \<and>
            request_ok E wall app (rq_method rq)
              (strip_path_prefix (rq_path rq) (sc_path (cf_server (sv_config sv))))
              (parse_query (rq_query rq)) (signed_body route rq) ts) \<and>
         (signed_body route rq = rq_body rq \<or>
          (\<forall>b. api_handler E now wall route aid (rq\<lparr>rq_body := b\<rparr>) sv = (answer, sv')))"
proof -
  from assms have limits: "\<exists>t. arrival = Some t \<and> t \<le> BODY_READ_TIMEOUT"
    "length (rq_body rq) \<le> sc_max_request_size (cf_server (sv_config sv))"
    and handled: "api_handler E now wall route aid rq sv = (answer, sv')"
    by (auto simp: build_api_router_def deadline_and_limit_def split: option.splits if_splits)
  obtain app where "authorised E wall aid rq (signed_body route rq) sv = Inr app"
    using unauthorised_route [of E wall aid rq route sv _ now] handled served
    by (cases "authorised E wall aid rq (signed_body route rq) sv") auto
  from authorised_ok [OF this] limits body_unread [of route rq E now wall aid _ sv] handled show ?thesis by auto
qed

section \<open>A batch is published whole or not at all\<close>

text \<open>The messages of a batch in order: the event's and the channel's position, and both.\<close>

definition event_jobs :: "nat \<Rightarrow> event_payload \<Rightarrow> (nat \<times> nat \<times> event_payload \<times> string) list" where
  "event_jobs i ev = map (\<lambda>(j, ch). (i, j, ev, ch)) (List.enumerate 0 (event_channels ev))"

definition batch_jobs :: "event_payload list \<Rightarrow> (nat \<times> nat \<times> event_payload \<times> string) list" where
  "batch_jobs batch = concat (map (\<lambda>(i, ev). event_jobs i ev) (List.enumerate 0 batch))"

definition run_job ::
  "ext \<Rightarrow> instant \<Rightarrow> (nat \<Rightarrow> nat \<Rightarrow> string) \<Rightarrow> application \<Rightarrow> nat \<times> nat \<times> event_payload \<times> string \<Rightarrow>
   dispatcher \<Rightarrow> dispatcher" where
  "run_job E now draw app job d =
     (case job of (i, j, ev, ch) \<Rightarrow>
        snd (dispatch_message E now (draw i j) app ch (ep_name ev) (data_text E (ep_data ev))
          (ep_socket_id ev) d))"

text \<open>An event that passed validation: between 1 and 100 channels, each of which may be published to.\<close>

definition event_ok :: "ext \<Rightarrow> application \<Rightarrow> event_payload \<Rightarrow> bool" where
  "event_ok E app ev \<longleftrightarrow>
     ep_name ev \<noteq> [] \<and> length (ep_name ev) \<le> MAX_EVENT_NAME_LEN \<and>
     event_channels ev \<noteq> [] \<and> length (event_channels ev) \<le> MAX_CHANNELS_PER_EVENT \<and>
     (\<forall>ch\<in>set (event_channels ev). ch \<noteq> [] \<and> length ch \<le> MAX_CHANNEL_NAME_LEN \<and>
        validate_publish E app ch (data_text E (ep_data ev)) = Inr ())"

lemma validate_channels_ok:
  "validate_channels E app data chs = Inr () \<Longrightarrow>
     \<forall>ch\<in>set chs. ch \<noteq> [] \<and> length ch \<le> MAX_CHANNEL_NAME_LEN \<and> validate_publish E app ch data = Inr ()"
  by (induction chs) (auto split: if_splits sum.splits option.splits)

lemma validate_event_ok: "validate_event_payload E app ev = Inr () \<Longrightarrow> event_ok E app ev"
  by (auto simp: validate_event_payload_def validate_event_name_def event_ok_def Let_def
      split: if_splits sum.splits dest: validate_channels_ok)

lemma validate_batch_ok: "validate_batch E app batch = Inr () \<Longrightarrow> \<forall>ev\<in>set batch. event_ok E app ev"
  by (induction batch) (auto split: sum.splits dest: validate_event_ok)

lemma validated_message:
  assumes "\<And>k n p. x_seal E k n p \<noteq> None" "validate_publish E app ch data = Inr ()"
  shows "\<exists>d'. dispatch_message E now nonce app ch event data except d = (Inr (), d')"
proof -
  have "encrypt_payload E nonce data k \<noteq> Inl err" for k err
    using assms(1) [of k nonce data] by (auto simp: encrypt_payload_def)
  then have "\<exists>out. maybe_encrypt E nonce app (from_name ch) ch data = Inr out"
    using assms(2) by (auto simp: validate_publish_def maybe_encrypt_def Let_def
        split: if_splits option.splits sum.splits)
  then show ?thesis by (auto simp: dispatch_message_def Let_def)
qed

lemma dispatch_channels_all:
  assumes "\<And>k n p. x_seal E k n p \<noteq> None"
    and "\<forall>ch\<in>set chs. validate_publish E app ch (data_text E (ep_data ev)) = Inr ()"
  shows "dispatch_channels E now (draw i) app ev j chs d =
           (Inr (), fold (run_job E now draw app) (map (\<lambda>(j, ch). (i, j, ev, ch)) (List.enumerate j chs)) d)"
  using assms(2)
proof (induction chs arbitrary: j d)
  case (Cons ch chs)
  obtain d1 where "dispatch_message E now (draw i j) app ch (ep_name ev) (data_text E (ep_data ev))
      (ep_socket_id ev) d = (Inr (), d1)"
    using validated_message [OF assms(1)] Cons.prems by (meson list.set_intros(1))
  with Cons show ?case by (simp add: run_job_def)
qed simp

lemma dispatch_batch_all:
  assumes seal: "\<And>k n p. x_seal E k n p \<noteq> None" and ok: "\<forall>ev\<in>set batch. event_ok E app ev"
  shows "\<exists>out'. dispatch_batch E now draw app i batch out sv =
           (Inr out', sv\<lparr>sv_disp := fold (run_job E now draw app)
              (concat (map (\<lambda>(i, ev). event_jobs i ev) (List.enumerate i batch))) (sv_disp sv)\<rparr>)"
  using ok
proof (induction batch arbitrary: i out sv)
  case (Cons ev batch)
  let ?sv1 = "sv\<lparr>sv_disp := fold (run_job E now draw app) (event_jobs i ev) (sv_disp sv)\<rparr>"
  have "dispatch_event E now (draw i) app ev sv = (Inr (), ?sv1)"
    using Cons.prems by (simp add: dispatch_event_def dispatch_channels_all [OF seal] event_ok_def event_jobs_def)
  with Cons.IH [of "Suc i" "out @ [batch_entry now app ev ?sv1]" ?sv1] Cons.prems show ?case by simp
qed simp

text \<open>
  C6: A batch is published whole or not at all. If the answer is an error, of whatever kind, nothing
  was sent, cached or forwarded: the node is exactly as it was. Otherwise the batch was validated
  and every event went to every one of its channels, in the order of the request. In particular no
  event of a validated batch can fail to be encrypted.
\<close>

theorem batch_all_or_nothing:
  assumes seal: "\<And>k n p. x_seal E k n p \<noteq> None"
    and res: "publish_batch_events E now wall draw aid rq sv = (answer, sv')"
  shows "case answer of
           Inl err \<Rightarrow> sv' = sv
         | Inr _ \<Rightarrow>
             \<exists>app batch. app_by_id aid (sv_config sv) = Some app \<and> x_batch E (rq_body rq) = Some batch \<and>
               batch \<noteq> [] \<and> list_all (event_ok E app) batch \<and>
               sv' = sv\<lparr>sv_disp := fold (run_job E now draw app) (batch_jobs batch) (sv_disp sv)\<rparr>"
proof (cases "authorised E wall aid rq (rq_body rq) sv")
  case (Inl err)
  with res show ?thesis by (auto simp: publish_batch_events_def)
next
  case (Inr app)
  note app = Inr
  show ?thesis
  proof (cases "x_batch E (rq_body rq)")
    case None
    with res app show ?thesis by (auto simp: publish_batch_events_def)
  next
    case (Some batch)
    show ?thesis
    proof (cases "batch = [] \<or> validate_batch E app batch \<noteq> Inr ()")
      case True
      with res app Some show ?thesis by (auto simp: publish_batch_events_def split: sum.splits if_splits)
    next
      case False
      then have ok: "\<forall>ev\<in>set batch. event_ok E app ev" using validate_batch_ok by blast
      from dispatch_batch_all [OF seal ok, of now draw 0 "[]" sv] res app Some False authorised_ok [OF app] ok
      show ?thesis
        by (auto simp: publish_batch_events_def batch_jobs_def list_all_iff)
    qed
  qed
qed

section \<open>Sample requests\<close>

text \<open>A signed request, and a library that reads every body as a batch of one event.\<close>

definition sample_rq :: "string \<Rightarrow> request" where
  "sample_rq q = \<lparr>rq_method = ''GET'', rq_path = ''/x'', rq_query = Some q, rq_body = []\<rparr>"

definition batch_ext :: ext where
  "batch_ext = sample_ext\<lparr>x_batch := (\<lambda>_. Some [\<lparr>ep_name = ''e'', ep_data = JString ''d'', ep_channels = None,
     ep_channel = Some ''a'', ep_socket_id = None, ep_info = None\<rparr>])\<rparr>"

definition batch_query :: string where
  "batch_query = encode_query letters_only ([(''auth_timestamp'', ''7'')] @ [(''auth_signature'',
     sign_http batch_ext ''GET'' (strip_path_prefix ''/x'' []) [] [(''auth_timestamp'', ''7'')]
       (app_secret sample_app))])"

lemma sample_authorised:
  assumes "verify_request E 9 sample_app ''GET'' ''/x'' (Some q) [] [] = Inr ()"
  shows "authorised E 9 ''1'' (sample_rq q) [] sample_server = Inr sample_app"
  using assms by (simp add: authorised_def resolve_app_def sample_server_simps sample_rq_def)

lemma batch_request: "verify_request batch_ext 9 sample_app ''GET'' ''/x'' (Some batch_query) [] [] = Inr ()"
proof -
  have hex: "utf8_valid (x_hex batch_ext b)" for b
    using sample_hex_utf8 [of b] by (simp add: batch_ext_def)
  have md5: "query_param [(''auth_timestamp'', ''7'')] ''body_md5'' \<in> {None, Some (body_md5_hex batch_ext [])}"
    by (simp add: query_param_def eq_ignore_ascii_case_def to_ascii_lowercase_def)
  show ?thesis
    unfolding batch_query_def
    by (rule sign_and_send [where ts = 7,
          OF letters_only_safe sample_params(1) hex sample_params(2-4) _ sample_params(5-6) md5]) simp_all
qed

theorem api_requires_signature_witness:
  "\<exists>app ts. app_by_id ''1'' (sv_config sample_server) = Some app \<and>
     request_ok sample_ext 9 app ''GET'' (strip_path_prefix ''/x'' (sc_path (cf_server (sv_config sample_server))))
       (parse_query (Some sample_query)) [] ts"
proof -
  obtain j where r: "build_api_router sample_ext 0 9 (Some 0) (ChannelUsers ''presence-a'') ''1'' (sample_rq sample_query)
      sample_server = (Inr j, sample_server)"
  proof -
    have "is_presence (from_name ''presence-a'')" by code_simp
    then show ?thesis
      using sample_authorised [OF sample_request] that
      by (simp add: build_api_router_def deadline_and_limit_def BODY_READ_TIMEOUT_def from_secs_def
          sample_server_simps sample_rq_def channel_users_def Let_def)
  qed
  have "\<exists>j'. (Inr j :: api_error + json) = Inr j'" by simp
  from api_requires_signature [OF r disjI2 [OF this]] show ?thesis by (simp add: sample_rq_def)
qed

theorem batch_all_or_nothing_witness:
  "\<exists>answer sv' app batch.
     publish_batch_events batch_ext 0 9 (\<lambda>_ _. []) ''1'' (sample_rq batch_query) sample_server = (Inr answer, sv') \<and>
     app_by_id ''1'' (sv_config sample_server) = Some app \<and> batch \<noteq> [] \<and>
     sv' = sample_server\<lparr>sv_disp :=
       fold (run_job batch_ext 0 (\<lambda>_ _. []) app) (batch_jobs batch) (sv_disp sample_server)\<rparr>"
proof -
  have seal: "x_seal batch_ext k n p \<noteq> None" for k n p by (simp add: batch_ext_def sample_ext_def)
  let ?ev = "\<lparr>ep_name = ''e'', ep_data = JString ''d'', ep_channels = None,
     ep_channel = Some ''a'', ep_socket_id = None, ep_info = None\<rparr> :: event_payload"
  have v: "validate_batch batch_ext sample_app [?ev] = Inr ()" by code_simp
  have x: "x_batch batch_ext b = Some [?ev]" for b by (simp add: batch_ext_def)
  have a: "authorised batch_ext 9 ''1'' (sample_rq batch_query) (rq_body (sample_rq batch_query)) sample_server = Inr sample_app"
    using sample_authorised [OF batch_request] by (simp add: sample_rq_def)
  obtain out sv1 where d: "dispatch_batch batch_ext 0 (\<lambda>_ _. []) sample_app 0 [?ev] [] sample_server = (Inr out, sv1)"
    using dispatch_batch_all [OF seal validate_batch_ok [OF v], of 0 "\<lambda>_ _. []" 0 "[]" sample_server] by blast
  obtain answer where r: "publish_batch_events batch_ext 0 9 (\<lambda>_ _. []) ''1'' (sample_rq batch_query) sample_server = (Inr answer, sv1)"
    unfolding publish_batch_events_def a sum.case x option.case v d by simp
  from batch_all_or_nothing [OF seal r] show ?thesis unfolding r sum.case by blast
qed

end
