(* ===== verification/Node_System.thy ===== *)
theory Node_System
  imports Registry_Mirror Api_Effects
begin

text \<open>
  A whole node: the shared state and its sessions, with every kind of step the process takes (an
  upgrade is accepted, a connection opens, a turn of a connection's loop, an envelope from the bus,
  a step of a background task, a request to the HTTP API, a reload, the shutdown). The invariant
  says that the registry, the user index, the handle table and the tracker mirror the open
  connections: whatever the interleaving, a socket is recorded exactly where its own connection says
  it is, and a connection that has ended is recorded nowhere.
\<close>

section \<open>Consistency\<close>

definition session_ok :: "server \<Rightarrow> nat \<Rightarrow> session \<Rightarrow> bool" where
  "session_ok sv tx ss \<longleftrightarrow>
     h_tx (ss_handle ss) = tx \<and> boxes (d_net (sv_disp sv)) tx = Some (\<not> ss_running ss) \<and>
     (case dget (sv_conns sv) tx of
        Some c \<Rightarrow> ss_running ss \<and> c_socket_id c = h_socket_id (ss_handle ss)
      | None \<Rightarrow> \<not> ss_running ss)"

definition consistent :: "server \<Rightarrow> (nat, session) dmap \<Rightarrow> bool" where
  "consistent sv S \<longleftrightarrow>
     disp_wf (sv_disp sv) \<and> config_ok (sv_config sv) \<and>
     (\<forall>tx ss. dget S tx = Some ss \<longrightarrow> session_ok sv tx ss) \<and>
     (\<forall>tx. dget S tx = None \<longrightarrow> dget (sv_conns sv) tx = None) \<and>
     unique_sockets (live (sv_conns sv) S) \<and>
     mirrors (live (sv_conns sv) S) (reg_view (sv_channels sv)) \<and>
     tracks (live (sv_conns sv) S) (sv_tracker sv)"

lemma live_put:
  assumes "\<And>t. t \<noteq> tx \<Longrightarrow> dget conns' t = dget conns t"
  shows "live conns' (dput tx ss' S) =
           (live conns S)(tx := (if ss_running ss' then map_option (live_of ss') (dget conns' tx) else None))"
  using assms by (auto simp: live_def fun_eq_iff split: option.split)

text \<open>A step of one session: everything about the others is as before.\<close>

lemma consistent_put:
  assumes c: "consistent sv S"
    and wf: "disp_wf (sv_disp sv')" "config_ok (sv_config sv')"
    and conns: "\<And>t. t \<noteq> tx \<Longrightarrow> dget (sv_conns sv') t = dget (sv_conns sv) t"
    and box: "\<And>t. t \<noteq> tx \<Longrightarrow> boxes (d_net (sv_disp sv')) t = boxes (d_net (sv_disp sv)) t"
    and own: "session_ok sv' tx ss'"
    and l: "l = (if ss_running ss' then map_option (live_of ss') (dget (sv_conns sv') tx) else None)"
    and L: "unique_sockets ((live (sv_conns sv) S)(tx := l))"
      "mirrors ((live (sv_conns sv) S)(tx := l)) (reg_view (sv_channels sv'))"
      "tracks ((live (sv_conns sv) S)(tx := l)) (sv_tracker sv')"
  shows "consistent sv' (dput tx ss' S)"
proof -
  have "session_ok sv' t ss" if "dget (dput tx ss' S) t = Some ss" for t ss
    using that own c conns [of t] box [of t]
    by (cases "t = tx") (simp_all add: consistent_def session_ok_def)
  moreover have "dget (sv_conns sv') t = None" if "dget (dput tx ss' S) t = None" for t
    using that c conns [of t] by (simp add: consistent_def split: if_splits)
  moreover have "live (sv_conns sv') (dput tx ss' S) = (live (sv_conns sv) S)(tx := l)"
    unfolding l by (rule live_put) (rule conns)
  ultimately show ?thesis using wf L by (simp add: consistent_def)
qed

lemma consistentD:
  assumes "consistent sv S" "dget S tx = Some ss" "ss_running ss"
  obtains c where "dget (sv_conns sv) tx = Some c" "c_socket_id c = h_socket_id (ss_handle ss)"
    "h_tx (ss_handle ss) = tx" "boxes (d_net (sv_disp sv)) tx = Some False"
    "live (sv_conns sv) S tx = Some (live_of ss c)"
proof -
  have "session_ok sv tx ss" using assms by (simp add: consistent_def)
  with assms(2,3) that show ?thesis
    by (cases "dget (sv_conns sv) tx") (simp_all add: session_ok_def live_def)
qed

lemma live_of_simps [simp]:
  "lc_app (live_of ss c) = app_id (ss_app ss)" "lc_handle (live_of ss c) = ss_handle ss"
  "lc_user (live_of ss c) = c_user_id c" "lc_subs (live_of ss c) = set (c_subscriptions c)"
  by (simp_all add: live_of_def)

section \<open>Steps that keep it\<close>

lemma live_benign: "benign sv sv' \<Longrightarrow> live (sv_conns sv') S = live (sv_conns sv) S"
proof
  fix tx
  assume "benign sv sv'"
  then have "rel_option (conn_after NoEffect) (dget (sv_conns sv) tx) (dget (sv_conns sv') tx)"
    by (simp add: benign_def)
  then show "live (sv_conns sv') S tx = live (sv_conns sv) S tx"
    by (cases rule: option.rel_cases) (auto simp: live_def live_of_def conn_after_def split: option.split)
qed

lemma consistent_benign:
  assumes c: "consistent sv S" and b: "benign sv sv'"
  shows "consistent sv' S"
proof -
  have conn: "rel_option (conn_after NoEffect) (dget (sv_conns sv) tx) (dget (sv_conns sv') tx)" for tx
    using b by (simp add: benign_def)
  have "session_ok sv' tx ss" if "session_ok sv tx ss" for tx ss
    using conn [of tx] that c b
    by (cases rule: option.rel_cases) (auto simp: session_ok_def benign_def consistent_def conn_after_def)
  moreover have "dget (sv_conns sv') tx = None" if "dget (sv_conns sv) tx = None" for tx
    using conn [of tx] that by simp
  ultimately show ?thesis
    using c b by (simp add: consistent_def live_benign [OF b]) (simp add: benign_def)
qed

lemma consistent_session:
  assumes c: "consistent sv S" and ss: "dget S tx = Some ss"
    and same: "ss_handle ss' = ss_handle ss" "ss_app ss' = ss_app ss" "ss_running ss' = ss_running ss"
  shows "consistent sv (dput tx ss' S)"
proof -
  have own: "session_ok sv tx ss" using c ss by (simp add: consistent_def)
  have "map_option (live_of ss') x = map_option (live_of ss) x" for x
    using same by (cases x) (simp_all add: live_of_def)
  then have "(live (sv_conns sv) S)(tx := (if ss_running ss' then map_option (live_of ss') (dget (sv_conns sv) tx) else None)) =
      live (sv_conns sv) S"
    using ss same by (auto simp: live_def fun_eq_iff)
  with c own same show ?thesis
    by (intro consistent_put [OF c _ _ _ _ _ refl])
       (simp_all add: consistent_def session_ok_def cong: option.case_cong)
qed

lemma set_conn_simps [simp]:
  "sv_conns (set_conn tx c sv) = dput tx c (sv_conns sv)" "sv_disp (set_conn tx c sv) = sv_disp sv"
  "sv_config (set_conn tx c sv) = sv_config sv" "sv_tracker (set_conn tx c sv) = sv_tracker sv"
  "sv_draining (set_conn tx c sv) = sv_draining sv"
  by (simp_all add: set_conn_def)

lemma consistent_effect:
  assumes c: "consistent sv S" and ss: "dget S tx = Some ss" "ss_running ss"
    and conn: "dget (sv_conns sv) tx = Some conn" and after: "conn_after eff conn conn'"
    and user: "\<And>uid. eff = SignsIn uid \<Longrightarrow> c_user_id conn = None"
    and step: "schange (at_app (app_id (ss_app ss)) (view_effect (c_socket_id conn) eff)) sv sv1"
  shows "consistent (set_conn tx conn' sv1) S"
proof -
  from consistentD [OF c ss] conn have own: "c_socket_id conn = h_socket_id (ss_handle ss)"
    "h_tx (ss_handle ss) = tx" "boxes (d_net (sv_disp sv)) tx = Some False"
    and l: "live (sv_conns sv) S tx = Some (live_of ss conn)" by auto
  have u: "unique_sockets (live (sv_conns sv) S)" and m: "mirrors (live (sv_conns sv) S) (reg_view (sv_channels sv))"
    and t: "tracks (live (sv_conns sv) S) (sv_tracker sv)" and wf: "disp_wf (sv_disp sv)"
    using c by (simp_all add: consistent_def)
  from step wf have step': "disp_wf (sv_disp sv1)" "boxes (d_net (sv_disp sv1)) = boxes (d_net (sv_disp sv))"
    "reg_view (sv_channels sv1) = at_app (app_id (ss_app ss)) (view_effect (c_socket_id conn) eff) (reg_view (sv_channels sv))"
    "sv_conns sv1 = sv_conns sv" "sv_tracker sv1 = sv_tracker sv" "sv_config sv1 = sv_config sv"
    by (simp_all add: schange_def)
  have eff: "live_of ss conn' = live_effect eff (live_of ss conn)"
    using after by (cases eff) (auto simp: live_of_def conn_after_def)
  have h: "lc_handle (live_of ss conn') = lc_handle (live_of ss conn)" by simp
  have "consistent (set_conn tx conn' sv1) (dput tx ss S)"
  proof (rule consistent_put [OF c, where l = "Some (live_of ss conn')"])
    show "unique_sockets ((live (sv_conns sv) S)(tx := Some (live_of ss conn')))"
      by (rule unique_update [OF u l h])
    show "tracks ((live (sv_conns sv) S)(tx := Some (live_of ss conn'))) (sv_tracker (set_conn tx conn' sv1))"
      using tracks_update [OF t u l h] step' by simp
    show "mirrors ((live (sv_conns sv) S)(tx := Some (live_of ss conn'))) (reg_view (sv_channels (set_conn tx conn' sv1)))"
      using mirrors_effect [OF m u l, of eff] user step'(3) own(1) by (simp add: eff sv_channels_def)
    show "session_ok (set_conn tx conn' sv1) tx ss"
      using own step' after ss by (simp add: session_ok_def conn_after_def)
  qed (use c step' ss in \<open>simp_all add: consistent_def\<close>)
  then show ?thesis by (simp add: dput_same [OF ss(1)])
qed

text \<open>The end of a connection, from any state.\<close>

lemma drop_connection_simps [simp]:
  "sv_conns (drop_connection tx sv) = ddel tx (sv_conns sv)"
  "sv_config (drop_connection tx sv) = sv_config sv"
  "sv_tracker (drop_connection tx sv) = sv_tracker sv"
  "sv_draining (drop_connection tx sv) = sv_draining sv"
  "sv_channels (drop_connection tx sv) = sv_channels sv"
  "boxes (d_net (sv_disp (drop_connection tx sv))) =
     (\<lambda>t. if t = tx then map_option (\<lambda>_. True) (boxes (d_net (sv_disp sv)) tx) else boxes (d_net (sv_disp sv)) t)"
  "disp_wf (sv_disp (drop_connection tx sv)) = disp_wf (sv_disp sv)"
  by (auto simp: drop_connection_def boxes_def fun_eq_iff sv_channels_def disp_wf_def split: option.split)

lemma consistent_close:
  assumes c: "consistent sv S" and ss: "dget S tx = Some ss" "ss_running ss"
    and same: "ss_handle ss1 = ss_handle ss" "ss_app ss1 = ss_app ss"
    and close: "close_session E now ss1 sv = (ss', sv')"
  shows "consistent sv' (dput tx ss' S)"
proof -
  obtain conn where conn: "dget (sv_conns sv) tx = Some conn" and own: "c_socket_id conn = h_socket_id (ss_handle ss)"
    "h_tx (ss_handle ss) = tx" "boxes (d_net (sv_disp sv)) tx = Some False"
    and l: "live (sv_conns sv) S tx = Some (live_of ss conn)"
    using consistentD [OF c ss] by blast
  let ?sid = "h_socket_id (ss_handle ss)"
  let ?sv1 = "sv\<lparr>sv_tracker := tracker_unregister ?sid (sv_tracker sv)\<rparr>"
  let ?sv2 = "cleanup_connection E now (ss_app ss) conn ?sid ?sv1"
  have u: "unique_sockets (live (sv_conns sv) S)" and m: "mirrors (live (sv_conns sv) S) (reg_view (sv_channels sv))"
    and t: "tracks (live (sv_conns sv) S) (sv_tracker sv)" and wf: "disp_wf (sv_disp sv)" "config_ok (sv_config sv)"
    using c by (simp_all add: consistent_def)
  from close conn same own(2) have res: "ss' = ss1\<lparr>ss_running := False\<rparr>" "sv' = drop_connection tx ?sv2"
    by (simp_all add: close_session_def Let_def)
  from cleanup_change [of "ss_app ss" ?sid conn ?sv1 E now] wf
  have step: "disp_wf (sv_disp ?sv2)" "boxes (d_net (sv_disp ?sv2)) = boxes (d_net (sv_disp sv))"
    "reg_view (sv_channels ?sv2) =
       at_app (app_id (ss_app ss)) (view_gone ?sid (c_subscriptions conn) (c_user_id conn)) (reg_view (sv_channels sv))"
    "sv_conns ?sv2 = sv_conns sv" "sv_tracker ?sv2 = tracker_unregister ?sid (sv_tracker sv)"
    "sv_config ?sv2 = sv_config sv"
    by (simp_all add: schange_def sv_channels_def)
  show ?thesis
    unfolding res
  proof (rule consistent_put [OF c, where l = None])
    show "unique_sockets ((live (sv_conns sv) S)(tx := None))" by (rule unique_remove [OF u])
    show "mirrors ((live (sv_conns sv) S)(tx := None)) (reg_view (sv_channels (drop_connection tx ?sv2)))"
      using mirrors_gone [OF m u l, of "c_subscriptions conn"] by (simp add: step)
    show "tracks ((live (sv_conns sv) S)(tx := None)) (sv_tracker (drop_connection tx ?sv2))"
      using tracks_remove [OF t u l] by (simp add: step)
  qed (use step wf own same in \<open>simp_all add: session_ok_def\<close>)
qed

lemma close_session_send: "close_session E now (ss_send frames ss) sv =
    (ss_send frames (fst (close_session E now ss sv)), snd (close_session E now ss sv))"
  by (simp add: close_session_def ss_send_def Let_def split: option.split)

lemma put_mailbox_quiet:
  assumes "dget (d_net (sv_disp sv)) tx = Some mb" "mb_closed mb' = mb_closed mb"
  shows "quiet sv (put_mailbox tx mb' sv)"
proof -
  have "boxes (dput tx mb' (d_net (sv_disp sv))) = boxes (d_net (sv_disp sv))"
    using assms by (auto simp: boxes_def)
  then show ?thesis unfolding put_mailbox_def on_disp_def by (intro quiet_disp_at dstep_updates)
qed

section \<open>A turn of the loop\<close>

lemma limiter_check_same:
  "limiter_check now ss = (ok, ss') \<Longrightarrow>
     ss_handle ss' = ss_handle ss \<and> ss_app ss' = ss_app ss \<and> ss_running ss' = ss_running ss"
  by (auto simp: limiter_check_def split: option.splits prod.splits)

lemma ss_send_same [simp]:
  "ss_handle (ss_send frames ss) = ss_handle ss" "ss_app (ss_send frames ss) = ss_app ss"
  "ss_running (ss_send frames ss) = ss_running ss" "ss_limiter (ss_send frames ss) = ss_limiter ss"
  "ss_sink (ss_send frames ss) = ss_sink ss @ frames"
  by (simp_all add: ss_send_def)

text \<open>The outcomes of a turn: the session goes on as it is, or it closes, in a consistent state.\<close>

definition keeps :: "(nat, session) dmap \<Rightarrow> nat \<Rightarrow> session \<times> server \<Rightarrow> bool" where
  "keeps S tx r \<longleftrightarrow> consistent (snd r) (dput tx (fst r) S)"

lemma keeps_open:
  "consistent sv S \<Longrightarrow> dget S tx = Some ss \<Longrightarrow> ss_handle ss1 = ss_handle ss \<Longrightarrow> ss_app ss1 = ss_app ss \<Longrightarrow>
     ss_running ss1 = ss_running ss \<Longrightarrow> keeps S tx (ss1, sv)"
  by (simp add: keeps_def consistent_session)

lemma keeps_close:
  "consistent sv S \<Longrightarrow> dget S tx = Some ss \<Longrightarrow> ss_running ss \<Longrightarrow> ss_handle ss1 = ss_handle ss \<Longrightarrow>
     ss_app ss1 = ss_app ss \<Longrightarrow> keeps S tx (close_session E now ss1 sv)"
  unfolding keeps_def by (rule consistent_close) simp_all

lemma keeps_reply:
  "consistent sv S \<Longrightarrow> dget S tx = Some ss \<Longrightarrow> ss_running ss \<Longrightarrow> ss_handle ss1 = ss_handle ss \<Longrightarrow>
     ss_app ss1 = ss_app ss \<Longrightarrow> ss_running ss1 = ss_running ss \<Longrightarrow>
     keeps S tx (reply_or_close E now ok text ss1 sv)"
  by (simp add: reply_or_close_def Let_def keeps_open keeps_close)

lemma benign_touch:
  "dget (sv_conns sv) tx = Some conn \<Longrightarrow> conn_after NoEffect conn conn' \<Longrightarrow> benign sv (set_conn tx conn' sv)"
  by (auto simp: benign_def conn_after_refl sv_channels_def)

lemma inbound_consistent:
  assumes c: "consistent sv S" and ss: "dget S tx = Some ss" "ss_running ss"
    and conn: "dget (sv_conns sv) tx = Some conn"
    and h: "handle_inbound E now (ss_app ss) h text conn sv = (reply, conn2, sv2)"
  shows "consistent (set_conn tx conn2 sv2) S"
proof -
  have conf: "config_ok (sv_config sv)" using c by (simp add: consistent_def)
  obtain eff where w: "warranted E (live_app (ss_app ss) sv) conn text eff" "conn_after eff conn conn2"
      "schange (at_app (app_id (ss_app ss)) (view_effect (c_socket_id conn) eff)) sv sv2"
    using handle_inbound_change [OF conf h] by blast
  have "c_user_id conn = None" if "eff = SignsIn uid" for uid
    using w(1) that by (auto split: option.splits)
  then show ?thesis using consistent_effect [OF c ss conn w(2) _ w(3)] by blast
qed

lemma keeps_incoming:
  assumes c: "consistent sv S" and ss: "dget S tx = Some ss" "ss_running ss"
    and conn: "dget (sv_conns sv) tx = Some conn" and tx: "h_tx (ss_handle ss) = tx"
  shows "keeps S tx (incoming_turn E now wall frame ok conn ss sv)"
proof -
  let ?c1 = "touch wall conn" and ?sv1 = "set_conn tx (touch wall conn) sv"
  have c1: "consistent ?sv1 S"
    by (rule consistent_benign [OF c benign_touch [OF conn]]) (simp add: conn_after_def touch_def)
  obtain lim ss1 where lim: "limiter_check now ss = (lim, ss1)" by fastforce
  note same = limiter_check_same [OF lim]
  show ?thesis
  proof (cases "lim \<and> (\<exists>text. frame = CText text \<and> length text \<le> max_message_size (ss_app ss))")
    case True
    then obtain msg where frame: "frame = CText msg" "length msg \<le> max_message_size (ss_app ss)" by blast
    obtain reply conn2 sv2 where h: "handle_inbound E now (ss_app ss) (ss_handle ss) msg ?c1 ?sv1 = (reply, conn2, sv2)"
      using prod_cases3 by blast
    have "consistent (set_conn tx conn2 sv2) S"
      by (rule inbound_consistent [OF c1 ss _ h]) simp
    with True frame lim same h tx ss show ?thesis
      by (simp add: incoming_turn_def Let_def keeps_reply keeps_open split: option.split)
  next
    case False
    with lim same tx ss c1 show ?thesis
      by (cases frame; cases lim)
         (auto simp: incoming_turn_def Let_def keeps_reply keeps_open)
  qed
qed

lemma keeps_write_next:
  assumes c: "consistent sv S" and ss: "dget S tx = Some ss" "ss_running ss"
    and mb: "dget (d_net (sv_disp sv)) tx = Some mb" and tx: "h_tx (ss_handle ss) = tx"
  shows "keeps S tx (write_next E now w text mb ss sv)"
proof -
  have "consistent (put_mailbox tx (mb\<lparr>mb_kick := False\<rparr>) sv) S"
    by (rule consistent_benign [OF c quiet_benign [OF put_mailbox_quiet [OF mb]]]) simp
  with c ss tx show ?thesis
    by (cases w) (auto simp: write_next_def going_away_def kicked_out_def intro: keeps_open keeps_close)
qed

lemma keeps_outgoing:
  assumes c: "consistent sv S" and ss: "dget S tx = Some ss" "ss_running ss"
    and mb: "dget (d_net (sv_disp sv)) tx = Some mb" and tx: "h_tx (ss_handle ss) = tx"
  shows "keeps S tx (outgoing_turn E now w mb ss sv)"
proof (cases "mb_queue mb = [] \<or> \<not> write_ready w mb sv")
  case True
  with c ss show ?thesis by (auto simp: outgoing_turn_def keeps_open split: list.split)
next
  case False
  then obtain msg rest where q: "mb_queue mb = msg # rest" "write_ready w mb sv" by (cases "mb_queue mb") auto
  let ?mb = "mb\<lparr>mb_queue := rest\<rparr>" and ?sv = "put_mailbox tx (mb\<lparr>mb_queue := rest\<rparr>) sv"
  have c1: "consistent ?sv S"
    by (rule consistent_benign [OF c quiet_benign [OF put_mailbox_quiet [OF mb]]]) simp
  have "dget (d_net (sv_disp ?sv)) tx = Some ?mb" by (simp add: put_mailbox_def)
  from keeps_write_next [OF c1 ss this tx] keeps_close [OF c1 ss] q tx show ?thesis
    by (cases msg) (simp_all add: outgoing_turn_def Let_def)
qed

lemma keeps_turn:
  assumes c: "consistent sv S" and ss: "dget S tx = Some ss"
  shows "keeps S tx (run_turn E now wall ev ss sv)"
proof (cases "ss_running ss")
  case True
  obtain conn where conn: "dget (sv_conns sv) tx = Some conn" and tx: "h_tx (ss_handle ss) = tx"
    and box: "boxes (d_net (sv_disp sv)) tx = Some False"
    using consistentD [OF c ss True] by blast
  then obtain mb where mb: "dget (d_net (sv_disp sv)) tx = Some mb" by (auto simp: boxes_def)
  have kick: "consistent (put_mailbox tx (mb\<lparr>mb_kick := False\<rparr>) sv) S"
    by (rule consistent_benign [OF c quiet_benign [OF put_mailbox_quiet [OF mb]]]) simp
  note parts = keeps_outgoing [OF c ss True mb tx] keeps_incoming [OF c ss True conn tx]
    keeps_close [OF c ss True] keeps_close [OF kick ss True] keeps_open [OF c ss]
  show ?thesis
    using parts True conn mb tx
    by (cases ev) (auto simp: run_turn_def going_away_def kicked_out_def split: option.split client_frame.split)
next
  case False
  with c ss show ?thesis by (simp add: run_turn_def keeps_open)
qed

section \<open>The beginning of a connection\<close>

lemma fold_max_ge: "k \<in> set ks \<or> k \<le> m \<Longrightarrow> k \<le> fold max ks (m :: nat)"
  by (induction ks arbitrary: m) (simp, fastforce simp: le_max_iff_disj)

lemma fresh_sender_new: "dget net (fresh_sender net) = None"
proof (cases "dget net (fresh_sender net)")
  case (Some mb)
  then have "fresh_sender net \<in> set (dkeys net)" by (force dest: map_of_SomeD)
  from fold_max_ge [OF disjI1 [OF this], of 0] show ?thesis by (simp add: fresh_sender_def)
qed

definition unused :: "socket_id \<Rightarrow> (nat, session) dmap \<Rightarrow> bool" where
  "unused sid S \<longleftrightarrow> list_all (\<lambda>(_, ss). ss_running ss \<longrightarrow> h_socket_id (ss_handle ss) \<noteq> sid) S"

lemma unused_live: "unused sid S \<Longrightarrow> live conns S tx = Some l \<Longrightarrow> lc_sid l \<noteq> sid"
  by (auto simp: unused_def live_def list_all_iff split: option.splits if_splits dest: map_of_SomeD)

lemma handle_absent:
  assumes "mirrors L r" "\<And>tx l. L tx = Some l \<Longrightarrow> lc_sid l \<noteq> sid"
  shows "at_app aid (view_handle sid None) r = r"
proof -
  have "vw_handles (r aid) sid = None"
    using assms(1) found_none [OF assms(2)] by (cases "vw_handles (r aid) sid") (auto simp: mirrors_def)
  then show ?thesis by (simp add: at_app_def view_handle_def fun_upd_idem)
qed

lemma tracks_absent:
  assumes "tracks L tr" "\<And>tx l. L tx = Some l \<Longrightarrow> lc_sid l \<noteq> sid"
  shows "tracks L (tracker_unregister sid (tracker_register sid t tr))"
  using assms(1) found_none [OF assms(2)]
  by (auto simp: tracks_def tracker_register_def tracker_unregister_def)

lemma open_cases:
  assumes tx: "tx = fresh_sender (d_net (sv_disp sv))" and h: "h = \<lparr>h_socket_id = sid, h_tx = tx\<rparr>"
    and reg: "register_connection app h (sv_channels sv) = (r, mgr)"
    and op: "open_connection E wall app sid origin ok sv = (ss', sv')"
  defines "conn \<equiv> connection_new wall app sid origin" and "t \<equiv> \<lparr>tk_conn = tx, tk_handle = h\<rparr>"
    and "d \<equiv> (sv_disp sv)\<lparr>d_net := dput tx new_mailbox (d_net (sv_disp sv))\<rparr>"
  shows "ss_handle ss' = h \<and> ss_app ss' = app \<and>
    (case r of
       Inl _ \<Rightarrow> \<not> ss_running ss' \<and> sv' = drop_connection tx
         (sv\<lparr>sv_disp := d\<lparr>d_channels := mgr\<rparr>, sv_tracker := sv_tracker sv, sv_conns := dput tx conn (sv_conns sv)\<rparr>)
     | Inr _ \<Rightarrow>
         if ok
         then ss_running ss' \<and> sv' = sv\<lparr>sv_disp := d\<lparr>d_channels := mgr\<rparr>,
           sv_tracker := tracker_register sid t (sv_tracker sv), sv_conns := dput tx conn (sv_conns sv)\<rparr>
         else \<not> ss_running ss' \<and> sv' = drop_connection tx
           (sv\<lparr>sv_disp := d\<lparr>d_channels := unregister_connection (app_id app) sid mgr\<rparr>,
               sv_tracker := tracker_unregister sid (tracker_register sid t (sv_tracker sv)),
               sv_conns := dput tx conn (sv_conns sv)\<rparr>))"
proof -
  have reg': "register_connection app \<lparr>h_socket_id = sid, h_tx = fresh_sender (d_net (sv_disp sv))\<rparr>
      (d_channels (sv_disp sv)) = (r, mgr)"
    using reg by (simp add: tx h sv_channels_def)
  show ?thesis
    using op reg' unfolding conn_def t_def d_def h tx
    by (cases r; cases ok)
       (auto simp add: open_connection_def Let_def sv_channels_def on_disp_def
          intro!: arg_cong [where f = "drop_connection (fresh_sender (d_net (sv_disp sv)))"])
qed

lemma disp_wf_replace: "disp_wf d \<Longrightarrow> mgr_wf mgr \<Longrightarrow> disp_wf (d\<lparr>d_net := net, d_channels := mgr\<rparr>)"
  by (simp add: disp_wf_def)

text \<open>A connection that never got going leaves nothing behind but a closed mailbox.\<close>

lemma consistent_stillborn:
  assumes c: "consistent sv S" and new: "dget S tx = None" and fresh: "unused sid S"
    and ss: "h_tx (ss_handle ss') = tx" "\<not> ss_running ss'"
    and mgr: "mgr_wf mgr" "reg_view mgr = reg_view (sv_channels sv)" and tr: "tracks (live (sv_conns sv) S) tr"
    and sv': "sv' = drop_connection tx (sv\<lparr>sv_disp := (sv_disp sv)\<lparr>d_net := dput tx new_mailbox (d_net (sv_disp sv)),
        d_channels := mgr\<rparr>, sv_tracker := tr, sv_conns := dput tx conn (sv_conns sv)\<rparr>)"
  shows "consistent sv' (dput tx ss' S)"
proof -
  let ?L = "live (sv_conns sv) S"
  have "?L tx = None" using new by (simp add: live_def)
  then have same: "?L(tx := None) = ?L" by (simp add: fun_upd_idem)
  show ?thesis
  proof (rule consistent_put [OF c, where l = None])
    show "session_ok sv' tx ss'" using ss by (simp add: sv' session_ok_def boxes_def)
    show "disp_wf (sv_disp sv')" using c mgr by (simp add: sv' consistent_def disp_wf_replace)
    show "mirrors (?L(tx := None)) (reg_view (sv_channels sv'))"
      using c mgr by (simp add: sv' same consistent_def) (simp add: sv_channels_def)
    show "tracks (?L(tx := None)) (sv_tracker sv')" using tr by (simp add: sv' same)
    show "unique_sockets (?L(tx := None))" using c by (simp add: same consistent_def)
  qed (use c ss in \<open>simp_all add: sv' consistent_def boxes_def\<close>)
qed

lemma consistent_established:
  assumes c: "consistent sv S" and new: "dget S tx = None" and fresh: "unused sid S"
    and ss: "ss_handle ss' = h" "ss_running ss'" "ss_app ss' = app" and h: "h = \<lparr>h_socket_id = sid, h_tx = tx\<rparr>"
    and mgr: "mgr_wf mgr" "reg_view mgr = at_app (app_id app) (view_handle sid (Some h)) (reg_view (sv_channels sv))"
    and sv': "sv' = sv\<lparr>sv_disp := (sv_disp sv)\<lparr>d_net := dput tx new_mailbox (d_net (sv_disp sv)), d_channels := mgr\<rparr>,
         sv_tracker := tracker_register sid \<lparr>tk_conn = tx, tk_handle = h\<rparr> (sv_tracker sv),
         sv_conns := dput tx (connection_new wall app sid origin) (sv_conns sv)\<rparr>"
  shows "consistent sv' (dput tx ss' S)"
proof -
  let ?L = "live (sv_conns sv) S" and ?l = "\<lparr>lc_app = app_id app, lc_handle = h, lc_user = None, lc_subs = {}\<rparr>"
  have L: "?L tx = None" using new by (simp add: live_def)
  have u: "unique_sockets ?L" and m: "mirrors ?L (reg_view (sv_channels sv))" and t: "tracks ?L (sv_tracker sv)"
    using c by (simp_all add: consistent_def)
  have absent: "lc_sid l' \<noteq> lc_sid ?l" if "?L tx' = Some l'" for tx' l'
    using unused_live [OF fresh that] by (simp add: h)
  show ?thesis
  proof (rule consistent_put [OF c, where l = "Some ?l"])
    show "mirrors (?L(tx := Some ?l)) (reg_view (sv_channels sv'))"
      using mirrors_new [OF m L absent u] mgr by (simp add: sv' sv_channels_def h)
    show "tracks (?L(tx := Some ?l)) (sv_tracker sv')"
      using tracks_new [OF t u L absent] by (simp add: sv' h)
    show "unique_sockets (?L(tx := Some ?l))" by (rule unique_new [OF u absent])
    show "session_ok sv' tx ss'"
      using ss by (simp add: sv' session_ok_def h boxes_def new_mailbox_def connection_new_def)
    show "disp_wf (sv_disp sv')" using c mgr by (simp add: sv' consistent_def disp_wf_replace)
  qed (use c ss in \<open>simp_all add: sv' consistent_def boxes_def live_of_def connection_new_def\<close>)
qed

lemma consistent_open:
  assumes c: "consistent sv S" and fresh: "unused sid S"
    and op: "open_connection E wall app sid origin ok sv = (ss', sv')"
  shows "consistent sv' (dput (h_tx (ss_handle ss')) ss' S)"
proof -
  define tx where "tx = fresh_sender (d_net (sv_disp sv))"
  define h where "h = \<lparr>h_socket_id = sid, h_tx = tx\<rparr>"
  let ?L = "live (sv_conns sv) S" and ?r = "reg_view (sv_channels sv)"
  have "boxes (d_net (sv_disp sv)) tx = None" by (simp add: boxes_def tx_def fresh_sender_new)
  then have new: "dget S tx = None"
    using c by (cases "dget S tx") (auto simp: consistent_def session_ok_def)
  have m: "mirrors ?L ?r" and t: "tracks ?L (sv_tracker sv)" and wf: "mgr_wf (sv_channels sv)"
    using c by (simp_all add: consistent_def disp_wf_def sv_channels_def)
  note absent = unused_live [OF fresh, of "sv_conns sv"]
  obtain r mgr where reg: "register_connection app h (sv_channels sv) = (r, mgr)" by fastforce
  have mgr: "mgr_wf mgr" using wf mgr_wf_register [of "sv_channels sv" app h] reg by simp
  have view: "reg_view mgr = at_app (app_id app) (view_handle sid (case r of Inr _ \<Rightarrow> Some h | Inl _ \<Rightarrow> None)) ?r"
    using reg_view_register [of app h "sv_channels sv"] reg by (simp add: at_app_def h_def)
  note gone = handle_absent [OF m absent, where aid = "app_id app"]
  note res = open_cases [OF tx_def h_def reg op]
  have tx: "h_tx (ss_handle ss') = tx" using res by (simp add: h_def)
  show ?thesis unfolding tx
  proof (cases r)
    case (Inl err)
    show "consistent sv' (dput tx ss' S)"
      by (rule consistent_stillborn [OF c new fresh tx _ mgr _ t])
         (use res Inl view gone in simp_all)
  next
    case (Inr u)
    show "consistent sv' (dput tx ss' S)"
    proof (cases ok)
      case True
      show ?thesis
        by (rule consistent_established [OF c new fresh _ _ _ h_def mgr])
           (use res Inr True view in simp_all)
    next
      case False
      have un: "reg_view (unregister_connection (app_id app) sid mgr) = ?r"
        using gone view by (simp add: reg_view_unregister at_app_def view_handle_def)
      show ?thesis
        by (rule consistent_stillborn [OF c new fresh tx _ mgr_wf_unregister [OF mgr] _ tracks_absent [OF t absent]])
           (use res Inr False un in simp_all)
    qed
  qed
qed

section \<open>The node as a machine\<close>

text \<open>
  Everything that happens to the shared state outside a connection's own task: an envelope from the
  bus, the tasks of the publish pipeline and of the webhook dispatcher, the ticks of the background
  tasks, the signals, the HTTP API.
\<close>

datatype server_event =
    BusEnvelope instant scaling_envelope
  | PublisherStep pub_op
  | WebhookStep instant wh_op
  | SnapshotTick instant
  | PresenceGcTick instant
  | MaintenanceTick instant int
  | ReloadSignal "config_error + raw_config"
  | RestartPoll int "int option"
  | ShutdownSignal
  | ApiRequest instant int "duration option" api_route string request

fun server_do :: "ext \<Rightarrow> server_event \<Rightarrow> server \<Rightarrow> server" where
  "server_do E (BusEnvelope now env) sv = sv_incoming E now env sv"
| "server_do E (PublisherStep op) sv = on_disp (\<lambda>d. d\<lparr>d_publisher := snd (pub_do E op (d_publisher d))\<rparr>) sv"
| "server_do E (WebhookStep now op) sv =
     sv\<lparr>sv_webhooks := snd (wh_do (sv_event_size sv) (webhook_lookup E sv) op (now, sv_webhooks sv))\<rparr>"
| "server_do E (SnapshotTick now) sv = snapshot_tick E now sv"
| "server_do E (PresenceGcTick now) sv = presence_cache_gc E now sv"
| "server_do E (MaintenanceTick now wall) sv = connection_maintenance now wall sv"
| "server_do E (ReloadSignal loaded) sv = reload_apps E loaded sv"
| "server_do E (RestartPoll started_at mtime) sv = restart_signal_watcher started_at mtime sv"
| "server_do E ShutdownSignal sv = shutdown_now sv"
| "server_do E (ApiRequest now wall arrival route aid rq) sv =
     snd (build_api_router E now wall arrival route aid rq sv)"

text \<open>
  A node: the shared state, the upgrades that were accepted and whose task has not started yet, and
  the sessions.
\<close>

record node =
  nd_server :: server
  nd_upgrades :: "(application \<times> string option) list"
  nd_sessions :: "(nat, session) dmap"

definition node_start :: "string \<Rightarrow> bool \<Rightarrow> nat \<Rightarrow> config \<Rightarrow> node" where
  "node_start node_id scaling_enabled event_size cf =
     \<lparr>nd_server = with_provider node_id scaling_enabled event_size cf, nd_upgrades = [], nd_sessions = []\<rparr>"

text \<open>
  A step carries a label that says what happened: an upgrade was accepted, a connection opened under
  a socket id, the session of a sender took a turn on an event of its loop, or a task of the server
  ran. The label of a turn on a frame holds the text the client sent.
\<close>

datatype node_label =
    Upgrade application
  | Opening socket_id
  | Turn nat instant int loop_event
  | Serving server_event

inductive node_step :: "ext \<Rightarrow> node_label \<Rightarrow> node \<Rightarrow> node \<Rightarrow> bool" for E where
  upgraded: "ws_upgrade E key protocol origin (nd_server nd) = AcceptFor limit app origin' \<Longrightarrow>
     node_step E (Upgrade app) nd (nd\<lparr>nd_upgrades := nd_upgrades nd @ [(app, origin')]\<rparr>)"
| opened: "(app, origin) \<in> set (nd_upgrades nd) \<Longrightarrow> unused sid (nd_sessions nd) \<Longrightarrow>
     open_connection E wall app sid origin ok (nd_server nd) = (ss, sv) \<Longrightarrow>
     node_step E (Opening sid) nd \<lparr>nd_server = sv, nd_upgrades = remove1 (app, origin) (nd_upgrades nd),
                                   nd_sessions = dput (h_tx (ss_handle ss)) ss (nd_sessions nd)\<rparr>"
| turned: "dget (nd_sessions nd) tx = Some ss \<Longrightarrow> run_turn E now wall ev ss (nd_server nd) = (ss', sv) \<Longrightarrow>
     node_step E (Turn tx now wall ev) nd (nd\<lparr>nd_server := sv, nd_sessions := dput tx ss' (nd_sessions nd)\<rparr>)"
| served: "node_step E (Serving ev) nd (nd\<lparr>nd_server := server_do E ev (nd_server nd)\<rparr>)"

inductive_cases node_stepE: "node_step E label nd nd'"

inductive reachable :: "ext \<Rightarrow> node \<Rightarrow> bool" for E where
  start: "config_ok cf \<Longrightarrow> reachable E (node_start node_id scaling event_size cf)"
| step: "reachable E nd \<Longrightarrow> node_step E label nd nd' \<Longrightarrow> reachable E nd'"

definition node_ok :: "node \<Rightarrow> bool" where
  "node_ok nd \<longleftrightarrow> consistent (nd_server nd) (nd_sessions nd)"

lemma benign_server_do: "benign sv (server_do E ev sv)"
proof (cases ev)
  case (WebhookStep now op)
  then show ?thesis by (simp add: benign_def conn_after_refl sv_channels_def)
qed (simp_all add: quiet_benign quiet_incoming quiet_disp dstep_pub_do quiet_snapshot_tick
      quiet_presence_cache_gc benign_connection_maintenance benign_reload_apps benign_restart
      benign_shutdown quiet_api)

lemma node_ok_step: "node_step E label nd nd' \<Longrightarrow> node_ok nd \<Longrightarrow> node_ok nd'"
proof (induction rule: node_step.induct)
  case (opened app origin nd sid wall ok ss sv)
  then show ?case by (simp add: node_ok_def consistent_open)
next
  case (turned nd tx ss now wall ev ss' sv)
  from keeps_turn [of "nd_server nd" "nd_sessions nd" tx ss E now wall ev] turned
  show ?case by (simp add: node_ok_def keeps_def)
next
  case (served ev nd)
  then show ?case using consistent_benign [OF _ benign_server_do] by (simp add: node_ok_def)
qed (simp add: node_ok_def)

lemma node_ok_start:
  assumes "config_ok cf"
  shows "node_ok (node_start node_id scaling event_size cf)"
proof -
  have "reg_view manager_new = (\<lambda>_. \<lparr>vw_members = (\<lambda>_. {}), vw_users = (\<lambda>_. {}), vw_handles = (\<lambda>_. None)\<rparr>)"
    by (auto simp: fun_eq_iff reg_view_def slot_view_def app_slot_def manager_new_def app_channels_default_def)
  then show ?thesis
    using disp_wf_provider [of node_id scaling event_size cf] assms
    by (simp add: node_ok_def node_start_def consistent_def with_provider_def live_def dispatcher_new_def
        unique_sockets_def mirrors_def tracks_def found_def sv_channels_def)
qed

lemma reachable_ok: "reachable E nd \<Longrightarrow> node_ok nd"
  by (induction rule: reachable.induct) (auto intro: node_ok_start node_ok_step)

section \<open>The registry mirrors the connections\<close>

text \<open>A running session of this socket and application, whose handle and connection satisfy a predicate.\<close>

definition connected ::
  "node \<Rightarrow> app_id \<Rightarrow> socket_id \<Rightarrow> (connection_handle \<Rightarrow> connection \<Rightarrow> bool) \<Rightarrow> bool" where
  "connected nd aid sid Q \<longleftrightarrow>
     (\<exists>tx ss c. dget (nd_sessions nd) tx = Some ss \<and> ss_running ss \<and>
        dget (sv_conns (nd_server nd)) tx = Some c \<and> app_id (ss_app ss) = aid \<and>
        h_socket_id (ss_handle ss) = sid \<and> Q (ss_handle ss) c)"

abbreviation node_view :: "node \<Rightarrow> app_id \<Rightarrow> registry_view" where
  "node_view nd \<equiv> reg_view (sv_channels (nd_server nd))"

lemma live_Some:
  "live conns S tx = Some l \<longleftrightarrow>
     (\<exists>ss c. dget S tx = Some ss \<and> ss_running ss \<and> dget conns tx = Some c \<and> l = live_of ss c)"
  by (auto simp: live_def split: option.split)

lemma found_connected:
  "found (live (sv_conns (nd_server nd)) (nd_sessions nd)) sid (\<lambda>_ l. lc_app l = aid \<and> n \<in> lc_subs l) \<longleftrightarrow>
     connected nd aid sid (\<lambda>_ c. n \<in> set (c_subscriptions c))"
  "found (live (sv_conns (nd_server nd)) (nd_sessions nd)) sid (\<lambda>_ l. lc_app l = aid \<and> lc_user l = Some u) \<longleftrightarrow>
     connected nd aid sid (\<lambda>_ c. c_user_id c = Some u)"
  "found (live (sv_conns (nd_server nd)) (nd_sessions nd)) sid (\<lambda>_ l. lc_app l = aid \<and> lc_handle l = h) \<longleftrightarrow>
     connected nd aid sid (\<lambda>h' _. h' = h)"
  unfolding found_def connected_def live_Some by (auto; force)+

lemma tracked_connected:
  assumes "tracks (live (sv_conns (nd_server nd)) (nd_sessions nd)) tr"
  shows "(\<exists>t. dget tr sid = Some t \<and> tk_handle t = h) \<longleftrightarrow> (\<exists>aid. connected nd aid sid (\<lambda>h' _. h' = h))"
proof -
  have iff: "dget tr sid = Some t \<longleftrightarrow>
      (\<exists>tx ss c. dget (nd_sessions nd) tx = Some ss \<and> ss_running ss \<and> dget (sv_conns (nd_server nd)) tx = Some c \<and>
         h_socket_id (ss_handle ss) = sid \<and> t = \<lparr>tk_conn = tx, tk_handle = ss_handle ss\<rparr>)" for t
    using assms unfolding tracks_def found_def live_Some by (auto; force)
  show ?thesis unfolding iff connected_def by (auto; force)
qed

section \<open>An idle node holds nothing\<close>

lemma dget_empty: "(\<And>k. dget m k = None) \<Longrightarrow> m = []"
  by (metis map_of_eq_empty_iff ext)

definition idle :: "node \<Rightarrow> bool" where
  "idle nd \<longleftrightarrow>
     list_all (\<lambda>tx. case dget (nd_sessions nd) tx of Some ss \<Rightarrow> \<not> ss_running ss | None \<Rightarrow> True)
       (dkeys (nd_sessions nd))"

lemma idle_iff: "idle nd \<longleftrightarrow> (\<forall>tx ss. dget (nd_sessions nd) tx = Some ss \<longrightarrow> \<not> ss_running ss)"
proof -
  have "tx \<in> set (dkeys m)" if "dget m tx = Some ss" for tx ss and m :: "(nat, session) dmap"
    using map_of_SomeD [OF that] by force
  then show ?thesis unfolding idle_def list_all_iff by (simp del: set_map split: option.split) blast
qed

lemma idle_tables:
  assumes ok: "node_ok nd" and idle: "idle nd"
  shows "sv_tracker (nd_server nd) = []" "sv_conns (nd_server nd) = []"
    "vw_members (node_view nd aid) n = {}" "vw_users (node_view nd aid) u = {}"
    "vw_handles (node_view nd aid) sid = None"
proof -
  let ?S = "nd_sessions nd" and ?conns = "sv_conns (nd_server nd)"
  have stopped: "\<not> ss_running ss" if "dget ?S tx = Some ss" for tx ss
    using idle that by (simp add: idle_iff)
  then have none: "\<not> found (live ?conns ?S) sid Q" for sid Q
    by (auto simp: found_def live_Some)
  have "dget ?conns tx = None" for tx
  proof (cases "dget ?S tx")
    case (Some ss)
    then have "session_ok (nd_server nd) tx ss" using ok by (simp add: node_ok_def consistent_def)
    with stopped [OF Some] show ?thesis by (simp add: session_ok_def split: option.splits)
  qed (use ok in \<open>simp add: node_ok_def consistent_def\<close>)
  then show "?conns = []" by (rule dget_empty)
  have "dget (sv_tracker (nd_server nd)) sid = None" for sid
    using ok none by (cases "dget (sv_tracker (nd_server nd)) sid") (auto simp: node_ok_def consistent_def tracks_def)
  then show "sv_tracker (nd_server nd) = []" by (rule dget_empty)
  show "vw_members (node_view nd aid) n = {}" "vw_users (node_view nd aid) u = {}"
    "vw_handles (node_view nd aid) sid = None"
    using ok none by (auto simp: node_ok_def consistent_def mirrors_def)
qed

lemma idle_channels:
  assumes "mgr_wf mgr" and "\<And>n. vw_members (reg_view mgr aid) n = {}" and "ch \<in> set (mgr_channels aid mgr)"
  shows "is_cache (ch_kind ch)"
proof -
  obtain slot name where slot: "dget mgr aid = Some slot" "(name, ch) \<in> set (ac_channels slot)"
    using assms(3) by (cases "dget mgr aid") (auto simp: mgr_channels_def)
  from slot(1) assms(1) have wf: "slot_wf slot" by (auto dest: mgr_wf_get)
  then have ch: "dget (ac_channels slot) name = Some ch" using slot(2) by (simp add: slot_wf_def dwf_in_iff)
  then have "find_channel aid name mgr = Some ch" using slot(1) by (simp add: find_channel_def)
  then have "channel_entry_ok name ch" "ch_members ch = []"
    using mgr_wf_find [OF assms(1)] assms(2) [of name] by (auto simp: reg_view_simps channel_sockets_def)
  then show ?thesis by (auto simp: channel_entry_ok_def ch_is_empty_def)
qed

lemma idle_empty:
  assumes ok: "node_ok nd" and "idle nd"
  shows "connection_count aid (sv_channels (nd_server nd)) = 0 \<and>
         \<not> is_user_online aid u (sv_channels (nd_server nd)) \<and>
         list_all (\<lambda>ch. is_cache (ch_kind ch)) (mgr_channels aid (sv_channels (nd_server nd))) \<and>
         sv_tracker (nd_server nd) = [] \<and> sv_conns (nd_server nd) = []"
proof -
  note tables = idle_tables [OF ok assms(2)]
  let ?mgr = "sv_channels (nd_server nd)"
  have "mgr_wf ?mgr" using ok by (simp add: node_ok_def consistent_def disp_wf_def sv_channels_def)
  then have "list_all (\<lambda>ch. is_cache (ch_kind ch)) (mgr_channels aid ?mgr)"
    using idle_channels tables(3) unfolding list_all_iff by blast
  moreover have "connection_count aid ?mgr = 0"
  proof (cases "dget ?mgr aid")
    case (Some slot)
    have "dget (ac_connections slot) sid = None" for sid
      using tables(5) [of aid sid] Some by (simp add: reg_view_simps handle_for_socket_def)
    then have "ac_connections slot = []" by (rule dget_empty)
    with Some show ?thesis by (simp add: connection_count_def)
  qed (simp add: connection_count_def)
  moreover have "\<not> is_user_online aid u ?mgr"
    using tables(4) [of aid u] by (simp add: reg_view_simps is_user_online_iff)
  ultimately show ?thesis using tables by simp
qed

section \<open>A sample history\<close>

text \<open>One connection of the sample application, opened on a fresh node.\<close>

definition sample_opening :: "ext \<Rightarrow> session \<times> server" where
  "sample_opening E = open_connection E 0 sample_app ''1.2'' None True sample_server"

definition sample_node :: "ext \<Rightarrow> node" where
  "sample_node E =
     \<lparr>nd_server = snd (sample_opening E), nd_upgrades = [], nd_sessions = [(1, fst (sample_opening E))]\<rparr>"

lemma sample_opening_facts:
  "ss_handle (fst (sample_opening E)) = \<lparr>h_socket_id = ''1.2'', h_tx = 1\<rparr>"
  "ss_app (fst (sample_opening E)) = sample_app" "ss_running (fst (sample_opening E))"
  "ss_limiter (fst (sample_opening E)) = None" "sv_config (snd (sample_opening E)) = sample_config"
  "sv_conns (snd (sample_opening E)) = [(1, connection_new 0 sample_app ''1.2'' None)]"
  by (simp_all add: sample_opening_def open_connection_def Let_def fresh_sender_def sample_server_simps
      register_connection_eq sv_channels_def app_slot_def manager_new_def app_channels_default_def
      sample_app_def session_limiter_def dput_new)

lemma sample_node_reachable: "reachable E (sample_node E)"
proof -
  let ?nd0 = "node_start ''node'' False 100 sample_config"
  let ?nd1 = "?nd0\<lparr>nd_upgrades := nd_upgrades ?nd0 @ [(sample_app, None)]\<rparr>"
  have sv: "nd_server ?nd0 = sample_server" by (simp add: node_start_def sample_server_def)
  have "ws_upgrade E ''key'' None None (nd_server ?nd0) =
      AcceptFor (transport_message_limit (max_message_size sample_app)) sample_app None"
    by (simp add: sv ws_upgrade_def is_draining_def sample_server_simps origin_blocked_def Let_def)
  from reachable.step [OF reachable.start [OF config_ok_sample] node_step.upgraded [OF this]]
  have r1: "reachable E ?nd1" .
  have "node_step E (Opening ''1.2'') ?nd1 \<lparr>nd_server = snd (sample_opening E), nd_upgrades = remove1 (sample_app, None) (nd_upgrades ?nd1),
      nd_sessions = dput (h_tx (ss_handle (fst (sample_opening E)))) (fst (sample_opening E)) (nd_sessions ?nd1)\<rparr>"
    by (rule node_step.opened [where wall = 0 and sid = "''1.2''" and ok = True])
       (simp_all add: node_start_def unused_def sample_opening_def sample_server_def)
  from reachable.step [OF r1 this] show ?thesis
    by (simp add: sample_node_def sample_opening_facts node_start_def)
qed

end
