(* ===== verification/Node_Safety.thy ===== *)
theory Node_Safety
  imports Node_System
begin

text \<open>
  What follows for clients from the machine of \<open>Node_System\<close>: nobody becomes a member of a private
  channel or a session of a user without the token the application's secret signs, whatever else
  happens on the node; and a node told to shut down can close every connection and empty itself.
\<close>

section \<open>What a turn does to the connection\<close>

text \<open>
  The effect is the one the text of the turn's own frame warrants; a turn on anything else has none.
\<close>

definition carried :: "ext \<Rightarrow> application \<Rightarrow> connection \<Rightarrow> loop_event \<Rightarrow> frame_effect \<Rightarrow> bool" where
  "carried E app c ev eff \<longleftrightarrow>
     (case ev of
        Ws_Session.Incoming (Some (CText msg)) ok \<Rightarrow> warranted E app c msg eff
      | _ \<Rightarrow> eff = NoEffect)"

lemma carried_NoEffect [simp]: "carried E app c ev NoEffect"
  by (auto simp: carried_def split: loop_event.split option.split client_frame.split)

lemma carried_text [simp]: "carried E app c (Ws_Session.Incoming (Some (CText msg)) ok) eff = warranted E app c msg eff"
  by (simp add: carried_def)

lemma carriedE:
  assumes "carried E app c ev eff" "eff \<noteq> NoEffect"
  obtains msg ok where "ev = Ws_Session.Incoming (Some (CText msg)) ok" "warranted E app c msg eff"
  using assms by (auto simp: carried_def split: loop_event.splits option.splits client_frame.splits)

text \<open>
  The connections after a turn: the others are untouched, the session's own is gone or changed by
  one effect the turn carried.
\<close>

definition own_effect ::
  "ext \<Rightarrow> application \<Rightarrow> loop_event \<Rightarrow> nat \<Rightarrow> connection \<Rightarrow> (nat, connection) dmap \<Rightarrow> server \<Rightarrow> bool" where
  "own_effect E app ev tx c conns sv' \<longleftrightarrow>
     (\<forall>t. t \<noteq> tx \<longrightarrow> dget (sv_conns sv') t = dget conns t) \<and>
     (case dget (sv_conns sv') tx of
        None \<Rightarrow> True
      | Some c' \<Rightarrow> \<exists>eff. carried E app c ev eff \<and> conn_after eff c c')"

lemma own_effect_none: "dget conns tx = Some c \<Longrightarrow> sv_conns sv' = conns \<Longrightarrow> own_effect E app ev tx c conns sv'"
  by (auto simp: own_effect_def conn_after_def intro!: exI [of _ NoEffect])

lemma cleanup_conns: "sv_conns (cleanup_connection E now app conn sid sv) = sv_conns sv"
  using cleanup_change [of app sid conn sv E now] by (simp add: schange_def)

lemma close_conns:
  "sv_conns (snd (close_session E now ss sv)) = ddel (h_tx (ss_handle ss)) (sv_conns sv)"
  by (simp add: close_session_def Let_def cleanup_conns split: option.split)

lemma own_effect_close:
  "h_tx (ss_handle ss) = tx \<Longrightarrow> (\<And>t. t \<noteq> tx \<Longrightarrow> dget (sv_conns sv) t = dget conns t) \<Longrightarrow>
     own_effect E app ev tx c conns (snd (close_session E now ss sv))"
  by (simp add: own_effect_def close_conns)

lemma own_effect_reply:
  assumes "own_effect E app ev tx c conns sv" "h_tx (ss_handle ss) = tx"
  shows "own_effect E app ev tx c conns (snd (reply_or_close E now ok msg ss sv))"
  using assms own_effect_close [of "ss_send [SText msg] ss" tx sv conns E app ev c now]
  by (auto simp: reply_or_close_def Let_def own_effect_def)

lemma warranted_touch: "warranted E app (touch wall c) msg eff = warranted E app c msg eff"
  by (cases eff) (simp_all add: touch_def is_subscribed_def conn_subscription_count_def
      cong: option.case_cong)

lemma incoming_effect:
  assumes c: "consistent sv S" and ss: "dget S tx = Some ss" "ss_running ss"
    and conn: "dget (sv_conns sv) tx = Some conn" and tx: "h_tx (ss_handle ss) = tx"
  shows "own_effect E (live_app (ss_app ss) sv) (Ws_Session.Incoming (Some frame) ok) tx conn (sv_conns sv)
           (snd (incoming_turn E now wall frame ok conn ss sv))"
proof -
  let ?c1 = "touch wall conn" and ?sv1 = "set_conn tx (touch wall conn) sv"
  let ?app = "live_app (ss_app ss) sv" and ?ev = "Ws_Session.Incoming (Some frame) ok"
  have app: "live_app (ss_app ss) ?sv1 = ?app" by (simp add: live_app_def)
  have touched: "own_effect E ?app ?ev tx conn (sv_conns sv) ?sv1"
    by (auto simp: own_effect_def conn_after_def touch_def intro!: exI [of _ NoEffect])
  obtain lim ss1 where lim: "limiter_check now ss = (lim, ss1)" by fastforce
  note same = limiter_check_same [OF lim]
  show ?thesis
  proof (cases "lim \<and> (\<exists>msg. frame = CText msg \<and> length msg \<le> max_message_size (ss_app ss))")
    case True
    then obtain msg where frame: "frame = CText msg" "length msg \<le> max_message_size (ss_app ss)" by blast
    obtain reply conn2 sv2 where h: "handle_inbound E now (ss_app ss) (ss_handle ss) msg ?c1 ?sv1 = (reply, conn2, sv2)"
      using prod_cases3 by blast
    have "config_ok (sv_config ?sv1)" using c by (simp add: consistent_def)
    from handle_inbound_change [OF this h] obtain eff where
      eff: "warranted E ?app ?c1 msg eff" "conn_after eff ?c1 conn2" and conns: "sv_conns sv2 = sv_conns ?sv1"
      unfolding app by (auto simp: schange_def)
    have "conn_after eff conn conn2" using eff(2) by (cases eff) (simp_all add: conn_after_def touch_def)
    with eff(1) conns frame(1) have "own_effect E ?app ?ev tx conn (sv_conns sv) (set_conn tx conn2 sv2)"
      by (auto simp: own_effect_def warranted_touch)
    with True frame lim same h tx show ?thesis
      by (simp add: incoming_turn_def Let_def own_effect_reply split: option.split)
  next
    case False
    with lim same tx touched show ?thesis
      by (cases frame; cases lim) (auto simp: incoming_turn_def Let_def own_effect_reply)
  qed
qed

lemma put_mailbox_conns [simp]: "sv_conns (put_mailbox tx mb sv) = sv_conns sv"
  by (simp add: put_mailbox_def)

lemma turn_effect:
  assumes c: "consistent sv S" and ss: "dget S tx = Some ss" "ss_running ss"
    and conn: "dget (sv_conns sv) tx = Some conn" and tx: "h_tx (ss_handle ss) = tx"
  shows "own_effect E (live_app (ss_app ss) sv) ev tx conn (sv_conns sv) (snd (run_turn E now wall ev ss sv))"
proof -
  let ?ok = "\<lambda>r. own_effect E (live_app (ss_app ss) sv) ev tx conn (sv_conns sv) (snd r)"
  have close: "?ok (close_session E now ss1 sv1)" if "ss_handle ss1 = ss_handle ss" "sv_conns sv1 = sv_conns sv" for ss1 sv1
    using that tx by (simp add: own_effect_close)
  have stays: "?ok (ss1, sv1)" if "sv_conns sv1 = sv_conns sv" for ss1 sv1
    using that conn by (simp add: own_effect_none)
  have writes: "?ok (write_next E now w msg mb ss sv1)" if "sv_conns sv1 = sv_conns sv" for w msg mb sv1
    using that by (cases w) (simp_all add: write_next_def going_away_def kicked_out_def close stays del: snd_conv)
  have out: "?ok (outgoing_turn E now w mb ss sv)" for w mb
  proof (cases "mb_queue mb = [] \<or> \<not> write_ready w mb sv")
    case True
    with stays [of sv ss] show ?thesis by (auto simp: outgoing_turn_def split: list.split)
  next
    case False
    then obtain m rest where "mb_queue mb = m # rest" "write_ready w mb sv" by (cases "mb_queue mb") auto
    then show ?thesis
      by (cases m) (simp_all add: outgoing_turn_def Let_def writes close)
  qed
  note parts = incoming_effect [OF c ss conn tx] out
  obtain mb where mb: "dget (d_net (sv_disp sv)) tx = Some mb"
    using consistentD [OF c ss] conn by (auto simp: boxes_def)
  show ?thesis
    using parts stays [of sv ss] conn mb tx ss
    by (cases ev)
       (auto simp: run_turn_def going_away_def kicked_out_def own_effect_close split: option.split client_frame.split)
qed

text \<open>A turn never changes whose session it is.\<close>

lemma close_session_same:
  "ss_handle (fst (close_session E now ss sv)) = ss_handle ss" "ss_app (fst (close_session E now ss sv)) = ss_app ss"
  by (simp_all add: close_session_def Let_def)

lemma reply_or_close_same:
  "ss_handle (fst (reply_or_close E now ok msg ss sv)) = ss_handle ss"
  "ss_app (fst (reply_or_close E now ok msg ss sv)) = ss_app ss"
  by (simp_all add: reply_or_close_def Let_def close_session_same)

lemma incoming_same:
  "ss_handle (fst (incoming_turn E now wall frame ok conn ss sv)) = ss_handle ss \<and>
   ss_app (fst (incoming_turn E now wall frame ok conn ss sv)) = ss_app ss"
proof -
  obtain lim ss1 where lim: "limiter_check now ss = (lim, ss1)" by fastforce
  note same = limiter_check_same [OF lim]
  then show ?thesis
    by (cases lim; cases frame)
       (auto simp: incoming_turn_def Let_def lim reply_or_close_same split: prod.split option.split)
qed

lemma outgoing_same:
  "ss_handle (fst (outgoing_turn E now w mb ss sv)) = ss_handle ss \<and>
   ss_app (fst (outgoing_turn E now w mb ss sv)) = ss_app ss"
  by (cases w)
     (auto simp: outgoing_turn_def write_next_def Let_def going_away_def kicked_out_def close_session_same
        split: list.split outbound.split)

lemma run_turn_same:
  "ss_handle (fst (run_turn E now wall ev ss sv)) = ss_handle ss \<and>
   ss_app (fst (run_turn E now wall ev ss sv)) = ss_app ss"
  by (cases "ss_running ss"; cases ev)
     (auto simp: run_turn_def going_away_def kicked_out_def close_session_same incoming_same outgoing_same
        split: option.split client_frame.split)

section \<open>Tokens\<close>

lemma open_members:
  assumes "open_connection E wall app sid origin ok sv = (ss, sv')"
  shows "vw_members (reg_view (sv_channels sv') aid) = vw_members (reg_view (sv_channels sv) aid) \<and>
         vw_users (reg_view (sv_channels sv') aid) = vw_users (reg_view (sv_channels sv) aid)"
proof -
  let ?tx = "fresh_sender (d_net (sv_disp sv))"
  let ?h = "\<lparr>h_socket_id = sid, h_tx = ?tx\<rparr>"
  obtain r mgr where reg: "register_connection app ?h (sv_channels sv) = (r, mgr)" by fastforce
  have "sv_channels sv' = mgr \<or> sv_channels sv' = unregister_connection (app_id app) sid mgr"
    using open_cases [OF refl refl reg assms]
    by (cases r; cases ok) (auto simp: sv_channels_def drop_connection_def)
  moreover have "reg_view mgr = (reg_view (sv_channels sv))(app_id app := view_handle sid
      (case r of Inr _ \<Rightarrow> Some ?h | Inl _ \<Rightarrow> None) (reg_view (sv_channels sv) (app_id app)))"
    using reg_view_register [of app ?h "sv_channels sv"] reg by simp
  ultimately show ?thesis by (auto simp: reg_view_unregister view_handle_def)
qed

text \<open>
  The step in which a socket newly appears in a channel or in a user's sessions: a turn of its own
  session, on a frame that warrants it.
\<close>

lemma new_record:
  assumes ok: "node_ok nd" "node_ok nd'" and step: "node_step E label nd nd'"
    and new: "found (live (sv_conns (nd_server nd')) (nd_sessions nd')) sid (\<lambda>_ l. lc_app l = aid \<and> Q l)"
      "\<not> found (live (sv_conns (nd_server nd)) (nd_sessions nd)) sid (\<lambda>_ l. lc_app l = aid \<and> Q l)"
    and moved: "vw_members (node_view nd' aid) \<noteq> vw_members (node_view nd aid) \<or>
      vw_users (node_view nd' aid) \<noteq> vw_users (node_view nd aid)"
  obtains tx now wall ev ss c c' eff where "label = Turn tx now wall ev" "dget (nd_sessions nd) tx = Some ss"
    "h_socket_id (ss_handle ss) = sid" "c_socket_id c = sid" "app_id (ss_app ss) = aid"
    "live (sv_conns (nd_server nd)) (nd_sessions nd) tx = Some (live_of ss c)" "lc_sid (live_of ss c) = sid"
    "carried E (live_app (ss_app ss) (nd_server nd)) c ev eff" "conn_after eff c c'"
    "Q (live_of ss c')" "\<not> Q (live_of ss c)"
  using step
proof (cases rule: node_step.cases)
  case (turned tx ss now wall ev ss' sv)
  let ?S = "nd_sessions nd" and ?sv = "nd_server nd"
  have c: "consistent ?sv ?S" using ok by (simp add: node_ok_def)
  have same: "ss_handle ss' = ss_handle ss" "ss_app ss' = ss_app ss"
    using run_turn_same [of E now wall ev ss ?sv] turned by simp_all
  from new(1) obtain t l where l: "live (sv_conns sv) (dput tx ss' ?S) t = Some l" "lc_sid l = sid"
    "lc_app l = aid" "Q l"
    unfolding found_def turned(2) by auto
  show ?thesis
  proof (cases "ss_running ss")
    case True
    from consistentD [OF c turned(3) True] obtain conn where
      conn: "dget (sv_conns ?sv) tx = Some conn" "c_socket_id conn = h_socket_id (ss_handle ss)"
        "h_tx (ss_handle ss) = tx" and lv: "live (sv_conns ?sv) ?S tx = Some (live_of ss conn)" by blast
    from turn_effect [OF c turned(3) True conn(1,3), of E ev now wall] turned(4)
    have own: "own_effect E (live_app (ss_app ss) ?sv) ev tx conn (sv_conns ?sv) sv" by simp
    have tx: "t = tx"
    proof (rule ccontr)
      assume "t \<noteq> tx"
      moreover from this have "dget (sv_conns sv) t = dget (sv_conns ?sv) t"
        using own by (simp add: own_effect_def)
      ultimately have "live (sv_conns ?sv) ?S t = Some l"
        using l(1) unfolding live_Some by simp
      with new(2) l show False unfolding found_def by blast
    qed
    from l(1) obtain c' where c': "dget (sv_conns sv) tx = Some c'" "l = live_of ss' c'"
      unfolding tx live_Some by auto
    then obtain eff where eff: "carried E (live_app (ss_app ss) ?sv) conn ev eff" "conn_after eff conn c'"
      using own by (auto simp: own_effect_def)
    have ss': "live_of ss' x = live_of ss x" for x using same by (simp add: live_of_def)
    have "\<not> Q (live_of ss conn)"
      using new(2) lv l c'(2) same unfolding found_def by auto
    then show ?thesis using that [OF turned(1,3) _ _ _ lv _ eff] l c' conn same by (simp add: ss')
  next
    case False
    then have "ss' = ss" "sv = ?sv" using turned(4) by (auto simp: run_turn_def)
    with new turned(2,3) show ?thesis by (simp add: dput_same)
  qed
next
  case (opened app origin sid' wall ok ss sv)
  with open_members [OF opened(5), of aid] moved show ?thesis by simp
next
  case (served ev)
  with benign_server_do [of "nd_server nd" E ev] ok moved show ?thesis
    by (simp add: benign_def node_ok_def consistent_def)
qed (use moved in simp)

lemma new_member:
  assumes "reachable E nd" and step: "node_step E label nd nd'"
    and new: "sid \<in> vw_members (node_view nd' aid) n" "sid \<notin> vw_members (node_view nd aid) n"
  obtains tx now wall msg ok ss c where "label = Turn tx now wall (Ws_Session.Incoming (Some (CText msg)) ok)"
    "dget (nd_sessions nd) tx = Some ss" "h_socket_id (ss_handle ss) = sid" "app_id (ss_app ss) = aid"
    "c_socket_id c = sid" "warranted E (live_app (ss_app ss) (nd_server nd)) c msg (Joins n)"
proof -
  have ok: "node_ok nd" "node_ok nd'"
    using assms(1) step reachable_ok reachable.step by blast+
  from new ok have found: "found (live (sv_conns (nd_server nd')) (nd_sessions nd')) sid (\<lambda>_ l. lc_app l = aid \<and> n \<in> lc_subs l)"
    "\<not> found (live (sv_conns (nd_server nd)) (nd_sessions nd)) sid (\<lambda>_ l. lc_app l = aid \<and> n \<in> lc_subs l)"
    by (simp_all add: node_ok_def consistent_def mirrors_def)
  from new have moved: "vw_members (node_view nd' aid) \<noteq> vw_members (node_view nd aid) \<or>
      vw_users (node_view nd' aid) \<noteq> vw_users (node_view nd aid)" by auto
  obtain tx now wall ev ss c c' eff where
    t: "label = Turn tx now wall ev" "dget (nd_sessions nd) tx = Some ss" "h_socket_id (ss_handle ss) = sid"
      "c_socket_id c = sid" "app_id (ss_app ss) = aid" and
    r: "carried E (live_app (ss_app ss) (nd_server nd)) c ev eff" "conn_after eff c c'"
      "n \<in> lc_subs (live_of ss c')" "n \<notin> lc_subs (live_of ss c)"
    by (rule new_record [OF ok step found moved])
  have eff: "eff = Joins n" using r(2-4) by (cases eff) (auto simp: conn_after_def)
  obtain msg ok where "ev = Ws_Session.Incoming (Some (CText msg)) ok"
    "warranted E (live_app (ss_app ss) (nd_server nd)) c msg (Joins n)"
    by (rule carriedE [OF r(1) [unfolded eff]]) simp
  then show ?thesis using that t by blast
qed

lemma new_session:
  assumes "reachable E nd" and step: "node_step E label nd nd'"
    and new: "sid \<in> vw_users (node_view nd' aid) u" "sid \<notin> vw_users (node_view nd aid) u"
  obtains tx now wall msg ok ss c where "label = Turn tx now wall (Ws_Session.Incoming (Some (CText msg)) ok)"
    "dget (nd_sessions nd) tx = Some ss" "h_socket_id (ss_handle ss) = sid" "app_id (ss_app ss) = aid"
    "c_socket_id c = sid" "warranted E (live_app (ss_app ss) (nd_server nd)) c msg (SignsIn u)"
    "\<forall>u'. sid \<notin> vw_users (node_view nd aid) u'"
proof -
  have ok: "node_ok nd" "node_ok nd'"
    using assms(1) step reachable_ok reachable.step by blast+
  from new ok have found: "found (live (sv_conns (nd_server nd')) (nd_sessions nd')) sid (\<lambda>_ l. lc_app l = aid \<and> lc_user l = Some u)"
    "\<not> found (live (sv_conns (nd_server nd)) (nd_sessions nd)) sid (\<lambda>_ l. lc_app l = aid \<and> lc_user l = Some u)"
    by (simp_all add: node_ok_def consistent_def mirrors_def)
  from new have moved: "vw_members (node_view nd' aid) \<noteq> vw_members (node_view nd aid) \<or>
      vw_users (node_view nd' aid) \<noteq> vw_users (node_view nd aid)" by auto
  obtain tx now wall ev ss c c' eff where
    t: "label = Turn tx now wall ev" "dget (nd_sessions nd) tx = Some ss" "h_socket_id (ss_handle ss) = sid"
      "c_socket_id c = sid" "app_id (ss_app ss) = aid" and
    lv: "live (sv_conns (nd_server nd)) (nd_sessions nd) tx = Some (live_of ss c)" "lc_sid (live_of ss c) = sid" and
    r: "carried E (live_app (ss_app ss) (nd_server nd)) c ev eff" "conn_after eff c c'"
      "lc_user (live_of ss c') = Some u" "lc_user (live_of ss c) \<noteq> Some u"
    by (rule new_record [OF ok step found moved])
  have eff: "eff = SignsIn u" using r(2-4) by (cases eff) (auto simp: conn_after_def)
  obtain msg ok' where w: "ev = Ws_Session.Incoming (Some (CText msg)) ok'"
    "warranted E (live_app (ss_app ss) (nd_server nd)) c msg (SignsIn u)"
    by (rule carriedE [OF r(1) [unfolded eff]]) simp
  then have "c_user_id c = None" by (simp split: option.splits)
  moreover have "unique_sockets (live (sv_conns (nd_server nd)) (nd_sessions nd))"
    using ok by (simp add: node_ok_def consistent_def)
  ultimately have "\<forall>u'. sid \<notin> vw_users (node_view nd aid) u'"
    using found_own [of "live (sv_conns (nd_server nd)) (nd_sessions nd)", OF _ lv(1)] lv(2) ok by (simp add: node_ok_def consistent_def mirrors_def)
  then show ?thesis using that t w by blast
qed

section \<open>Shutdown\<close>

text \<open>One turn of every session of a draining node, in the order of the table.\<close>

definition drain_session :: "ext \<Rightarrow> instant \<Rightarrow> int \<Rightarrow> nat \<Rightarrow> node \<Rightarrow> node" where
  "drain_session E now wall tx nd =
     (case dget (nd_sessions nd) tx of
        None \<Rightarrow> nd
      | Some ss \<Rightarrow>
          (case run_turn E now wall Draining ss (nd_server nd) of
             (ss', sv) \<Rightarrow> nd\<lparr>nd_server := sv, nd_sessions := dput tx ss' (nd_sessions nd)\<rparr>))"

definition drain_node :: "ext \<Rightarrow> instant \<Rightarrow> int \<Rightarrow> node \<Rightarrow> node" where
  "drain_node E now wall nd = fold (drain_session E now wall) (dkeys (nd_sessions nd)) nd"

lemma drain_session_reachable: "reachable E nd \<Longrightarrow> reachable E (drain_session E now wall tx nd)"
  by (auto simp: drain_session_def split: option.split prod.split intro: reachable.step node_step.turned)

lemma close_session_running: "\<not> ss_running (fst (close_session E now ss sv))"
  by (simp add: close_session_def Let_def)

lemma close_session_sink: "ss_sink (fst (close_session E now ss sv)) = ss_sink ss"
  by (simp add: close_session_def Let_def)

lemma close_session_draining: "sv_draining (snd (close_session E now ss sv)) = sv_draining sv"
proof -
  have "sv_draining (cleanup_connection E now app conn sid s) = sv_draining s" for app conn sid s
    using cleanup_change [of app sid conn s E now] by (simp add: schange_def)
  then show ?thesis by (simp add: close_session_def Let_def split: option.split)
qed

lemma draining_turn:
  assumes "node_ok nd" "dget (nd_sessions nd) tx = Some ss" "sv_draining (nd_server nd)"
    and r: "run_turn E now wall Draining ss (nd_server nd) = (ss', sv)"
  shows "sv_draining sv \<and> \<not> ss_running ss' \<and>
         ss_sink ss' = ss_sink ss @ (if ss_running ss then [SClose 1001 ''server going away''] else [])"
proof (cases "ss_running ss")
  case True
  have c: "consistent (nd_server nd) (nd_sessions nd)" using assms(1) by (simp add: node_ok_def)
  obtain conn where conn: "dget (sv_conns (nd_server nd)) tx = Some conn" "h_tx (ss_handle ss) = tx"
    and box: "boxes (d_net (sv_disp (nd_server nd))) tx = Some False"
    using consistentD [OF c assms(2) True] by blast
  from box obtain mb where "dget (d_net (sv_disp (nd_server nd))) tx = Some mb" by (auto simp: boxes_def)
  with conn have "close_session E now (ss_send [SClose 1001 ''server going away''] ss) (nd_server nd) = (ss', sv)"
    using r True assms(3) by (simp add: run_turn_def going_away_def is_draining_def)
  then show ?thesis
    using close_session_draining [of E now "ss_send [SClose 1001 ''server going away''] ss" "nd_server nd"]
      close_session_running [of E now "ss_send [SClose 1001 ''server going away''] ss" "nd_server nd"]
      close_session_sink [of E now "ss_send [SClose 1001 ''server going away''] ss" "nd_server nd"] True assms(3)
    by simp
qed (use r assms(3) in \<open>auto simp: run_turn_def\<close>)

text \<open>What draining does to an entry of the table of sessions, drained already or not.\<close>

definition farewell :: "session \<Rightarrow> session \<Rightarrow> bool" where
  "farewell ss ss' \<longleftrightarrow> \<not> ss_running ss' \<and>
     ss_sink ss' = ss_sink ss @ (if ss_running ss then [SClose 1001 ''server going away''] else [])"

fun after_drain :: "bool \<Rightarrow> session option \<Rightarrow> session option \<Rightarrow> bool" where
  "after_drain b None y \<longleftrightarrow> y = None"
| "after_drain b (Some ss) y \<longleftrightarrow>
     (case y of None \<Rightarrow> False | Some ss' \<Rightarrow> if b then farewell ss ss' else ss' = ss)"

lemma after_drain_trans: "after_drain b x y \<Longrightarrow> after_drain b' y z \<Longrightarrow> after_drain (b \<or> b') x z"
  by (cases x; cases y; cases z) (auto simp: farewell_def split: if_splits)

lemma drain_session_spec:
  assumes "reachable E nd" "sv_draining (nd_server nd)"
  shows "sv_draining (nd_server (drain_session E now wall tx nd))"
    and "after_drain (t = tx) (dget (nd_sessions nd) t) (dget (nd_sessions (drain_session E now wall tx nd)) t)"
proof -
  have same: "after_drain False x x" for x by (cases x) simp_all
  show "sv_draining (nd_server (drain_session E now wall tx nd))"
    "after_drain (t = tx) (dget (nd_sessions nd) t) (dget (nd_sessions (drain_session E now wall tx nd)) t)"
  proof (atomize (full), cases "dget (nd_sessions nd) tx")
    case None
    with assms same show "sv_draining (nd_server (drain_session E now wall tx nd)) \<and>
        after_drain (t = tx) (dget (nd_sessions nd) t) (dget (nd_sessions (drain_session E now wall tx nd)) t)"
      by (cases "t = tx") (simp_all add: drain_session_def)
  next
    case (Some ss)
    obtain ss' sv where r: "run_turn E now wall Draining ss (nd_server nd) = (ss', sv)" by fastforce
    from draining_turn [OF reachable_ok [OF assms(1)] Some assms(2) r] Some r same
    show "sv_draining (nd_server (drain_session E now wall tx nd)) \<and>
        after_drain (t = tx) (dget (nd_sessions nd) t) (dget (nd_sessions (drain_session E now wall tx nd)) t)"
      by (cases "t = tx") (simp_all add: drain_session_def farewell_def)
  qed
qed

lemma drain_sessions_spec:
  assumes "reachable E nd" "sv_draining (nd_server nd)"
  shows "reachable E (fold (drain_session E now wall) txs nd) \<and>
         sv_draining (nd_server (fold (drain_session E now wall) txs nd)) \<and>
         (\<forall>t. after_drain (t \<in> set txs) (dget (nd_sessions nd) t)
                (dget (nd_sessions (fold (drain_session E now wall) txs nd)) t))"
  using assms
proof (induction txs arbitrary: nd)
  case Nil
  have "after_drain False x x" for x by (cases x) simp_all
  with Nil show ?case by simp
next
  case (Cons tx txs)
  note spec = drain_session_spec [OF Cons.prems, where now = now and wall = wall and tx = tx]
  note IH = Cons.IH [OF drain_session_reachable [OF Cons.prems(1)] spec(1)]
  have "after_drain (t \<in> set (tx # txs)) (dget (nd_sessions nd) t)
      (dget (nd_sessions (fold (drain_session E now wall) (tx # txs) nd)) t)" for t
  proof -
    have "after_drain (t \<in> set txs) (dget (nd_sessions (drain_session E now wall tx nd)) t)
        (dget (nd_sessions (fold (drain_session E now wall) txs (drain_session E now wall tx nd))) t)"
      using IH by blast
    from after_drain_trans [OF spec(2) this] show ?thesis by simp
  qed
  with IH show ?case by simp
qed

section \<open>A sample history\<close>

text \<open>A subscription to a channel without presence data succeeds once the checks have passed.\<close>

lemma handle_subscribe_conn:
  assumes "check_subscription E app conn (data_object E data) = Inr channel" "\<not> is_presence (from_name channel)"
  shows "fst (snd (handle_subscribe E now app h data conn sv)) = add_subscription channel conn"
proof -
  let ?on = "on_subscribed E now app (c_socket_id conn) channel None
    (occupied_on_peers now app channel (from_name channel) sv)"
  have "fst (subscribe_with now app channel (c_socket_id conn) h None (admit_member now app channel None) ?on
      (sv_channels sv) (sv, [], False)) \<noteq> None"
    unfolding subscribe_with_cases Let_def by (simp add: admit_member_def case_prod_beta)
  with assms show ?thesis
    by (auto simp: handle_subscribe_def presence_request_def Let_def case_prod_beta split: option.split)
qed

text \<open>The sample node after its connection sent one frame, whatever the frame is.\<close>

definition sample_turn :: "ext \<Rightarrow> session \<times> server" where
  "sample_turn E = run_turn E 0 0 (Ws_Session.Incoming (Some (CText [])) True) (fst (sample_opening E)) (snd (sample_opening E))"

definition sample_after :: "ext \<Rightarrow> node" where
  "sample_after E = (sample_node E)\<lparr>nd_server := snd (sample_turn E), nd_sessions := dput 1 (fst (sample_turn E)) (nd_sessions (sample_node E))\<rparr>"

lemma sample_step:
  "node_step E (Turn 1 0 0 (Ws_Session.Incoming (Some (CText [])) True)) (sample_node E) (sample_after E)"
  unfolding sample_after_def
  by (rule node_step.turned [where tx = 1 and ss = "fst (sample_opening E)"])
     (simp_all add: sample_node_def sample_turn_def)

lemma sample_conns:
  assumes "parse_inbound E [] = Some frame"
  defines "conn \<equiv> touch 0 (connection_new 0 sample_app ''1.2'' None)"
  shows "dget (sv_conns (nd_server (sample_after E))) 1 =
           Some (fst (snd (handle_inbound E 0 sample_app \<lparr>h_socket_id = ''1.2'', h_tx = 1\<rparr> [] conn
              (set_conn 1 conn (snd (sample_opening E)))))) \<and> ss_running (fst (sample_turn E)) \<and>
         ss_handle (fst (sample_turn E)) = \<lparr>h_socket_id = ''1.2'', h_tx = 1\<rparr> \<and> ss_app (fst (sample_turn E)) = sample_app"
proof -
  have c: "consistent (snd (sample_opening E)) [(1, fst (sample_opening E))]"
    using reachable_ok [OF sample_node_reachable [of E]] by (simp add: node_ok_def sample_node_def)
  obtain mb where mb: "dget (d_net (sv_disp (snd (sample_opening E)))) 1 = Some mb"
    using consistentD [OF c, of 1 "fst (sample_opening E)"] by (auto simp: sample_opening_facts boxes_def)
  obtain reply conn2 sv2 where h: "handle_inbound E 0 sample_app \<lparr>h_socket_id = ''1.2'', h_tx = 1\<rparr> [] conn
      (set_conn 1 conn (snd (sample_opening E))) = (reply, conn2, sv2)" using prod_cases3 by blast
  show ?thesis
    using mb h unfolding conn_def
    by (simp add: sample_after_def sample_turn_def run_turn_def sample_opening_facts incoming_turn_def Let_def
        limiter_check_def reply_or_close_def split: option.split)
qed

text \<open>A JSON library that reads every frame as the subscription, or the sign-in, of the sample.\<close>

definition subscribing_ext :: ext where
  "subscribing_ext = sample_ext\<lparr>x_inbound := (\<lambda>_. Some \<lparr>if_event = ''pusher:subscribe'',
     if_data = JObject [(''auth'', JString (''key:'' @ hex_encode ''s1.2:private-a'')), (''channel'', JString ''private-a'')],
     if_channel = None\<rparr>)\<rparr>"

lemma sample_subscription:
  "check_subscription subscribing_ext sample_app (touch 0 (connection_new 0 sample_app ''1.2'' None))
     (data_object subscribing_ext (JObject [(''auth'', JString (''key:'' @ hex_encode ''s1.2:private-a'')),
        (''channel'', JString ''private-a'')])) = Inr ''private-a''"
  by code_simp

lemma sample_live: "live_app sample_app (set_conn 1 conn (snd (sample_opening E))) = sample_app"
proof -
  have "app_by_id (app_id sample_app) sample_config = Some sample_app"
    by (simp add: sample_app_def app_by_id_def sample_config_def)
  then show ?thesis by (simp add: live_app_def sample_opening_facts)
qed

lemma subscribing_conn:
  "''private-a'' \<in> set (c_subscriptions (the (dget (sv_conns (nd_server (sample_after subscribing_ext))) 1)))"
proof -
  let ?d = "JObject [(''auth'', JString (''key:'' @ hex_encode ''s1.2:private-a'')), (''channel'', JString ''private-a'')]"
  let ?frame = "\<lparr>if_event = ''pusher:subscribe'', if_data = ?d, if_channel = None\<rparr>"
  let ?c = "touch 0 (connection_new 0 sample_app ''1.2'' None)" and ?h = "\<lparr>h_socket_id = ''1.2'', h_tx = 1\<rparr>"
  let ?sv = "set_conn 1 ?c (snd (sample_opening subscribing_ext))"
  have p: "parse_inbound subscribing_ext [] = Some ?frame" by (simp add: parse_inbound_def subscribing_ext_def)
  have "handle_inbound subscribing_ext 0 sample_app ?h [] ?c ?sv = handle_subscribe subscribing_ext 0 sample_app ?h ?d ?c ?sv"
    unfolding handle_inbound_def Let_def sample_live p option.case by simp
  moreover have "\<not> is_presence (from_name ''private-a'')" by code_simp
  ultimately show ?thesis
    using sample_conns [OF p] handle_subscribe_conn [OF sample_subscription]
    by (simp add: add_subscription_def)
qed

lemma sample_connected:
  assumes "parse_inbound E [] = Some frame"
  shows "connected (sample_after E) ''1'' ''1.2'' Q \<longleftrightarrow>
           Q \<lparr>h_socket_id = ''1.2'', h_tx = 1\<rparr> (the (dget (sv_conns (nd_server (sample_after E))) 1))"
    and "connected (sample_node E) ''1'' ''1.2'' Q \<longleftrightarrow>
           Q \<lparr>h_socket_id = ''1.2'', h_tx = 1\<rparr> (connection_new 0 sample_app ''1.2'' None)"
proof -
  have S: "dget (nd_sessions (sample_after E)) tx = (if tx = 1 then Some (fst (sample_turn E)) else None)" for tx
    by (simp add: sample_after_def sample_node_def)
  have aid: "app_id sample_app = ''1''" by (simp add: sample_app_def)
  note after = sample_conns [OF assms]
  show "connected (sample_after E) ''1'' ''1.2'' Q \<longleftrightarrow>
      Q \<lparr>h_socket_id = ''1.2'', h_tx = 1\<rparr> (the (dget (sv_conns (nd_server (sample_after E))) 1))"
    unfolding connected_def S using after aid by (auto split: if_splits)
  show "connected (sample_node E) ''1'' ''1.2'' Q \<longleftrightarrow>
      Q \<lparr>h_socket_id = ''1.2'', h_tx = 1\<rparr> (connection_new 0 sample_app ''1.2'' None)"
    unfolding connected_def sample_node_def using aid by (simp add: sample_opening_facts)
qed

lemma sample_members:
  assumes "parse_inbound E [] = Some frame"
  shows "''1.2'' \<in> channel_sockets ''1'' n (sv_channels (nd_server (sample_after E))) \<longleftrightarrow>
           n \<in> set (c_subscriptions (the (dget (sv_conns (nd_server (sample_after E))) 1)))"
    and "''1.2'' \<notin> channel_sockets ''1'' n (sv_channels (nd_server (sample_node E)))"
    and "''1.2'' \<in> set (user_sockets ''1'' u (sv_channels (nd_server (sample_after E)))) \<longleftrightarrow>
           c_user_id (the (dget (sv_conns (nd_server (sample_after E))) 1)) = Some u"
    and "''1.2'' \<notin> set (user_sockets ''1'' u (sv_channels (nd_server (sample_node E))))"
proof -
  have ok: "node_ok (sample_node E)" by (rule reachable_ok [OF sample_node_reachable])
  have ok': "node_ok (sample_after E)" by (rule node_ok_step [OF sample_step ok])
  note facts = node_ok_def consistent_def mirrors_def found_connected reg_view_simps [symmetric]
    sample_connected [OF assms]
  show "''1.2'' \<in> channel_sockets ''1'' n (sv_channels (nd_server (sample_after E))) \<longleftrightarrow>
      n \<in> set (c_subscriptions (the (dget (sv_conns (nd_server (sample_after E))) 1)))"
    "''1.2'' \<in> set (user_sockets ''1'' u (sv_channels (nd_server (sample_after E)))) \<longleftrightarrow>
      c_user_id (the (dget (sv_conns (nd_server (sample_after E))) 1)) = Some u"
    using ok' by (simp_all add: facts)
  show "''1.2'' \<notin> channel_sockets ''1'' n (sv_channels (nd_server (sample_node E)))"
    "''1.2'' \<notin> set (user_sockets ''1'' u (sv_channels (nd_server (sample_node E))))"
    using ok by (simp_all add: facts connection_new_def)
qed

lemma handle_signin_conn:
  assumes "check_signin E app conn (data_object E data) = Inr (user_data, parsed, uid)" "c_user_id conn = None"
    and "parse_watchlist parsed = Some (truncated, watchlist)"
  shows "c_user_id (fst (snd (handle_signin E now app h data conn sv))) = Some uid"
  using assms
  by (simp add: handle_signin_def Let_def conn_bind_user_def set_watchlist_def split: option.split)

definition signing_ext :: ext where
  "signing_ext = sample_ext\<lparr>x_inbound := (\<lambda>_. Some \<lparr>if_event = ''pusher:signin'',
     if_data = JObject [(''auth'', JString (''key:'' @ hex_encode ''s1.2::user::d'')), (''user_data'', JString ''d'')],
     if_channel = None\<rparr>), x_from_str := (\<lambda>_. Some (JObject [(''id'', JString ''u'')]))\<rparr>"

lemma sample_signin:
  "check_signin signing_ext sample_app (touch 0 (connection_new 0 sample_app ''1.2'' None))
     (data_object signing_ext (JObject [(''auth'', JString (''key:'' @ hex_encode ''s1.2::user::d'')),
        (''user_data'', JString ''d'')])) = Inr (''d'', JObject [(''id'', JString ''u'')], ''u'')"
  by code_simp

lemma signing_conn:
  "c_user_id (the (dget (sv_conns (nd_server (sample_after signing_ext))) 1)) = Some ''u''"
proof -
  let ?d = "JObject [(''auth'', JString (''key:'' @ hex_encode ''s1.2::user::d'')), (''user_data'', JString ''d'')]"
  let ?frame = "\<lparr>if_event = ''pusher:signin'', if_data = ?d, if_channel = None\<rparr>"
  let ?c = "touch 0 (connection_new 0 sample_app ''1.2'' None)" and ?h = "\<lparr>h_socket_id = ''1.2'', h_tx = 1\<rparr>"
  let ?sv = "set_conn 1 ?c (snd (sample_opening signing_ext))"
  have p: "parse_inbound signing_ext [] = Some ?frame" by (simp add: parse_inbound_def signing_ext_def)
  have "handle_inbound signing_ext 0 sample_app ?h [] ?c ?sv = handle_signin signing_ext 0 sample_app ?h ?d ?c ?sv"
    unfolding handle_inbound_def Let_def sample_live p option.case by simp
  moreover have "parse_watchlist (JObject [(''id'', JString ''u'')]) = Some (False, None)" by code_simp
  from handle_signin_conn [OF sample_signin _ this]
  have "c_user_id (fst (snd (handle_signin signing_ext 0 sample_app ?h ?d ?c ?sv))) = Some ''u''"
    by (simp add: connection_new_def touch_def)
  ultimately show ?thesis using sample_conns [OF p] by simp
qed

end
