(* ===== verification/Handler_Specs.thy ===== *)
theory Handler_Specs
  imports Handler_Effects Server_Tasks
begin

text \<open>
  What single handlers promise (\<open>zatat-ws/src/handler.rs\<close>, \<open>zatat-ws/src/tasks.rs\<close>): the capacity of
  presence channels across the fleet, who receives a client event, and what the expiry of a peer's
  presence member reports.
\<close>

section \<open>The capacity of a presence channel\<close>

definition local_users :: "app_id \<Rightarrow> string \<Rightarrow> manager \<Rightarrow> string set" where
  "local_users aid channel mgr =
     (case find_channel aid channel mgr of Some ch \<Rightarrow> ch_users ch | None \<Rightarrow> {})"

definition remote_users :: "instant \<Rightarrow> app_id \<Rightarrow> string \<Rightarrow> dispatcher \<Rightarrow> string set" where
  "remote_users now aid channel d =
     psm_user_id ` set (remote_members_for now aid channel (d_presence_cache d))"

text \<open>The users of a channel as this node sees the fleet: its own and those of live peers.\<close>

definition fleet_users :: "instant \<Rightarrow> app_id \<Rightarrow> string \<Rightarrow> server \<Rightarrow> string set" where
  "fleet_users now aid channel sv =
     local_users aid channel (sv_channels sv) \<union> remote_users now aid channel (sv_disp sv)"

lemma ch_users_finite: "finite (ch_users ch)"
proof -
  have "ch_users ch \<subseteq> (\<lambda>(_, m). the (member_user m)) ` set (ch_members ch)"
    by (force simp: ch_users_def)
  then show ?thesis by (rule finite_subset) simp
qed

lemma fleet_users_finite: "finite (fleet_users now aid channel sv)"
  by (auto simp: fleet_users_def local_users_def remote_users_def ch_users_finite split: option.split)

lemma channel_at_users: "ch_users (channel_at app name mgr) = local_users (app_id app) name mgr"
  by (simp add: channel_at_def find_app_slot local_users_def with_cache_ttl_def Let_def ch_users_def
      split: option.split)

lemma ch_users_subscribe:
  "ch_users (snd (subscribe sid h p ch)) \<subseteq> ch_users ch \<union> pm_user_id ` set_option p"
proof
  fix u assume "u \<in> ch_users (snd (subscribe sid h p ch))"
  then obtain s m where m: "(s, m) \<in> set (ch_members (snd (subscribe sid h p ch)))" "member_user m = Some u"
    by (auto simp: ch_users_def)
  then have "(s, m) \<in> set (ch_members ch) \<or> m = \<lparr>m_handle = h, m_presence = p\<rparr>"
    by (auto simp: members_subscribe dput_new dhas_def split: if_splits)
  with m(2) show "u \<in> ch_users ch \<union> pm_user_id ` set_option p"
    by (cases p) (auto simp: ch_users_def member_user_def)
qed

lemma local_users_subscribe:
  "local_users aid n (fst (snd (subscribe_with now app name sid h p admit on_sub mgr s))) \<subseteq>
     local_users aid n mgr \<union>
       (if fst (admit (channel_at app name mgr) s) \<and> aid = app_id app \<and> n = name then pm_user_id ` set_option p else {})"
proof -
  let ?ch = "channel_at app name mgr"
  have cached: "ch_users (snd (cached_payload now ch)) = ch_users ch" for ch
    by (simp add: ch_users_def cached_payload_def split: option.split)
  note users = ch_users_subscribe [of sid h p ?ch, unfolded channel_at_users]
  show ?thesis
  proof (cases "fst (admit ?ch s)")
    case True
    with users show ?thesis
      unfolding subscribe_with_cases Let_def case_prod_beta
      by (auto simp: local_users_def find_put find_app_slot cached)
  next
    case False
    then show ?thesis
      unfolding subscribe_with_cases Let_def case_prod_beta
      by (auto simp: local_users_def find_put find_app_slot dget_dremove_if channel_at_users [unfolded local_users_def]
          split: option.splits if_splits)
  qed
qed

text \<open>Nothing in a subscription touches what is known about peers.\<close>

definition peers_of :: "server \<Rightarrow> presence_cache" where
  "peers_of sv = d_presence_cache (sv_disp sv)"

lemma peers_of_simps [simp]:
  "peers_of (sv_enqueue now aid ev sv) = peers_of sv"
  "peers_of (sv_broadcast_protocol frame except ch sv) = peers_of sv"
  "peers_of (on_disp (publish_payload E now app seq payload) sv) = peers_of sv"
  "peers_of (sv_try_send h msg sv) = peers_of sv"
  "peers_of (on_disp (\<lambda>d. d\<lparr>d_channels := f d\<rparr>) sv) = peers_of sv"
  by (simp_all add: peers_of_def sv_broadcast_protocol_def sv_try_send_def publish_payload_def d_spawn_publish_def)

lemma peers_of_publish [simp]:
  "peers_of (on_disp (publish_subscription_count E now app channel n w) sv) = peers_of sv"
  "peers_of (on_disp (publish_member_added E now app channel uid info) sv) = peers_of sv"
  by (simp_all add: peers_of_def publish_subscription_count_def publish_member_added_def
      publish_payload_def d_spawn_publish_def)

lemma peers_of_on_subscribed [simp]:
  "peers_of (fst (on_subscribed E now app sid channel presence occ ch r (sv, x))) = peers_of sv"
  by (cases x) (simp add: on_subscribed_def announce_subscription_count_def Let_def split: option.split)

lemma local_users_store:
  assumes "find_channel aid' name mgr = Some ch" "ch_name ch' = name" "ch_users ch' = ch_users ch"
  shows "local_users aid n (store_channel aid' ch' mgr) = local_users aid n mgr"
proof -
  obtain slot where "dget mgr aid' = Some slot" using assms(1) by (auto simp: find_channel_def bind_eq_Some_conv)
  with assms show ?thesis
    by (auto simp: local_users_def store_channel_def find_put find_channel_def)
qed

lemma cache_replay_peers: "peers_of (cache_replay E now app h channel cached sv) = peers_of sv"
  by (simp add: cache_replay_def Let_def case_prod_beta split: option.split)

lemma cache_replay_users:
  assumes "mgr_wf (sv_channels sv)"
  shows "local_users aid n (sv_channels (cache_replay E now app h channel cached sv)) = local_users aid n (sv_channels sv)"
proof (cases "find_channel (app_id app) channel (sv_channels sv)")
  case None
  then show ?thesis
    by (simp add: cache_replay_def Let_def sv_try_send_def sv_channels_def split: option.split)
next
  case (Some ch)
  have "ch_users (snd (claim_cache_miss_notification now ch)) = ch_users ch"
    "ch_name (snd (claim_cache_miss_notification now ch)) = channel"
    using mgr_wf_find [OF assms Some]
    by (simp_all add: claim_cache_miss_notification_def ch_users_def channel_entry_ok_def)
  from local_users_store [OF Some this(2,1), of aid n] Some show ?thesis
    by (simp add: cache_replay_def Let_def sv_try_send_def sv_channels_def case_prod_beta split: option.split)
qed

text \<open>What the closure \<open>admit\<close> grants: the user is there already, or there is room for one more.\<close>

lemma admitted_room:
  assumes wf: "mgr_wf (sv_channels sv)" "cache_wf (peers_of sv)" and pres: "is_presence (from_name channel)"
    and ok: "fst (admit_member now app channel (Some pm) (channel_at app channel (sv_channels sv)) (sv, x))"
  shows "pm_user_id pm \<in> fleet_users now (app_id app) channel sv \<or>
         card (fleet_users now (app_id app) channel sv) < max_presence_members_per_channel app"
proof (cases "pm_user_id pm \<in> fleet_users now (app_id app) channel sv")
  case False
  let ?ch = "channel_at app channel (sv_channels sv)"
  let ?remote = "remote_members_for now (app_id app) channel (peers_of sv)"
  have ch: "ch_wf ?ch" "is_presence (ch_kind ?ch)"
    using channel_at_wf [OF wf(1), of app channel] pres by (auto simp: ch_wf_def)
  have hs: "distinct (fold hs_insert xs ys) \<and> set (fold hs_insert xs ys) = set ys \<union> set xs" if "distinct ys" for xs ys :: "string list"
    using that by (induction xs arbitrary: ys) (auto simp: hs_insert_def)
  have fleet: "fleet_users now (app_id app) channel sv = ch_users ?ch \<union> psm_user_id ` set ?remote"
    by (simp add: fleet_users_def channel_at_users remote_users_def peers_of_def)
  have present: "\<not> pc_is_present_excluding now (app_id app) channel (pm_user_id pm) None (peers_of sv)"
    using False remote_members_spec [OF wf(2), of now "app_id app" channel "pm_user_id pm"] fleet by blast
  have "\<not> has_user_id (pm_user_id pm) ?ch" using False fleet has_user_id_iff [OF ch(1)] by blast
  with ok present have room: "user_count ?ch + length (fold hs_insert
      (filter (\<lambda>uid. \<not> has_user_id uid ?ch) (map psm_user_id ?remote)) []) < max_presence_members_per_channel app"
    by (simp add: admit_member_def Let_def peers_of_def)
  let ?only = "psm_user_id ` set ?remote - ch_users ?ch"
  have "set (filter (\<lambda>uid. \<not> has_user_id uid ?ch) (map psm_user_id ?remote)) = ?only"
    using ch by (auto simp: has_user_id_iff)
  then have "length (fold hs_insert (filter (\<lambda>uid. \<not> has_user_id uid ?ch) (map psm_user_id ?remote)) []) = card ?only"
    using hs [of "[]"] by (metis distinct.simps(1) distinct_card empty_set sup_bot_left)
  then have "card (ch_users ?ch) + card ?only < max_presence_members_per_channel app"
    using room user_count_presence [OF ch] by simp
  moreover have "card (ch_users ?ch \<union> ?only) = card (ch_users ?ch) + card ?only"
    by (rule card_Un_disjoint) (auto simp: ch_users_finite)
  ultimately show ?thesis unfolding fleet by simp
qed simp

lemma capacity_step:
  assumes sub: "U' \<subseteq> insert u U" and fin: "finite U" and room: "u \<in> U \<or> card U < cap"
  shows "card U' \<le> max cap (card U)"
proof -
  have "card U' \<le> card (insert u U)" using sub fin by (simp add: card_mono)
  with room fin show ?thesis by (auto simp: card_insert_if split: if_splits)
qed

text \<open>Who may be new in a channel after a subscription: the subscriber, if it was admitted.\<close>

lemma subscribe_fleet_users:
  assumes wf: "disp_wf (sv_disp sv)"
    and res: "handle_subscribe E now app h data conn sv = (reply, conn', sv')"
    and check: "check_subscription E app conn (data_object E data) = Inr channel"
      "presence_request E app (from_name channel) (field_str (data_object E data) ''channel_data'') = Inr presence"
  shows "fleet_users now aid n sv' \<subseteq> fleet_users now aid n sv \<union>
           (if fst (admit_member now app channel presence (channel_at app channel (sv_channels sv)) (sv, [], False)) \<and>
               aid = app_id app \<and> n = channel
            then pm_user_id ` set_option presence else {})"
proof -
  let ?st = "(sv, [] :: presence_snapshot_member list, False)" and ?sid = "c_socket_id conn"
  let ?admit = "admit_member now app channel presence"
  let ?on = "on_subscribed E now app ?sid channel presence (occupied_on_peers now app channel (from_name channel) sv)"
  let ?r = "subscribe_with now app channel ?sid h presence ?admit ?on (sv_channels sv) ?st"
  let ?sv2 = "on_disp (\<lambda>d. d\<lparr>d_channels := fst (snd ?r)\<rparr>) (fst (snd (snd ?r)))"
  have mgr: "mgr_wf (sv_channels sv)" using wf by (simp add: disp_wf_def sv_channels_def)
  have peers: "peers_of ?sv2 = peers_of sv"
    unfolding subscribe_with_cases Let_def case_prod_beta by (cases presence) (auto simp: admit_member_def Let_def)
  have mgr2: "sv_channels ?sv2 = fst (snd ?r)" by (simp add: sv_channels_def)
  have mgr2_wf: "mgr_wf (sv_channels ?sv2)" unfolding mgr2 by (rule mgr_wf_subscribe_with [OF mgr])
  have "sv' = ?sv2 \<or> (\<exists>cached. sv' = cache_replay E now app h channel cached ?sv2)"
    using res check by (auto simp: handle_subscribe_def Let_def case_prod_beta split: option.splits)
  then have "local_users aid n (sv_channels sv') = local_users aid n (fst (snd ?r))" "peers_of sv' = peers_of sv"
    using cache_replay_users [OF mgr2_wf] cache_replay_peers peers unfolding mgr2 by (auto simp: mgr2)
  then show ?thesis
    using local_users_subscribe [of aid n now app channel ?sid h presence ?admit ?on "sv_channels sv" ?st]
    unfolding fleet_users_def remote_users_def peers_of_def by auto
qed

text \<open>
  C7: A subscription never takes a presence channel beyond its capacity as far as this node can see.
  The users of any channel that the node knows of, its own members and those in its cache of live
  peers' reports counted once each, are after the subscription at most the application's maximum or
  as many as before; so a channel below the cap does not pass it, and one above it (after the cap
  was lowered) does not grow. It is no fleet-wide quota: users that join on two nodes at the same
  time, before either has heard of the other, can together exceed the maximum.
\<close>

theorem presence_capacity:
  assumes wf: "disp_wf (sv_disp sv)"
    and res: "handle_subscribe E now app h data conn sv = (reply, conn', sv')"
  shows "card (fleet_users now aid n sv') \<le>
           max (max_presence_members_per_channel app) (card (fleet_users now aid n sv))"
proof (cases "\<exists>channel presence. check_subscription E app conn (data_object E data) = Inr channel \<and>
    presence_request E app (from_name channel) (field_str (data_object E data) ''channel_data'') = Inr presence")
  case False
  then have "sv' = sv" using res by (auto simp: handle_subscribe_def Let_def split: sum.splits)
  then show ?thesis by simp
next
  case True
  then obtain channel presence where check: "check_subscription E app conn (data_object E data) = Inr channel"
    "presence_request E app (from_name channel) (field_str (data_object E data) ''channel_data'') = Inr presence" by blast
  note sub = subscribe_fleet_users [OF wf res check, of aid n]
  show ?thesis
  proof (cases "fleet_users now aid n sv' \<subseteq> fleet_users now aid n sv")
    case True
    then have "card (fleet_users now aid n sv') \<le> card (fleet_users now aid n sv)"
      by (simp add: card_mono fleet_users_finite)
    then show ?thesis by simp
  next
    case False
    with sub obtain pm where pm: "presence = Some pm" "aid = app_id app" "n = channel"
      "fst (admit_member now app channel presence (channel_at app channel (sv_channels sv)) (sv, [], False))"
      by (cases presence) (auto split: if_splits)
    have pres: "is_presence (from_name channel)"
      using check(2) pm(1) by (auto simp: presence_request_def split: if_splits)
    have mgr: "mgr_wf (sv_channels sv)" "cache_wf (peers_of sv)"
      using wf by (simp_all add: disp_wf_def sv_channels_def peers_of_def)
    from sub pm have "fleet_users now aid n sv' \<subseteq> insert (pm_user_id pm) (fleet_users now aid n sv)" by auto
    from capacity_step [OF this fleet_users_finite] admitted_room [OF mgr pres] pm show ?thesis by blast
  qed
qed

text \<open>A client that joins a presence channel as the user \<open>u\<close>, with the token for it.\<close>

definition joining_ext :: ext where
  "joining_ext = sample_ext\<lparr>x_from_str := (\<lambda>_. Some (JObject [(''user_id'', JString ''u'')]))\<rparr>"

definition joining_data :: json where
  "joining_data = JObject [(''auth'', JString (''key:'' @ hex_encode ''s1.2:presence-a:x'')),
     (''channel'', JString ''presence-a''), (''channel_data'', JString ''x'')]"

theorem presence_capacity_witness:
  "check_subscription joining_ext sample_app (connection_new 0 sample_app ''1.2'' None)
     (data_object joining_ext joining_data) = Inr ''presence-a'' \<and>
   presence_request joining_ext sample_app (from_name ''presence-a'')
     (field_str (data_object joining_ext joining_data) ''channel_data'') =
     Inr (Some \<lparr>pm_user_id = ''u'', pm_user_info = None\<rparr>) \<and>
   (\<exists>reply conn' sv'.
      handle_subscribe joining_ext 0 sample_app (sample_handle 1) joining_data
        (connection_new 0 sample_app ''1.2'' None) sample_server = (reply, conn', sv') \<and>
      card (fleet_users 0 ''1'' ''presence-a'' sv') \<le> 100)"
proof (intro conjI)
  obtain reply conn' sv' where r: "handle_subscribe joining_ext 0 sample_app (sample_handle 1) joining_data
      (connection_new 0 sample_app ''1.2'' None) sample_server = (reply, conn', sv')"
    using prod_cases3 by blast
  have wf: "disp_wf (sv_disp sample_server)" unfolding sample_server_def by (rule disp_wf_provider)
  have "fleet_users 0 ''1'' ''presence-a'' sample_server = {}"
    by (simp add: fleet_users_def local_users_def remote_users_def sv_channels_def sample_server_simps
        find_channel_def manager_new_def remote_members_for_def peers_at_def sample_server_def with_provider_def
        dispatcher_new_def)
  with presence_capacity [OF wf r, of "''1''" "''presence-a''"] have "card (fleet_users 0 ''1'' ''presence-a'' sv') \<le> 100"
    by (simp add: sample_app_def)
  with r show "\<exists>reply conn' sv'. handle_subscribe joining_ext 0 sample_app (sample_handle 1) joining_data
      (connection_new 0 sample_app ''1.2'' None) sample_server = (reply, conn', sv') \<and>
      card (fleet_users 0 ''1'' ''presence-a'' sv') \<le> 100" by blast
qed code_simp+

section \<open>Who receives a client event\<close>

text \<open>
  C11: A client event is relayed only when the application accepts them, the channel is private and
  the sender is a member of it. The frame then goes once to every other member, never back to the
  sender and to nobody else, and is never cached; on every other request the node is unchanged and
  the client gets an error.
\<close>

theorem client_event_reach:
  assumes res: "handle_client_event E now app event frame conn sv = (reply, conn', sv')"
    and tx: "\<And>channel ch. find_channel (app_id app) channel (sv_channels sv) = Some ch \<Longrightarrow>
      distinct (map (\<lambda>(_, m). h_tx (m_handle m)) (ch_members ch))"
  shows "conn' = conn \<and> sv_channels sv' = sv_channels sv \<and>
    (case reply of
       Some err \<Rightarrow> sv' = sv
     | None \<Rightarrow>
         \<exists>channel ch sender. accept_client_events_from app \<noteq> AcceptNone \<and> if_channel frame = Some channel \<and>
           is_private (from_name channel) \<and> find_channel (app_id app) channel (sv_channels sv) = Some ch \<and>
           ch_contains (c_socket_id conn) ch \<and>
           (\<forall>t. dget (d_net (sv_disp sv')) t =
              (if t \<in> {h_tx (m_handle m) | s m. (s, m) \<in> set (ch_members ch) \<and> s \<noteq> c_socket_id conn}
               then map_option (snd \<circ> deliver (Text (encode_client_event event (data_text E (if_data frame)) channel sender)))
                      (dget (d_net (sv_disp sv)) t)
               else dget (d_net (sv_disp sv)) t)))"
proof (cases reply)
  case (Some err)
  with res show ?thesis
    by (auto simp: handle_client_event_def Let_def split: if_splits option.splits)
next
  case None
  then obtain channel ch where ok: "accept_client_events_from app \<noteq> AcceptNone" "if_channel frame = Some channel"
    "is_private (from_name channel)" "find_channel (app_id app) channel (sv_channels sv) = Some ch"
    "ch_contains (c_socket_id conn) ch"
    using res by (auto simp: handle_client_event_def Let_def split: if_splits option.splits)
  let ?sender = "if is_presence (from_name channel) then presence_user_id (c_socket_id conn) ch else None"
  let ?msg = "encode_client_event event (data_text E (if_data frame)) channel ?sender"
  have net: "d_net (sv_disp sv') = broadcast_client_event ?msg (Some (c_socket_id conn)) ch (d_net (sv_disp sv))"
    and same: "conn' = conn" "sv_channels sv' = sv_channels sv"
    using res ok None
    by (auto simp: handle_client_event_def Let_def sv_channels_def publish_client_event_def publish_payload_def d_spawn_publish_def)
  have "dget (d_net (sv_disp sv')) t =
      (if t \<in> h_tx ` set (recipients (Some (c_socket_id conn)) ch)
       then map_option (snd \<circ> deliver (Text ?msg)) (dget (d_net (sv_disp sv)) t) else dget (d_net (sv_disp sv)) t)" for t
    using filter_tx_distinct [OF recipients_distinct [OF tx [OF ok(4)]], of t "Some (c_socket_id conn)"]
    by (simp add: net broadcast_client_event_def send_to_members_def dget_send_all option.map_id)
  then have "\<forall>t. dget (d_net (sv_disp sv')) t =
      (if t \<in> {h_tx (m_handle m) | s m. (s, m) \<in> set (ch_members ch) \<and> s \<noteq> c_socket_id conn}
       then map_option (snd \<circ> deliver (Text ?msg)) (dget (d_net (sv_disp sv)) t) else dget (d_net (sv_disp sv)) t)"
    by (auto simp: recipients_tx)
  with None same ok show ?thesis unfolding None option.case by blast
qed

text \<open>A node on which the sample connection is the one member of a presence channel.\<close>

definition sample_talk :: server where
  "sample_talk = sample_server\<lparr>sv_disp := (sv_disp sample_server)\<lparr>
     d_channels := [(''1'', app_channels_default\<lparr>ac_channels := [(''presence-a'', sample_channel)]\<rparr>)],
     d_net := [(1, \<lparr>mb_queue = [], mb_capacity = 1, mb_closed = False, mb_kick = False\<rparr>)]\<rparr>\<rparr>"

theorem client_event_reach_witness:
  "\<exists>sv'. handle_client_event sample_ext 0 sample_app ''client-x''
            \<lparr>if_event = ''client-x'', if_data = JString ''d'', if_channel = Some ''presence-a''\<rparr>
            (connection_new 0 sample_app ''1.1'' None) sample_talk =
          (None, connection_new 0 sample_app ''1.1'' None, sv') \<and>
        sv_channels sv' = sv_channels sample_talk \<and>
        dget (d_net (sv_disp sv')) 1 = Some \<lparr>mb_queue = [], mb_capacity = 1, mb_closed = False, mb_kick = False\<rparr>"
proof -
  let ?frame = "\<lparr>if_event = ''client-x'', if_data = JString ''d'', if_channel = Some ''presence-a''\<rparr>"
  let ?conn = "connection_new 0 sample_app ''1.1'' None"
  have find: "find_channel (app_id sample_app) channel (sv_channels sample_talk) =
      (if channel = ''presence-a'' then Some sample_channel else None)" for channel
    by (simp add: sample_talk_def sv_channels_def find_channel_def sample_app_def app_channels_default_def)
  have one: "distinct (map (\<lambda>(_, m). h_tx (m_handle m)) (ch_members ch))"
    if "find_channel (app_id sample_app) channel (sv_channels sample_talk) = Some ch" for channel ch
    using that by (auto simp: find sample_channel_eq split: if_splits)
  have priv: "is_private (from_name ''presence-a'')" by code_simp
  have member: "ch_contains (c_socket_id ?conn) sample_channel" "c_socket_id ?conn = ''1.1''"
    by (simp_all add: sample_channel_eq ch_contains_def dhas_def connection_new_def)
  have acc: "accept_client_events_from sample_app \<noteq> AcceptNone" by (simp add: sample_app_def)
  obtain reply conn' sv' where r: "handle_client_event sample_ext 0 sample_app ''client-x'' ?frame ?conn sample_talk =
      (reply, conn', sv')" using prod_cases3 by blast
  have none: "reply = None"
    using r priv member acc by (simp add: handle_client_event_def find Let_def)
  from client_event_reach [OF r one] none find priv have c: "conn' = ?conn" "sv_channels sv' = sv_channels sample_talk"
    "\<forall>t. dget (d_net (sv_disp sv')) t = dget (d_net (sv_disp sample_talk)) t"
    by (auto simp: sample_channel_eq member(2) split: if_splits)
  then show ?thesis using r none by (simp add: sample_talk_def)
qed

section \<open>Members of peers that vanished\<close>

lemma expire_member_keeps:
  "sv_config (expire_member E now m sv) = sv_config sv" "sv_channels (expire_member E now m sv) = sv_channels sv"
  "d_presence_cache (sv_disp (expire_member E now m sv)) = d_presence_cache (sv_disp sv)"
  by (simp_all add: expire_member_def sv_broadcast_protocol_def sv_enqueue_def sv_channels_def Let_def split: option.split)

lemma expire_members_keep_cache:
  "d_presence_cache (sv_disp (fold (expire_member E now) ms sv)) = d_presence_cache (sv_disp sv)"
  by (induction ms arbitrary: sv) (simp_all add: expire_member_keeps)

text \<open>A member without a local channel of that name has no part in a sweep.\<close>

lemma expire_members_skip:
  "config_ok (sv_config sv) \<Longrightarrow>
   fold (expire_member E now) ms sv =
   fold (expire_member E now) (filter (\<lambda>m. find_channel (em_app_id m) (em_channel m) (sv_channels sv) \<noteq> None) ms) sv"
proof (induction ms arbitrary: sv)
  case (Cons m ms)
  have "expire_member E now m sv = sv" if "find_channel (em_app_id m) (em_channel m) (sv_channels sv) = None"
    using that config_ok_id [OF Cons.prems, of "em_app_id m"] by (auto simp: expire_member_def split: option.split)
  with Cons.IH [of sv] Cons.IH [of "expire_member E now m sv"] Cons.prems show ?case
    by (simp add: expire_member_keeps)
qed simp

text \<open>
  C40: A presence member of a peer that stopped refreshing is reported only by a node that has a local
  channel of that name. A sweep drops exactly the expired peers' reports from the cache, all the
  same, and goes over the expired members as if those without a local channel had not been in them:
  for these it queues no webhook and sends no frame, and as their record is gone no later sweep finds
  them again unless a peer reports them anew. So when the fleet's leader has no such channel, the
  departure is reported by nobody.
\<close>

theorem expired_members_unreported:
  assumes conf: "config_ok (sv_config sv)" and wf: "disp_wf (sv_disp sv)"
  shows "let old = d_presence_cache (sv_disp sv);
             expired = fst (pc_gc_expired now old);
             reported = filter (\<lambda>m. find_channel (em_app_id m) (em_channel m) (sv_channels sv) \<noteq> None) expired;
             swept = on_disp (\<lambda>d. d\<lparr>d_presence_cache := snd (pc_gc_expired now old)\<rparr>) sv;
             sv' = gc_members E now sv
         in sv' = fold (expire_member E now) reported swept \<and>
            (reported = [] \<longrightarrow> sv_webhooks sv' = sv_webhooks sv \<and> d_net (sv_disp sv') = d_net (sv_disp sv)) \<and>
            fst (pc_gc_expired now (d_presence_cache (sv_disp sv'))) = [] \<and>
            (\<forall>k node. peer_entry (d_presence_cache (sv_disp sv')) k node =
               (case peer_entry old k node of
                  Some p \<Rightarrow> if is_expired now (ps_inserted_at p) then None else Some p | None \<Rightarrow> None))"
proof -
  let ?old = "d_presence_cache (sv_disp sv)"
  let ?sv = "on_disp (\<lambda>d. d\<lparr>d_presence_cache := snd (pc_gc_expired now ?old)\<rparr>) sv"
  have cache: "cache_wf ?old" using wf by (simp add: disp_wf_def)
  have sweep: "gc_members E now sv = fold (expire_member E now) (fst (pc_gc_expired now ?old)) ?sv"
    by (simp add: gc_members_def case_prod_beta)
  have after: "d_presence_cache (sv_disp (gc_members E now sv)) = snd (pc_gc_expired now ?old)"
    unfolding sweep expire_members_keep_cache by simp
  have "gc_members E now sv = fold (expire_member E now)
      (filter (\<lambda>m. find_channel (em_app_id m) (em_channel m) (sv_channels sv) \<noteq> None) (fst (pc_gc_expired now ?old))) ?sv"
    using expire_members_skip [of ?sv E now "fst (pc_gc_expired now ?old)"] conf
    unfolding sweep by (simp add: sv_channels_def)
  then show ?thesis
    unfolding Let_def after by (simp add: rosters.second_gc_silent [OF cache] rosters.gc_entry [OF cache])
qed

theorem expired_members_unreported_witness:
  "let sv = on_disp (\<lambda>d. d\<lparr>d_presence_cache := sample_cache\<rparr>) sample_server;
       sv' = gc_members sample_ext 20000000000 sv
   in \<lparr>em_app_id = ''1'', em_channel = ''presence-a'', em_user_id = ''u''\<rparr> \<in>
        set (fst (pc_gc_expired 20000000000 (d_presence_cache (sv_disp sv)))) \<and>
      sv_webhooks sv' = sv_webhooks sv \<and>
      fst (pc_gc_expired 20000000000 (d_presence_cache (sv_disp sv'))) = []"
proof -
  let ?sv = "on_disp (\<lambda>d. d\<lparr>d_presence_cache := sample_cache\<rparr>) sample_server"
  have conf: "config_ok (sv_config ?sv)" by (simp add: sample_server_simps config_ok_sample)
  have wf: "disp_wf (sv_disp ?sv)"
    using disp_wf_provider [of "''node''" False 100 sample_config] sample_cache_wf
    by (simp add: sample_server_def disp_wf_def)
  have gone: "find_channel aid n (sv_channels ?sv) = None" for aid n
    by (simp add: sv_channels_def sample_server_simps find_channel_def manager_new_def)
  from expired_members_unreported [OF conf wf, where E = sample_ext and now = 20000000000, unfolded Let_def, THEN conjunct2]
    presence_gc_spec_witness
  show ?thesis unfolding Let_def gone by simp
qed

end
