(* ===== verification/Process_Control.thy ===== *)
theory Process_Control
  imports Server_Tasks
begin

text \<open>
  What keeps the process running around the server (\<open>zatat-cli/src/main.rs\<close>), the bridge to the bus
  and its watchdog (\<open>zatat-scaling/src/redis.rs\<close>) and the guard of the metrics endpoint
  (\<open>zatat-metrics/src/lib.rs\<close>): the supervisor of the background tasks, the watchers of the
  configuration and of the certificate, the reader of the bus, and the wait for the outbound queues
  before the process ends. Sockets, files and signals appear as what the program reads from them.
\<close>

section \<open>Supervised tasks\<close>

datatype task_end = Exited | Panicked | Cancelled

definition BACKOFF_START :: "64 word" where
  "BACKOFF_START = 500"

definition next_backoff :: "64 word \<Rightarrow> 64 word" where
  "next_backoff backoff_ms = min (backoff_ms * 2) 30000"

text \<open>
  The pauses in milliseconds before each new run of a task whose runs end as listed, and whether the
  supervisor is still there afterwards.
\<close>

fun supervise :: "64 word \<Rightarrow> task_end list \<Rightarrow> 64 word list \<times> bool" where
  "supervise backoff_ms [] = ([], True)"
| "supervise backoff_ms (e # ends) =
     (if e = Cancelled then ([], False)
      else case supervise (next_backoff backoff_ms) ends of
             (pauses, up) \<Rightarrow> (backoff_ms # pauses, up))"

definition pause_at :: "nat \<Rightarrow> nat" where
  "pause_at k = min (500 * 2 ^ k) 30000"

section \<open>The watchers\<close>

definition parse_u64 :: "string \<Rightarrow> nat option" where
  "parse_u64 s =
     (let digits = (case s of c # cs \<Rightarrow> if c = CHR ''+'' then cs else s | [] \<Rightarrow> [])
      in case parse_nat digits of
           Some n \<Rightarrow> if n < 2 ^ 64 then Some n else None
         | None \<Rightarrow> None)"

definition reload_interval :: "nat \<Rightarrow> string option \<Rightarrow> nat" where
  "reload_interval dflt var = (case Option.bind var parse_u64 of Some n \<Rightarrow> n | None \<Rightarrow> dflt)"

text \<open>
  The start of a watcher: an interval of no length makes the timer panic, otherwise the time of the
  start is the first time stamp.
\<close>

definition watch_begin :: "nat \<Rightarrow> string option \<Rightarrow> int \<Rightarrow> task_end + int" where
  "watch_begin dflt var now = (if reload_interval dflt var = 0 then Inl Panicked else Inr now)"

text \<open>
  One poll of the configuration file: its modification time, if it can be read, and what loading it
  gives.
\<close>

definition watch_config_apps ::
  "ext \<Rightarrow> int option \<times> (config_error + raw_config) \<Rightarrow> int \<times> server \<Rightarrow> int \<times> server" where
  "watch_config_apps E poll st =
     (case (poll, st) of ((mtime, loaded), (last_seen, sv)) \<Rightarrow>
        case mtime of
          None \<Rightarrow> st
        | Some t \<Rightarrow>
            if t \<le> last_seen then st
            else
              (case reload_apps_with E loaded (sv_config sv) of
                 (Inr r, cf) \<Rightarrow> (t, apply_apps_reload E r (sv\<lparr>sv_config := cf\<rparr>))
               | (Inl _, cf) \<Rightarrow> (last_seen, sv\<lparr>sv_config := cf\<rparr>)))"

text \<open>
  One poll of the certificate and its key: the metadata of both files, a time stamp that cannot be
  read counting as the start of the task, and the certificate that loading them gives.
\<close>

definition tls_latest :: "int \<Rightarrow> int option option \<Rightarrow> int option option \<Rightarrow> int option" where
  "tls_latest initial cert key =
     (case (cert, key) of
        (Some a, Some b) \<Rightarrow>
          Some (max (case a of Some t \<Rightarrow> t | None \<Rightarrow> initial) (case b of Some t \<Rightarrow> t | None \<Rightarrow> initial))
      | _ \<Rightarrow> None)"

definition watch_tls_reload ::
  "int \<Rightarrow> int option option \<times> int option option \<times> 'c option \<Rightarrow> int \<times> 'c \<Rightarrow> int \<times> 'c" where
  "watch_tls_reload initial poll st =
     (case (poll, st) of ((cert, key, loaded), (last_mtime, current)) \<Rightarrow>
        case tls_latest initial cert key of
          None \<Rightarrow> st
        | Some latest \<Rightarrow>
            if latest > last_mtime
            then (case loaded of Some c \<Rightarrow> (latest, c) | None \<Rightarrow> st)
            else st)"

section \<open>The bus\<close>

datatype redis_value = RvBytes string | RvString string | RvOther

definition redis_bridge :: "string \<Rightarrow> string \<times> redis_value \<Rightarrow> string option" where
  "redis_bridge bridge_channel msg =
     (if fst msg \<noteq> bridge_channel then None
      else case snd msg of RvBytes b \<Rightarrow> Some b | RvString s \<Rightarrow> Some s | RvOther \<Rightarrow> None)"

definition SUBSCRIBER_MAX_FAILED_PINGS :: "32 word" where
  "SUBSCRIBER_MAX_FAILED_PINGS = 2"

text \<open>One ping of the subscriber: whether a reconnect is forced, and the failures counted.\<close>

definition watchdog_tick :: "bool \<Rightarrow> 32 word \<Rightarrow> bool \<times> 32 word" where
  "watchdog_tick ok failures =
     (if ok then (False, 0)
      else
        (let failures = failures + 1 in
         if failures \<ge> SUBSCRIBER_MAX_FAILED_PINGS then (True, 0) else (False, failures)))"

fun subscriber_watchdog :: "32 word \<Rightarrow> bool list \<Rightarrow> bool list" where
  "subscriber_watchdog failures [] = []"
| "subscriber_watchdog failures (ok # pings) =
     (case watchdog_tick ok failures of
        (forced, failures') \<Rightarrow> forced # subscriber_watchdog failures' pings)"

datatype bus_recv = Received string | Lagged nat | StreamClosed

record bus_reader =
  br_drops :: "64 word"
  br_last_warn :: "instant option"
  br_warnings :: "instant list"
  br_running :: bool

definition LAG_WARN_INTERVAL :: duration where
  "LAG_WARN_INTERVAL = from_secs 10"

definition bus_reader_new :: bus_reader where
  "bus_reader_new = \<lparr>br_drops = 0, br_last_warn = None, br_warnings = [], br_running = True\<rparr>"

text \<open>One item of the subscription: an envelope for the dispatcher, a gap, or the end of the stream.\<close>

definition scaling_subscriber ::
  "ext \<Rightarrow> instant \<Rightarrow> bus_recv \<Rightarrow> bus_reader \<times> server \<Rightarrow> bus_reader \<times> server" where
  "scaling_subscriber E now item st =
     (case st of (br, sv) \<Rightarrow>
        if \<not> br_running br then st
        else
          (case item of
             Received bytes \<Rightarrow>
               (case x_env_parse E bytes of
                  Some env \<Rightarrow> (br, sv_incoming E now env sv)
                | None \<Rightarrow> (br, sv))
           | Lagged n \<Rightarrow>
               (let br1 = br\<lparr>br_drops := br_drops br + word_of_nat n\<rparr>;
                    should_warn = (case br_last_warn br of
                      None \<Rightarrow> True | Some t \<Rightarrow> now - t \<ge> LAG_WARN_INTERVAL)
                in (if should_warn
                    then br1\<lparr>br_last_warn := Some now, br_warnings := br_warnings br @ [now]\<rparr>
                    else br1, sv))
           | StreamClosed \<Rightarrow> (br\<lparr>br_running := False\<rparr>, sv)))"

section \<open>The metrics endpoint\<close>

datatype ip_addr = V4 "32 word" | V6 "128 word"

fun is_loopback :: "ip_addr \<Rightarrow> bool" where
  "is_loopback (V4 a) \<longleftrightarrow> drop_bit 24 a = 127"
| "is_loopback (V6 a) \<longleftrightarrow> a = 1"

record metrics_installer =
  mi_listen :: "ip_addr \<times> 16 word"
  mi_bearer_token :: "string option"

datatype install_error = TokenMissing | RecorderFailed

definition install ::
  "bool \<Rightarrow> ip_addr \<times> 16 word \<Rightarrow> string option \<Rightarrow> install_error + metrics_installer" where
  "install recorder_ok listen bearer_token =
     (if \<not> is_loopback (fst listen) \<and> bearer_token = None then Inl TokenMissing
      else if \<not> recorder_ok then Inl RecorderFailed
      else Inr \<lparr>mi_listen = listen, mi_bearer_token = bearer_token\<rparr>)"

definition authorize :: "string option \<Rightarrow> metrics_installer \<Rightarrow> bool" where
  "authorize auth_header mi =
     (case mi_bearer_token mi of
        Some expected \<Rightarrow>
          (case auth_header of
             None \<Rightarrow> False
           | Some header \<Rightarrow>
               (case strip_prefix header ''Bearer '' of None \<Rightarrow> False | Some token \<Rightarrow> expected = token))
      | None \<Rightarrow> True)"

definition metrics_route :: "string option \<Rightarrow> string \<Rightarrow> metrics_installer \<Rightarrow> nat \<times> string" where
  "metrics_route auth_header rendered mi =
     (if \<not> authorize auth_header mi then (401, []) else (200, rendered))"

section \<open>The limit on open files\<close>

record rlimit =
  lim_current :: "nat option"
  lim_maximum :: "nat option"

definition UNLIMITED_TARGET :: nat where
  "UNLIMITED_TARGET = 2 ^ 20"

text \<open>\<open>accepts\<close> is whether the system takes a new limit, which is then the one in force.\<close>

definition raise_fd_limit :: "(rlimit \<Rightarrow> bool) \<Rightarrow> rlimit \<Rightarrow> rlimit" where
  "raise_fd_limit accepts lim =
     (let target = (case lim_maximum lim of Some m \<Rightarrow> m | None \<Rightarrow> UNLIMITED_TARGET);
          raised = lim\<lparr>lim_current := Some target\<rparr>;
          fallback = lim\<lparr>lim_current := Some 10240\<rparr>
      in case lim_current lim of
           None \<Rightarrow> lim
         | Some soft \<Rightarrow>
             if soft < target
             then (if accepts raised then raised
                   else if lim_maximum lim = None \<and> accepts fallback then fallback
                   else lim)
             else lim)"

section \<open>Waiting for the outbound queues\<close>

datatype drain_result = Drained | GaveUp nat nat

definition DRAIN_POLL :: duration where
  "DRAIN_POLL = 50 * 1000000"

text \<open>
  The loop polls the queues of the server (\<open>view i\<close> at the \<open>i\<close>-th poll) and sleeps in between;
  \<open>late i\<close> is how much longer than asked for the \<open>i\<close>-th sleep takes.
\<close>

function drain_loop ::
  "instant \<Rightarrow> (nat \<Rightarrow> server) \<Rightarrow> (nat \<Rightarrow> duration) \<Rightarrow> nat \<Rightarrow> instant \<Rightarrow> drain_result \<times> instant" where
  "drain_loop deadline view late i now =
     (let publishes = pending_publishes (d_publisher (sv_disp (view i)));
          webhooks = wh_pending (sv_webhooks (view i))
      in if publishes = 0 \<and> webhooks = 0 then (Drained, now)
         else if now \<ge> deadline then (GaveUp publishes webhooks, now)
         else drain_loop deadline view late (Suc i) (now + DRAIN_POLL + late i))"
  by pat_completeness auto

termination
  by (relation "measure (\<lambda>(deadline, _, _, _, now). deadline - now)") (auto simp: DRAIN_POLL_def)

declare drain_loop.simps [simp del]

definition drain_outbound ::
  "(nat \<Rightarrow> server) \<Rightarrow> (nat \<Rightarrow> duration) \<Rightarrow> duration \<Rightarrow> instant \<Rightarrow> drain_result \<times> instant" where
  "drain_outbound view late timeout now = drain_loop (now + timeout) view late 0 now"

section \<open>The supervisor\<close>

lemma min_word_of_nat:
  assumes "m < 2 ^ 64" "n < 2 ^ 64"
  shows "min (word_of_nat m) (word_of_nat n) = (word_of_nat (min m n) :: 64 word)"
proof -
  have "word_of_nat m \<le> (word_of_nat n :: 64 word) \<longleftrightarrow> m \<le> n"
    using assms by (simp add: word_le_nat_alt unat_of_nat)
  then show ?thesis by (simp add: min_def)
qed

lemma next_backoff_pause: "next_backoff (word_of_nat (pause_at k)) = word_of_nat (pause_at (Suc k))"
proof -
  let ?n = "pause_at k"
  have "?n \<le> 30000" by (simp add: pause_at_def)
  then have "min (word_of_nat (?n * 2)) (word_of_nat 30000) = (word_of_nat (min (?n * 2) 30000) :: 64 word)"
    by (intro min_word_of_nat) simp_all
  moreover have "min (?n * 2) 30000 = pause_at (Suc k)" by (simp add: pause_at_def min_def)
  ultimately show ?thesis by (simp add: next_backoff_def)
qed

lemma supervise_from:
  "Cancelled \<notin> set ends \<Longrightarrow>
   supervise (word_of_nat (pause_at k)) ends =
     (map (\<lambda>i. word_of_nat (pause_at (k + i))) [0..<length ends], True)"
proof (induction ends arbitrary: k)
  case (Cons e ends)
  then show ?case
    by (auto simp: next_backoff_pause map_upt_Suc simp del: upt_Suc)
qed simp

theorem supervise_backoff:
  assumes "Cancelled \<notin> set ends"
  shows "supervise BACKOFF_START ends =
           (map (\<lambda>i. word_of_nat (min (500 * 2 ^ i) 30000)) [0..<length ends], True)"
  using supervise_from [OF assms, of 0] by (simp add: pause_at_def BACKOFF_START_def)

text \<open>An interval of zero: every run of the watcher panics, and the supervisor starts the next one.\<close>

theorem zero_interval_never_watches:
  "watch_begin dflt (Some ''0'') now = Inl Panicked \<and>
   (\<exists>pauses. supervise BACKOFF_START (replicate n Panicked) = (pauses, True) \<and> length pauses = n)"
proof -
  have "Cancelled \<notin> set (replicate n Panicked)" by simp
  from supervise_backoff [OF this] show ?thesis
    by (auto simp: watch_begin_def reload_interval_def parse_u64_def parse_nat_def digit_value_def)
qed

section \<open>Polling a file\<close>

text \<open>
  What the two watchers share: a poll that is not newer than the last one taken over does nothing, a
  newer one is taken over if it loads, and counts as not seen if it does not.
\<close>

locale file_watcher =
  fixes tick :: "'p \<Rightarrow> int \<times> 's \<Rightarrow> int \<times> 's"
    and stamp :: "'p \<Rightarrow> int option"
    and loads :: "'p \<Rightarrow> 's \<Rightarrow> 's option"
  assumes unchanged: "(\<And>t. stamp p = Some t \<Longrightarrow> t \<le> seen) \<Longrightarrow> tick p (seen, s) = (seen, s)"
    and taken: "stamp p = Some t \<Longrightarrow> seen < t \<Longrightarrow> loads p s = Some s' \<Longrightarrow> tick p (seen, s) = (t, s')"
    and failed: "loads p s = None \<Longrightarrow> tick p (seen, s) = (seen, s)"
begin

lemma seen_mono: "seen \<le> fst (fold tick ps (seen, s))"
proof (induction ps arbitrary: seen s)
  case (Cons p ps)
  obtain seen' s' where t: "tick p (seen, s) = (seen', s')" by (cases "tick p (seen, s)") auto
  have "seen \<le> seen'"
  proof (cases "\<exists>t s2. stamp p = Some t \<and> seen < t \<and> loads p s = Some s2")
    case True
    then show ?thesis using taken [of p _ seen s] t by auto
  next
    case False
    then show ?thesis
      using unchanged [of p seen s] failed [of p s seen] t by (cases "loads p s") fastforce+
  qed
  also have "\<dots> \<le> fst (fold tick ps (seen', s'))" by (rule Cons.IH)
  finally show ?case by (simp add: t)
qed simp

lemma failures_ignored: "(\<And>p. p \<in> set ps \<Longrightarrow> loads p s = None) \<Longrightarrow> fold tick ps (seen, s) = (seen, s)"
  by (induction ps) (simp_all add: failed)

lemma old_ignored:
  "(\<And>p t. p \<in> set ps \<Longrightarrow> stamp p = Some t \<Longrightarrow> t \<le> seen) \<Longrightarrow> fold tick ps (seen, s) = (seen, s)"
proof (induction ps)
  case (Cons p ps)
  have "tick p (seen, s) = (seen, s)" using Cons.prems by (intro unchanged) auto
  moreover have "fold tick ps (seen, s) = (seen, s)" using Cons.prems by (intro Cons.IH) auto
  ultimately show ?case by simp
qed simp

lemma taken_once:
  assumes "\<And>p. p \<in> set before \<Longrightarrow> loads p s = None"
    and "stamp q = Some t" "seen < t" "loads q s = Some s'"
    and "\<And>p u. p \<in> set after \<Longrightarrow> stamp p = Some u \<Longrightarrow> u \<le> t"
  shows "fold tick (before @ q # after) (seen, s) = (t, s')"
  using assms by (simp add: failures_ignored taken old_ignored)

end

definition reloaded :: "ext \<Rightarrow> (config_error + raw_config) \<Rightarrow> server \<Rightarrow> server option" where
  "reloaded E loaded sv =
     (case reload_apps_with E loaded (sv_config sv) of
        (Inr r, cf) \<Rightarrow> Some (apply_apps_reload E r (sv\<lparr>sv_config := cf\<rparr>))
      | (Inl _, _) \<Rightarrow> None)"

lemma failed_load_same: "reload_apps_with E loaded cf = (Inl err, cf') \<Longrightarrow> cf' = cf"
  by (auto simp: reload_apps_with_def split: sum.splits)

interpretation apps_file: file_watcher "watch_config_apps E" fst "\<lambda>p. reloaded E (snd p)" for E
  by unfold_locales
    (auto simp: watch_config_apps_def reloaded_def split: option.splits prod.splits sum.splits
      dest: failed_load_same)

interpretation tls_files: file_watcher "watch_tls_reload initial"
    "\<lambda>(cert, key, _). tls_latest initial cert key" "\<lambda>(_, _, loaded) _. loaded" for initial
  by unfold_locales
    (auto simp: watch_tls_reload_def split: option.splits prod.splits)

text \<open>
  A configuration file that changed is taken over exactly once, after any number of polls at which it
  could not be loaded, each of which leaves the server as it was.
\<close>

theorem apps_file_taken_once:
  assumes "\<And>l. l \<in> set failing \<Longrightarrow> fst (reload_apps_with E l (sv_config sv)) \<in> range Inl"
    and "last_seen < t" "reload_apps_with E loaded (sv_config sv) = (Inr r, cf)"
  shows "fold (watch_config_apps E) (map (Pair (Some t)) (failing @ loaded # later)) (last_seen, sv) =
           (t, apply_apps_reload E r (sv\<lparr>sv_config := cf\<rparr>))"
proof -
  have "reloaded E l sv = None" if "l \<in> set failing" for l
    using assms(1) [OF that] by (auto simp: reloaded_def split: prod.splits sum.splits)
  then show ?thesis
    using assms(2, 3) unfolding map_append list.map(2)
    by (intro apps_file.taken_once) (auto simp: reloaded_def)
qed

section \<open>The bus\<close>

lemma watchdog_cases:
  "watchdog_tick ok 0 = (False, if ok then 0 else 1)"
  "watchdog_tick ok 1 = (\<not> ok, 0)"
  by (simp_all add: watchdog_tick_def SUBSCRIBER_MAX_FAILED_PINGS_def Let_def word_le_nat_alt)

lemma watchdog_length [simp]: "length (subscriber_watchdog f pings) = length pings"
  by (induction pings arbitrary: f) (auto split: prod.split)

text \<open>
  The subscriber is reconnected only after two pings in a row failed, and two failures in a row never
  go without a reconnect.
\<close>

lemma watchdog_forced:
  assumes "f = 0 \<or> f = 1" "i < length pings" "subscriber_watchdog f pings ! i"
  shows "\<not> pings ! i \<and> (if i = 0 then f = 1 else \<not> pings ! (i - 1))"
  using assms
proof (induction pings arbitrary: f i)
  case (Cons ok pings)
  show ?case
  proof (cases i)
    case 0
    with Cons.prems show ?thesis by (auto simp: watchdog_cases)
  next
    case (Suc j)
    let ?f = "snd (watchdog_tick ok f)"
    have f: "?f = 0 \<or> ?f = 1 \<and> \<not> ok" using Cons.prems(1) by (auto simp: watchdog_cases)
    have "\<not> pings ! j \<and> (if j = 0 then ?f = 1 else \<not> pings ! (j - 1))"
      using Cons.prems f Suc by (intro Cons.IH) (auto split: prod.splits)
    then show ?thesis using f Suc by (auto simp: nth_Cons split: if_splits nat.splits)
  qed
qed simp

lemma watchdog_reacts:
  assumes "f = 0 \<or> f = 1" "Suc i < length pings" "\<not> pings ! i" "\<not> pings ! Suc i"
  shows "subscriber_watchdog f pings ! i \<or> subscriber_watchdog f pings ! Suc i"
  using assms
proof (induction pings arbitrary: f i)
  case (Cons ok pings)
  let ?f = "snd (watchdog_tick ok f)"
  have f: "?f = 0 \<or> ?f = 1" using Cons.prems(1) by (cases ok) (auto simp: watchdog_cases)
  show ?case
  proof (cases i)
    case 0
    with Cons.prems show ?thesis by (cases pings) (auto simp: watchdog_cases)
  next
    case (Suc j)
    with Cons.prems f have "subscriber_watchdog ?f pings ! j \<or> subscriber_watchdog ?f pings ! Suc j"
      by (intro Cons.IH) auto
    with Suc show ?thesis by (cases "watchdog_tick ok f") simp
  qed
qed simp

theorem subscriber_watchdog_spec:
  "\<forall>i < length pings.
     (subscriber_watchdog 0 pings ! i \<longrightarrow> 0 < i \<and> \<not> pings ! i \<and> \<not> pings ! (i - 1)) \<and>
     (0 < i \<and> \<not> pings ! i \<and> \<not> pings ! (i - 1) \<longrightarrow>
        subscriber_watchdog 0 pings ! i \<or> subscriber_watchdog 0 pings ! (i - 1))"
proof (intro allI impI conjI)
  fix i assume i: "i < length pings"
  { assume "subscriber_watchdog 0 pings ! i"
    from watchdog_forced [OF _ i this] show "0 < i" "\<not> pings ! i" "\<not> pings ! (i - 1)"
      by (auto split: if_splits) }
  assume "0 < i \<and> \<not> pings ! i \<and> \<not> pings ! (i - 1)"
  with i watchdog_reacts [of 0 "i - 1" pings]
  show "subscriber_watchdog 0 pings ! i \<or> subscriber_watchdog 0 pings ! (i - 1)" by auto
qed

text \<open>What a node publishes on the channel of the fleet is what another node's dispatcher handles.\<close>

theorem bus_round_trip:
  assumes "x_env_parse E (x_env_print E env) = Some env" "br_running br"
  shows "\<exists>bytes. redis_bridge channel (channel, RvBytes (x_env_print E env)) = Some bytes \<and>
           scaling_subscriber E now (Received bytes) (br, sv) = (br, sv_incoming E now env sv)"
  using assms by (simp add: redis_bridge_def scaling_subscriber_def)

text \<open>Warnings about a lagging subscription are at least ten seconds apart, whatever is received.\<close>

definition spaced :: "bus_reader \<Rightarrow> bool" where
  "spaced br \<longleftrightarrow>
     (\<forall>i. Suc i < length (br_warnings br) \<longrightarrow>
        br_warnings br ! i + LAG_WARN_INTERVAL \<le> br_warnings br ! Suc i) \<and>
     br_last_warn br = (if br_warnings br = [] then None else Some (last (br_warnings br)))"

lemma spaced_warn:
  assumes "spaced br" "br_last_warn br = None \<or> (\<exists>t. br_last_warn br = Some t \<and> now - t \<ge> LAG_WARN_INTERVAL)"
  shows "spaced (br\<lparr>br_drops := n, br_last_warn := Some now, br_warnings := br_warnings br @ [now]\<rparr>)"
proof -
  have "last (br_warnings br) + LAG_WARN_INTERVAL \<le> now" if "br_warnings br \<noteq> []"
    using assms that by (auto simp: spaced_def LAG_WARN_INTERVAL_def from_secs_def)
  moreover have "(br_warnings br @ [now]) ! i + LAG_WARN_INTERVAL \<le> (br_warnings br @ [now]) ! Suc i"
    if "Suc i < length (br_warnings br)" for i
    using assms(1) that by (simp add: spaced_def nth_append)
  moreover have "br_warnings br ! i = last (br_warnings br)" if "Suc i = length (br_warnings br)" for i
    using that by (cases "br_warnings br" rule: rev_cases) (auto simp: nth_append)
  ultimately show ?thesis
    by (cases "br_warnings br = []") (auto simp: spaced_def nth_append less_Suc_eq split: if_splits)
qed

lemma spaced_subscriber: "spaced br \<Longrightarrow> spaced (fst (scaling_subscriber E now item (br, sv)))"
  using spaced_warn [of br now]
  by (cases item) (auto simp: scaling_subscriber_def Let_def spaced_def [of "br_drops_update _ _"]
      spaced_def [of "br_running_update _ _"] spaced_def [of br] split: option.splits)

lemma spaced_run:
  "spaced br \<Longrightarrow> spaced (fst (fold (\<lambda>(now, item). scaling_subscriber E now item) items (br, sv)))"
proof (induction items arbitrary: br sv)
  case (Cons it items)
  obtain now item where it: "it = (now, item)" by (cases it)
  obtain br' sv' where st: "scaling_subscriber E now item (br, sv) = (br', sv')" by (cases "scaling_subscriber E now item (br, sv)")
  with spaced_subscriber [OF Cons.prems, of E now item sv] Cons.IH [of br' sv'] it
  show ?case by simp
qed simp

theorem lag_warnings_spaced:
  assumes "br = fst (fold (\<lambda>(now, item). scaling_subscriber E now item) items (bus_reader_new, sv))"
    and "Suc i < length (br_warnings br)"
  shows "br_warnings br ! i + from_secs 10 \<le> br_warnings br ! Suc i"
proof -
  have "spaced bus_reader_new" by (simp add: spaced_def bus_reader_new_def)
  from spaced_run [OF this, of E items sv] assms show ?thesis
    by (simp add: spaced_def LAG_WARN_INTERVAL_def)
qed

section \<open>The metrics endpoint\<close>

text \<open>
  Metrics are handed out only to a request with the configured token, or, when none is configured, on
  a listener that only this machine reaches.
\<close>

theorem metrics_fail_closed:
  assumes "install recorder_ok listen bearer_token = Inr mi"
    and "fst (metrics_route auth_header rendered mi) = 200"
  shows "case bearer_token of
           Some token \<Rightarrow> auth_header = Some (''Bearer '' @ token)
         | None \<Rightarrow> is_loopback (fst listen)"
  using assms
  by (auto simp: install_def metrics_route_def authorize_def strip_prefix_eq_Some
      split: if_splits option.splits)

theorem metrics_fail_closed_witness:
  "let mi = \<lparr>mi_listen = (V4 2130706433, 9090), mi_bearer_token = None\<rparr>
   in install True (V4 2130706433, 9090) None = Inr mi \<and> fst (metrics_route None ''m'' mi) = 200 \<and>
      is_loopback (V4 2130706433)"
proof -
  let ?mi = "\<lparr>mi_listen = (V4 2130706433, 9090), mi_bearer_token = None\<rparr>"
  have "install True (V4 2130706433, 9090) None = Inr ?mi" by code_simp
  moreover have "fst (metrics_route None ''m'' ?mi) = 200" by (simp add: metrics_route_def authorize_def)
  ultimately show ?thesis
    using metrics_fail_closed [of True "(V4 2130706433, 9090)" None ?mi None "''m''"] by (simp add: Let_def)
qed

section \<open>The limit on open files\<close>

lemma raise_fd_limit_hard:
  assumes "lim_maximum lim = Some hard" "lim_current lim = Some soft"
  shows "\<exists>n \<ge> soft. lim_current (raise_fd_limit accepts lim) = Some n \<and> n \<le> max soft hard"
  using assms by (auto simp: raise_fd_limit_def Let_def)

text \<open>
  Without a hard limit the fallback is taken even when it is below the limit in force: a process that
  may open 65536 files, on a system that refuses more, is left with 10240.
\<close>

theorem raise_fd_limit_lowers:
  "lim_current (raise_fd_limit (\<lambda>l. \<exists>n. lim_current l = Some n \<and> n \<le> 65536)
                  \<lparr>lim_current = Some 65536, lim_maximum = None\<rparr>) = Some 10240"
  by (simp add: raise_fd_limit_def UNLIMITED_TARGET_def Let_def)

section \<open>The end of the process\<close>

definition drained :: "server \<Rightarrow> bool" where
  "drained sv \<longleftrightarrow> pending_publishes (d_publisher (sv_disp sv)) = 0 \<and> wh_pending (sv_webhooks sv) = 0"

definition drain_report :: "server \<Rightarrow> drain_result" where
  "drain_report sv =
     (if drained sv then Drained
      else GaveUp (pending_publishes (d_publisher (sv_disp sv))) (wh_pending (sv_webhooks sv)))"

lemma drain_loop_step:
  "drain_loop deadline view late i now =
     (if drained (view i) \<or> now \<ge> deadline then (drain_report (view i), now)
      else drain_loop deadline view late (Suc i) (now + DRAIN_POLL + late i))"
  by (subst drain_loop.simps) (auto simp: drained_def drain_report_def Let_def)

lemma drain_loop_spec:
  assumes "\<And>j. late j \<le> slack" "now \<le> deadline + DRAIN_POLL + slack"
  shows "\<exists>j t. drain_loop deadline view late i now = (drain_report (view (i + j)), t) \<and>
           (\<forall>k < j. \<not> drained (view (i + k))) \<and> (\<not> drained (view (i + j)) \<longrightarrow> deadline \<le> t) \<and>
           now + j * DRAIN_POLL \<le> t \<and> t \<le> deadline + DRAIN_POLL + slack"
  using assms
proof (induction deadline view late i now rule: drain_loop.induct)
  case (1 deadline view late i now)
  show ?case
  proof (cases "drained (view i) \<or> now \<ge> deadline")
    case True
    with "1.prems" show ?thesis
      by (intro exI [of _ 0] exI [of _ now]) (auto simp: drain_loop_step [of _ _ _ _ now])
  next
    case False
    let ?now = "now + DRAIN_POLL + late i"
    have "?now \<le> deadline + DRAIN_POLL + slack" using False "1.prems"(1) [of i] by simp
    with False "1.prems" have "\<exists>j t. drain_loop deadline view late (Suc i) ?now = (drain_report (view (Suc i + j)), t) \<and>
        (\<forall>k < j. \<not> drained (view (Suc i + k))) \<and> (\<not> drained (view (Suc i + j)) \<longrightarrow> deadline \<le> t) \<and>
        ?now + j * DRAIN_POLL \<le> t \<and> t \<le> deadline + DRAIN_POLL + slack"
      by (intro "1.IH" [OF refl refl]) (auto simp: drained_def)
    then obtain j t where r: "drain_loop deadline view late (Suc i) ?now = (drain_report (view (Suc i + j)), t)"
      and k: "\<forall>k < j. \<not> drained (view (Suc i + k))"
      and t: "\<not> drained (view (Suc i + j)) \<longrightarrow> deadline \<le> t" "?now + j * DRAIN_POLL \<le> t"
        "t \<le> deadline + DRAIN_POLL + slack" by blast
    have "\<forall>k < Suc j. \<not> drained (view (i + k))" using k False by (auto simp: less_Suc_eq_0_disj)
    moreover have "now + Suc j * DRAIN_POLL \<le> t" using t(2) by simp
    ultimately show ?thesis
      using False r t by (intro exI [of _ "Suc j"] exI [of _ t]) (simp add: drain_loop_step [of _ _ _ _ now])
  qed
qed

text \<open>
  C39: Before the process ends it waits for the outbound queues, and it always ends: as soon as a poll
  finds every publish and every webhook handed over, and otherwise at the first poll past the
  deadline, reporting what is left. No poll before the last one found the queues empty, and the wait
  overruns the timeout by no more than one sleep.
\<close>

theorem drain_outbound_spec:
  assumes "\<And>j. late j \<le> slack"
  shows "\<exists>j t. drain_outbound view late timeout now = (drain_report (view j), t) \<and>
           (\<forall>k < j. \<not> drained (view k)) \<and> (\<not> drained (view j) \<longrightarrow> now + timeout \<le> t) \<and>
           now + j * DRAIN_POLL \<le> t \<and> t \<le> now + timeout + DRAIN_POLL + slack"
  using drain_loop_spec [of late slack now "now + timeout" view 0] assms
  by (simp add: drain_outbound_def)

theorem drain_outbound_spec_witness:
  "\<exists>t. drain_outbound (\<lambda>_. sample_server) (\<lambda>_. 0) (from_secs 5) 7 = (Drained, t) \<and> t \<le> 7 + from_secs 5 + DRAIN_POLL"
proof -
  have "drained sample_server"
    by (simp add: drained_def sample_server_def with_provider_def pending_publishes_def wh_pending_def
        dispatcher_new_def publish_queue_depth_def publisher_new_def spawn_with_overflow_def
        split: publish_overflow.split webhook_overflow.split)
  with drain_outbound_spec [of "\<lambda>_. 0" 0 "\<lambda>_. sample_server" "from_secs 5" 7] show ?thesis
    by (auto simp: drain_report_def)
qed

end
