(* ===== verification/Spec2Isabelle.thy ===== *)
theory Spec2Isabelle
  imports Node_Safety Handler_Specs Process_Control
begin

text \<open>
  Verification of zatat, a server for the Pusher protocol.

  \<^bold>\<open>The program.\<close> A node accepts WebSocket connections of many applications, keeps who is subscribed to
  which channel and signed in as which user, relays events between clients and from an HTTP API to
  clients, and reports transitions as webhooks. Nodes of a fleet exchange envelopes over a bus, so
  that presence, counts and users are fleet-wide. The parts, in the order in which they build on each
  other, with the theories that model them (paths are relative to \<open>src/crates\<close>):

  \<^item> Vocabulary. \<open>Zatat_Prelude\<close> models what the source uses of Rust's standard library: strings as
    byte sequences, hash maps as association lists without duplicate keys (\<open>dget\<close>, \<open>dput\<close>, \<open>ddel\<close>),
    ordered maps and sets as sorted lists, instants and durations in nanoseconds; and three
    interfaces that recur: stores (\<open>kv_store\<close>), who is in what (\<open>membership\<close>), and step relations that
    compose (\<open>step_preorder\<close>). \<open>Wire_Types\<close> has the data that crosses the program's boundaries and the
    record \<open>ext\<close> of third-party code. \<open>Sample_Ext\<close> instantiates that record.
  \<^item> \<open>zatat-core\<close>: \<open>Core_Types\<close> (channel kinds and names, errors, identifiers, application settings and
    the origin policy).
  \<^item> \<open>zatat-protocol\<close>: \<open>Protocol_Frames\<close> (envelopes, presence rosters, the frames a server sends) and
    \<open>Auth_Signing\<close> (tokens, HTTP signatures with \<open>zatat-http/src/sign.rs\<close>, encrypted payloads).
  \<^item> \<open>zatat-connection\<close>: \<open>Connection_Model\<close> (mailboxes, the state of a connection, the rate limiter).
  \<^item> \<open>zatat-channels\<close>: \<open>Channel_Model\<close> (one channel), \<open>Channel_Manager\<close> (the registry) and
    \<open>Registry_View\<close> (the abstract registry and the effect of every operation on it).
  \<^item> \<open>zatat-scaling\<close>: \<open>Peer_Caches\<close>, \<open>Publish_Pipeline\<close>, \<open>Dispatcher\<close> and the laws of the dispatcher,
    \<open>Fleet_Sync\<close>.
  \<^item> \<open>zatat-webhooks\<close>: \<open>Webhooks\<close>. \<open>zatat-config\<close>: \<open>Config_Model\<close>.
  \<^item> \<open>zatat-ws\<close>: \<open>Server_State\<close> (\<open>state.rs\<close> and the tracker), \<open>Ws_Handler\<close> (the handlers of
    \<open>handler.rs\<close>), \<open>Ws_Session\<close> (\<open>run_connection\<close> and \<open>router.rs\<close>), \<open>Server_Tasks\<close> (\<open>tasks.rs\<close>).
  \<^item> \<open>zatat-http\<close>: \<open>Http_Api\<close> (\<open>routes.rs\<close>).
  \<^item> \<open>zatat-cli\<close>: \<open>Process_Control\<close> (the supervisor, the file watchers, the reader of the bus and the
    final drain of \<open>main.rs\<close>, with the bridge and watchdog of \<open>redis.rs\<close> and the guard of
    \<open>zatat-metrics\<close>).
  \<^item> The whole node: \<open>Handler_Effects\<close>, \<open>Task_Effects\<close> and \<open>Api_Effects\<close> say what a client's frame, a
    background task and an HTTP request can change; \<open>Registry_Mirror\<close> and \<open>Node_System\<close> put the parts
    together; \<open>Handler_Specs\<close>, \<open>Node_Safety\<close> and this theory draw the conclusions.

  \<^bold>\<open>How code becomes definitions.\<close> A struct is a record, an enum a datatype, a method a function that
  takes and returns the state it changes, and an early return or an error a branch of the result.
  Names are those of the source, with a prefix where two types have a method of the same name
  (\<open>ch_\<close>, \<open>mgr_\<close>, \<open>pc_\<close>, \<open>pcc_\<close>, \<open>pus_\<close>, \<open>wh_\<close>, \<open>conn_\<close>) or the name is taken in HOL. A closure that
  runs under a lock (\<open>admit\<close>, \<open>on_subscribed\<close>, \<open>on_unsubscribed\<close>) is a function of its own that
  threads the state it captures. The connections of a node live in a store keyed by the identity of
  their mailbox, because a connection is shared between its task, the tracker and the registry; so
  do the mailboxes themselves, and a handle is a socket id with such a key. Counters that the source
  keeps at a width are words or carry their bound: sequence numbers are \<open>64 word\<close>, the limiter
  compares a length modulo \<open>2 ^ 32\<close>.

  \<^bold>\<open>Third-party code.\<close> JSON, hashes, ciphers, base64 and glob patterns are fields of \<open>ext\<close>, a parameter
  \<open>E\<close> of every definition that uses them. A theorem that relies on their behaviour says so in a
  hypothesis (decoding what was encoded, opening what was sealed), and its witness discharges it on
  \<open>Sample_Ext\<close>. Random draws, the clock, what a file or a socket yields and whether a write succeeds
  are arguments.

  \<^bold>\<open>Concurrency.\<close> The machine of \<open>Node_System\<close> interleaves arbitrarily: an upgrade is accepted, a
  connection opens, a session's loop takes one turn (for each branch of its \<open>select\<close>), an envelope
  arrives, a task of the publish pipeline or of the webhook dispatcher steps, a background task
  ticks, a request is served, the configuration is reloaded, the shutdown begins. One such step is
  atomic. In the source the operations on a channel, and the transitions of a user, exclude each
  other by locks for as long as their consequences are issued, and no lock is held across an await;
  the interleavings inside a handler at its awaits are not modelled. Two places where the source takes
  several unlocked steps have a machine of their own: the publish pipeline and the registration of a
  connection (\<open>registration_do\<close> in \<open>Channel_Manager\<close>), which inserts, counts and takes back. The
  greeting of a new connection is written in the step that registers it, and an HTTP handler that
  awaits the fleet receives its replies as arguments of its step. A socket id is drawn at random; a
  step that opens a connection assumes that no open connection has the same one. Every step carries a
  label (\<open>node_label\<close>); that of a turn on a frame holds the text the client sent.

  \<^bold>\<open>What is shown.\<close> Each part has its invariant and the specification of its operations; the numbered
  statements are these.
  \<^item> The node (this theory, C1, C2, C5, C12, C13; \<open>Api_Effects\<close>, C6, C10; \<open>Handler_Specs\<close>, C7, C11):
    the tables of the registry mirror the open connections after any history; a socket becomes a
    member of a private channel or a user's session only by a frame of its own that carries a token
    which verifies; a node without sessions holds nothing; a node that shuts down can finish; requests
    need a signature; a batch is all or nothing; a subscription keeps a presence channel within its
    capacity as far as the node knows; client events reach the other members only.
  \<^item> Channels and registry (C3, C4, C23 to C28): refinement of a roster specification, the type
    invariant of the registry, alternating announcements, effects, the connection limit under
    interleaved registrations, and delivery.
  \<^item> Authentication (C8, C29 to C31, C33) and frames (C32): exactly the signed tokens and requests are
    accepted, signed texts cannot be confused, encoded envelopes are read back.
  \<^item> Rate limiting (C9): equivalence with the sliding window.
  \<^item> Fleet (C14 to C22): stale updates change nothing, one of two nodes reports a withheld
    transition, the pipeline hands over first in, first out and drains, what is published to an
    encrypted channel is a sealed box, snapshots are applied user by user, frames follow presence,
    and nodes that see each other have at most one leader.
  \<^item> Webhooks (C35, C36), configuration (C37, C38) and process (C39): resource bounds, every delivery
    ends under any interleaving, the index and its reload, the final wait ends.
  Beside these stand four statements about behaviour that is not intended: \<open>colon_key_rejects_all\<close>
  (C34), \<open>expired_members_unreported\<close> (C40), \<open>raise_fd_limit_lowers\<close> and
  \<open>zero_interval_never_watches\<close>.

  \<^bold>\<open>Bounds and termination.\<close> Every definition is total. Recursion follows the data; where it does not,
  a measure is proved (\<open>show_nat\<close>, \<open>drain_loop\<close>, whose distance to the deadline shrinks). Fuel occurs in
  parsers that consume their input (\<open>read_members\<close>, \<open>trim_steps\<close>), which get the length of the input.
  Loops without end (the connection's loop, the tasks, the watchers) are one step each, and the
  claims that they get somewhere are about explicit sequences of steps: enough rounds of the
  pipeline drain it, one more turn of each session ends a draining node.

  \<^bold>\<open>Not modelled.\<close> Argument parsing, logging, the binding of listeners, TLS and operating-system signals
  in \<open>zatat-cli\<close>; the Redis client behind the bridge; counters, gauges and their rendering; reading
  TOML (a loaded configuration is the raw data figment yields) and the deserialisers of scalars;
  the HTTP client of the webhooks, whose answers are inputs; path matching of the HTTP router, whose
  routes arrive with their arguments. All of these are input, output or calls into libraries. Memory
  orderings of atomics and the fairness of the runtime are outside the model. The tests, benchmarks
  and fuzz targets hold no code of the server.
\<close>

section \<open>The registry and the connections\<close>

text \<open>
  C1: After any history of the node, with any interleaving of its connections, its peers, its
  background tasks and the HTTP API, the four tables that name sockets agree with the open
  connections. A socket is in a channel exactly when its connection is open and subscribed; in a
  user's sessions exactly when it is open and signed in as that user; in the table of handles and in
  the tracker exactly when it is open. In particular a connection that ended is recorded nowhere.
\<close>

theorem registry_mirrors_connections:
  assumes "reachable E nd"
  shows "let mgr = sv_channels (nd_server nd); tr = sv_tracker (nd_server nd) in
         (sid \<in> channel_sockets aid n mgr \<longleftrightarrow> connected nd aid sid (\<lambda>_ c. n \<in> set (c_subscriptions c))) \<and>
         (sid \<in> set (user_sockets aid u mgr) \<longleftrightarrow> connected nd aid sid (\<lambda>_ c. c_user_id c = Some u)) \<and>
         (handle_for_socket aid sid mgr = Some h \<longleftrightarrow> connected nd aid sid (\<lambda>h' _. h' = h)) \<and>
         ((\<exists>t. dget tr sid = Some t \<and> tk_handle t = h) \<longleftrightarrow> (\<exists>aid. connected nd aid sid (\<lambda>h' _. h' = h)))"
  using reachable_ok [OF assms]
  by (simp add: node_ok_def consistent_def mirrors_def found_connected tracked_connected
      reg_view_simps [symmetric])

theorem registry_mirrors_connections_witness:
  "connected (sample_node sample_ext) ''1'' ''1.2'' (\<lambda>h _. h = \<lparr>h_socket_id = ''1.2'', h_tx = 1\<rparr>) \<and>
   handle_for_socket ''1'' ''1.2'' (sv_channels (nd_server (sample_node sample_ext))) =
     Some \<lparr>h_socket_id = ''1.2'', h_tx = 1\<rparr>"
proof -
  have "connected (sample_node sample_ext) ''1'' ''1.2'' (\<lambda>h _. h = \<lparr>h_socket_id = ''1.2'', h_tx = 1\<rparr>)"
    unfolding connected_def sample_node_def
    by (rule exI [of _ 1], rule exI [of _ "fst (sample_opening sample_ext)"],
        rule exI [of _ "connection_new 0 sample_app ''1.2'' None"])
       (simp add: sample_opening_facts sample_app_def)
  with registry_mirrors_connections [OF sample_node_reachable [of sample_ext],
      where sid = "''1.2''" and aid = "''1''" and h = "\<lparr>h_socket_id = ''1.2'', h_tx = 1\<rparr>"]
  show ?thesis by (simp add: Let_def)
qed

text \<open>
  C12: When no session is running, whatever happened before, the node holds nothing of any
  connection: no application counts a connection, no user is online, the tracker and the connection
  store are empty, and the only channels left are cache channels. So connections never leak, and an
  application's connection quota is always given back.
\<close>

theorem idle_node_is_empty:
  assumes "reachable E nd" and "idle nd"
  shows "connection_count aid (sv_channels (nd_server nd)) = 0 \<and>
         \<not> is_user_online aid u (sv_channels (nd_server nd)) \<and>
         list_all (\<lambda>ch. is_cache (ch_kind ch)) (mgr_channels aid (sv_channels (nd_server nd))) \<and>
         sv_tracker (nd_server nd) = [] \<and> sv_conns (nd_server nd) = []"
  by (rule idle_empty [OF reachable_ok [OF assms(1)] assms(2)])

theorem idle_node_is_empty_witness:
  "idle (node_start ''node'' False 100 sample_config) \<and>
   connection_count ''1'' (sv_channels (nd_server (node_start ''node'' False 100 sample_config))) = 0"
proof -
  have "idle (node_start ''node'' False 100 sample_config)" by (simp add: idle_def node_start_def)
  with idle_node_is_empty [OF reachable.start [OF config_ok_sample, where E = sample_ext] this] show ?thesis by simp
qed

section \<open>Tokens\<close>

text \<open>
  C2: Whatever step a node takes, from whatever state it can be in, a socket becomes a member of a
  channel only in a turn of its own session on a \<open>pusher:subscribe\<close> frame that names the channel;
  and for a private or presence channel the frame itself carries a token that verifies for this very
  socket, this channel and the frame's member data, under the key and secret the application has at
  that moment (the settings now loaded, or the connection's own when the application is gone). No
  peer, HTTP request, task, reload or other client can make it one.
\<close>

theorem membership_needs_token:
  assumes "reachable E nd" and "node_step E label nd nd'"
    and "sid \<in> channel_sockets aid n (sv_channels (nd_server nd'))"
    and "sid \<notin> channel_sockets aid n (sv_channels (nd_server nd))"
  shows "\<exists>tx now wall message ok ss obj.
           label = Turn tx now wall (Ws_Session.Incoming (Some (CText message)) ok) \<and>
           dget (nd_sessions nd) tx = Some ss \<and> h_socket_id (ss_handle ss) = sid \<and> app_id (ss_app ss) = aid \<and>
           frame_fields E message ''pusher:subscribe'' = Some obj \<and> field_str obj ''channel'' = Some n \<and>
           is_valid_channel_name n \<and>
           (is_private (from_name n) \<longrightarrow>
              (\<exists>auth. field_str obj ''auth'' = Some auth \<and>
                 (let app = live_app (ss_app ss) (nd_server nd) in
                  verify_channel_auth E (app_key app) sid n (field_str obj ''channel_data'') auth
                    (app_secret app) = Inr ())))"
proof -
  obtain tx now wall msg ok ss c where
    m: "label = Turn tx now wall (Ws_Session.Incoming (Some (CText msg)) ok)"
      "dget (nd_sessions nd) tx = Some ss" "h_socket_id (ss_handle ss) = sid" "app_id (ss_app ss) = aid"
      "c_socket_id c = sid" and
    w: "warranted E (live_app (ss_app ss) (nd_server nd)) c msg (Joins n)"
    by (rule new_member [OF assms(1,2), unfolded reg_view_simps, OF assms(3,4)])
  from w m(5) obtain obj where "frame_fields E msg ''pusher:subscribe'' = Some obj" "field_str obj ''channel'' = Some n"
    "is_valid_channel_name n"
    "is_private (from_name n) \<longrightarrow> (\<exists>auth. field_str obj ''auth'' = Some auth \<and>
       verify_channel_auth E (app_key (live_app (ss_app ss) (nd_server nd))) sid n (field_str obj ''channel_data'') auth
         (app_secret (live_app (ss_app ss) (nd_server nd))) = Inr ())"
    by (auto split: option.splits)
  with m show ?thesis unfolding Let_def by blast
qed

theorem membership_needs_token_witness:
  "\<exists>tx now wall message ok ss obj.
     Turn 1 0 0 (Ws_Session.Incoming (Some (CText [])) True) = Turn tx now wall (Ws_Session.Incoming (Some (CText message)) ok) \<and>
     dget (nd_sessions (sample_node subscribing_ext)) tx = Some ss \<and> h_socket_id (ss_handle ss) = ''1.2'' \<and>
     app_id (ss_app ss) = ''1'' \<and>
     frame_fields subscribing_ext message ''pusher:subscribe'' = Some obj \<and>
     field_str obj ''channel'' = Some ''private-a'' \<and> is_valid_channel_name ''private-a'' \<and>
     (\<exists>auth. field_str obj ''auth'' = Some auth \<and>
        (let app = live_app (ss_app ss) (nd_server (sample_node subscribing_ext)) in
         verify_channel_auth subscribing_ext (app_key app) ''1.2'' ''private-a'' (field_str obj ''channel_data'') auth
           (app_secret app) = Inr ()))"
proof -
  obtain frame where p: "parse_inbound subscribing_ext [] = Some frame"
    by (simp add: parse_inbound_def subscribing_ext_def)
  have new: "''1.2'' \<in> channel_sockets ''1'' ''private-a'' (sv_channels (nd_server (sample_after subscribing_ext)))"
    unfolding sample_members(1) [OF p] by (rule subscribing_conn)
  have priv: "is_private (from_name ''private-a'') = True" by code_simp
  show ?thesis
    by (rule membership_needs_token [OF sample_node_reachable sample_step new sample_members(2) [OF p],
          unfolded priv simp_thms])
qed

text \<open>
  C5: Whatever step a node takes, a socket is counted among a user's sessions only in a turn of its
  own session on a \<open>pusher:signin\<close> frame whose user data names this user, and whose token verifies
  for this very socket and this user data under the key and secret the application has at that
  moment; and it was no user's session before. So a signed-in connection never changes its user,
  and nobody is counted as a user whose identity the application's secret did not sign for the
  socket.
\<close>

theorem signin_needs_token:
  assumes "reachable E nd" and "node_step E label nd nd'"
    and "sid \<in> set (user_sockets aid u (sv_channels (nd_server nd')))"
    and "sid \<notin> set (user_sockets aid u (sv_channels (nd_server nd)))"
  shows "(\<forall>u'. sid \<notin> set (user_sockets aid u' (sv_channels (nd_server nd)))) \<and>
         (\<exists>tx now wall message ok ss obj auth user_data.
            label = Turn tx now wall (Ws_Session.Incoming (Some (CText message)) ok) \<and>
            dget (nd_sessions nd) tx = Some ss \<and> h_socket_id (ss_handle ss) = sid \<and> app_id (ss_app ss) = aid \<and>
            frame_fields E message ''pusher:signin'' = Some obj \<and> field_str obj ''auth'' = Some auth \<and>
            field_str obj ''user_data'' = Some user_data \<and>
            (let app = live_app (ss_app ss) (nd_server nd) in
             verify_user_auth E (app_key app) sid user_data auth (app_secret app) = Inr ()) \<and>
            Option.bind (json_get (json_or_null E user_data) ''id'') id_text = Some u)"
proof -
  obtain tx now wall msg ok ss c where
    m: "label = Turn tx now wall (Ws_Session.Incoming (Some (CText msg)) ok)"
      "dget (nd_sessions nd) tx = Some ss" "h_socket_id (ss_handle ss) = sid" "app_id (ss_app ss) = aid"
      "c_socket_id c = sid" and
    w: "warranted E (live_app (ss_app ss) (nd_server nd)) c msg (SignsIn u)" and
    none: "\<forall>u'. sid \<notin> set (user_sockets aid u' (sv_channels (nd_server nd)))"
    by (rule new_session [OF assms(1,2), unfolded reg_view_simps, OF assms(3,4)])
  from w m(5) obtain obj auth user_data where "frame_fields E msg ''pusher:signin'' = Some obj"
    "field_str obj ''auth'' = Some auth" "field_str obj ''user_data'' = Some user_data"
    "verify_user_auth E (app_key (live_app (ss_app ss) (nd_server nd))) sid user_data auth
       (app_secret (live_app (ss_app ss) (nd_server nd))) = Inr ()"
    "Option.bind (json_get (json_or_null E user_data) ''id'') id_text = Some u"
    by (auto split: option.splits)
  with m none show ?thesis unfolding Let_def by blast
qed

theorem signin_needs_token_witness:
  "(\<forall>u'. ''1.2'' \<notin> set (user_sockets ''1'' u' (sv_channels (nd_server (sample_node signing_ext))))) \<and>
   (\<exists>tx now wall message ok ss obj auth user_data.
      Turn 1 0 0 (Ws_Session.Incoming (Some (CText [])) True) = Turn tx now wall (Ws_Session.Incoming (Some (CText message)) ok) \<and>
      dget (nd_sessions (sample_node signing_ext)) tx = Some ss \<and> h_socket_id (ss_handle ss) = ''1.2'' \<and>
      app_id (ss_app ss) = ''1'' \<and>
      frame_fields signing_ext message ''pusher:signin'' = Some obj \<and> field_str obj ''auth'' = Some auth \<and>
      field_str obj ''user_data'' = Some user_data \<and>
      (let app = live_app (ss_app ss) (nd_server (sample_node signing_ext)) in
       verify_user_auth signing_ext (app_key app) ''1.2'' user_data auth (app_secret app) = Inr ()) \<and>
      Option.bind (json_get (json_or_null signing_ext user_data) ''id'') id_text = Some ''u'')"
proof -
  obtain frame where p: "parse_inbound signing_ext [] = Some frame"
    by (simp add: parse_inbound_def signing_ext_def)
  have new: "''1.2'' \<in> set (user_sockets ''1'' ''u'' (sv_channels (nd_server (sample_after signing_ext))))"
    unfolding sample_members(3) [OF p] by (rule signing_conn)
  show ?thesis
    by (rule signin_needs_token [OF sample_node_reachable sample_step new sample_members(4) [OF p]])
qed

section \<open>Shutdown\<close>

text \<open>
  C13: A node that was told to shut down can always finish: one more turn of each session, in any
  state of the node, sends every open connection the close frame 1001 as its last frame and ends
  it, after which the node holds nothing of any connection. New upgrades are refused from the moment
  the signal is given.
\<close>

theorem shutdown_drains:
  assumes "reachable E nd" and "is_draining (nd_server nd)"
  shows "let nd' = drain_node E now wall nd in
         reachable E nd' \<and> idle nd' \<and> connection_count aid (sv_channels (nd_server nd')) = 0 \<and>
         (\<forall>tx ss. dget (nd_sessions nd) tx = Some ss \<longrightarrow> ss_running ss \<longrightarrow>
            (\<exists>ss'. dget (nd_sessions nd') tx = Some ss' \<and>
               ss_sink ss' = ss_sink ss @ [SClose 1001 ''server going away''])) \<and>
         ws_upgrade E key protocol origin (nd_server nd') = HttpReply 503 ''server is shutting down''"
proof -
  let ?nd = "drain_node E now wall nd"
  have "sv_draining (nd_server nd)" using assms(2) by (simp add: is_draining_def)
  note spec = drain_sessions_spec [OF assms(1) this, of now wall "dkeys (nd_sessions nd)", folded drain_node_def]
  have each: "after_drain (dget (nd_sessions nd) tx \<noteq> None) (dget (nd_sessions nd) tx) (dget (nd_sessions ?nd) tx)" for tx
  proof -
    have "(dget (nd_sessions nd) tx \<noteq> None) = (tx \<in> set (dkeys (nd_sessions nd)))"
      by (metis dhas_def dhas_iff)
    then show ?thesis using spec by (simp del: set_map)
  qed
  have idle: "idle ?nd"
    unfolding idle_iff
  proof (intro allI impI)
    fix tx ss' assume "dget (nd_sessions ?nd) tx = Some ss'"
    with each [of tx] show "\<not> ss_running ss'"
      by (cases "dget (nd_sessions nd) tx") (auto simp: farewell_def)
  qed
  have last: "\<exists>ss'. dget (nd_sessions ?nd) tx = Some ss' \<and> ss_sink ss' = ss_sink ss @ [SClose 1001 ''server going away'']"
    if "dget (nd_sessions nd) tx = Some ss" "ss_running ss" for tx ss
    using each [of tx] that by (auto simp: farewell_def split: option.splits)
  have reach: "reachable E ?nd" and drain: "sv_draining (nd_server ?nd)" using spec by simp_all
  from idle_empty [OF reachable_ok [OF reach] idle] reach idle drain last show ?thesis
    by (simp add: Let_def ws_upgrade_def is_draining_def)
qed

theorem shutdown_drains_witness:
  "let nd = (sample_node sample_ext)\<lparr>nd_server := shutdown_now (nd_server (sample_node sample_ext))\<rparr>
   in reachable sample_ext nd \<and> \<not> idle nd \<and> idle (drain_node sample_ext 0 0 nd)"
proof -
  let ?nd = "(sample_node sample_ext)\<lparr>nd_server := shutdown_now (nd_server (sample_node sample_ext))\<rparr>"
  have r: "reachable sample_ext ?nd"
    using reachable.step [OF sample_node_reachable node_step.served [where ev = ShutdownSignal]] by simp
  have "is_draining (nd_server ?nd)" by (simp add: is_draining_def shutdown_now_def)
  from shutdown_drains [OF r this, where now = 0 and wall = 0] r show ?thesis
    by (simp add: Let_def idle_def sample_node_def sample_opening_facts)
qed

end
